(* ===== verification/LynkPrelude.thy ===== *)
theory LynkPrelude
  imports Main "HOL-Library.Word"
begin

text \<open>
  The prelude of the development: the representation of Go functions that thread a mutable
  state and may return an error, the rules that compose facts about them, and small facts on
  lists, options and sums that the component theories share.

  A Go function \<open>func (s *S) F(...) (A, error)\<close> is an \<open>act\<close>: a function of the state that
  yields \<open>Inl err\<close> or \<open>Inr a\<close> together with the state it leaves behind. The state survives
  an error, as it does in Go; only a database transaction takes anything back.
\<close>

type_synonym ('s, 'e, 'a) act = "'s \<Rightarrow> ('e + 'a) \<times> 's"

definition ret :: "'a \<Rightarrow> ('s, 'e, 'a) act" where
  "ret x = (\<lambda>s. (Inr x, s))"

definition fail :: "'e \<Rightarrow> ('s, 'e, 'a) act" where
  "fail e = (\<lambda>s. (Inl e, s))"

text \<open>\<open>x, err := m(); if err != nil { return err }; f(x)\<close>\<close>

definition andThen :: "('s, 'e, 'a) act \<Rightarrow> ('a \<Rightarrow> ('s, 'e, 'b) act) \<Rightarrow> ('s, 'e, 'b) act" where
  "andThen m f = (\<lambda>s. case m s of (Inl e, s') \<Rightarrow> (Inl e, s') | (Inr x, s') \<Rightarrow> f x s')"

text \<open>\<open>x, err := m()\<close>, with the error kept as a value the caller inspects.\<close>

definition attempt :: "('s, 'e, 'a) act \<Rightarrow> ('s, 'f, 'e + 'a) act" where
  "attempt m = (\<lambda>s. case m s of (r, s') \<Rightarrow> (Inr r, s'))"

definition reads :: "('s \<Rightarrow> 'a) \<Rightarrow> ('s, 'e, 'a) act" where
  "reads f = (\<lambda>s. (Inr (f s), s))"

definition modify :: "('s \<Rightarrow> 's) \<Rightarrow> ('s, 'e, unit) act" where
  "modify f = (\<lambda>s. (Inr (), f s))"

text \<open>A pure fallible call (\<open>vo.NewEmail\<close> and the like) inside a stateful function.\<close>

definition liftE :: "('e + 'a) \<Rightarrow> ('s, 'e, 'a) act" where
  "liftE r = (\<lambda>s. (r, s))"

section \<open>Composition rules\<close>

text \<open>
  \<open>hoare P m Q R\<close>: from a state that satisfies \<open>P\<close>, a normal return satisfies \<open>Q\<close> and an
  error return satisfies \<open>R\<close>. Every act is total, so this is total correctness.
\<close>

definition hoare ::
  "('s \<Rightarrow> bool) \<Rightarrow> ('s, 'e, 'a) act \<Rightarrow> ('a \<Rightarrow> 's \<Rightarrow> bool) \<Rightarrow> ('e \<Rightarrow> 's \<Rightarrow> bool) \<Rightarrow> bool" where
  "hoare P m Q R \<longleftrightarrow>
     (\<forall>s. P s \<longrightarrow> (case m s of (Inl e, s') \<Rightarrow> R e s' | (Inr x, s') \<Rightarrow> Q x s'))"

definition preserves :: "('s \<Rightarrow> bool) \<Rightarrow> ('s, 'e, 'a) act \<Rightarrow> bool" where
  "preserves I m \<longleftrightarrow> (\<forall>s. I s \<longrightarrow> I (snd (m s)))"

named_theorems act_defs \<open>the definitions of the basic acts\<close>
named_theorems pres \<open>preservation rules, one per act\<close>

declare ret_def [act_defs] fail_def [act_defs] andThen_def [act_defs] attempt_def [act_defs]
  reads_def [act_defs] modify_def [act_defs] liftE_def [act_defs]

lemma act_simps [simp]:
  "ret x s = (Inr x, s)"
  "fail e s = (Inl e, s)"
  "reads f s = (Inr (f s), s)"
  "modify g s = (Inr (), g s)"
  "liftE r s = (r, s)"
  by (simp_all add: act_defs)

lemma attempt_simp [simp]: "attempt m s = (Inr (fst (m s)), snd (m s))"
  by (simp add: attempt_def split: prod.splits)

lemma andThen_Inl [simp]: "m s = (Inl e, s') \<Longrightarrow> andThen m f s = (Inl e, s')"
  by (simp add: andThen_def)

lemma andThen_Inr [simp]: "m s = (Inr x, s') \<Longrightarrow> andThen m f s = f x s'"
  by (simp add: andThen_def)

lemma andThen_ret [simp]: "andThen (ret x) f = f x"
  by (simp add: fun_eq_iff)

lemma andThen_fail [simp]: "andThen (fail e) f = fail e"
  by (simp add: fun_eq_iff)

lemma andThen_split:
  "andThen m f s = (case m s of (Inl e, s') \<Rightarrow> (Inl e, s') | (Inr x, s') \<Rightarrow> f x s')"
  by (simp add: andThen_def)

lemma andThen_InrE:
  assumes "andThen m f s = (Inr y, t)"
  obtains x s' where "m s = (Inr x, s')" and "f x s' = (Inr y, t)"
  using assms by (auto simp: andThen_def split: prod.splits sum.splits)

lemma andThen_InlE:
  assumes "andThen m f s = (Inl e, t)"
  obtains "m s = (Inl e, t)" | x s' where "m s = (Inr x, s')" and "f x s' = (Inl e, t)"
  using assms by (auto simp: andThen_def split: prod.splits sum.splits)

lemma hoareI:
  assumes "\<And>s e s'. P s \<Longrightarrow> m s = (Inl e, s') \<Longrightarrow> R e s'"
    and "\<And>s x s'. P s \<Longrightarrow> m s = (Inr x, s') \<Longrightarrow> Q x s'"
  shows "hoare P m Q R"
  using assms by (auto simp: hoare_def split: prod.splits sum.splits)

lemma hoare_Inr: "hoare P m Q R \<Longrightarrow> P s \<Longrightarrow> m s = (Inr x, s') \<Longrightarrow> Q x s'"
  by (auto simp: hoare_def split: prod.splits sum.splits)

lemma hoare_Inl: "hoare P m Q R \<Longrightarrow> P s \<Longrightarrow> m s = (Inl e, s') \<Longrightarrow> R e s'"
  by (auto simp: hoare_def split: prod.splits sum.splits)

lemma hoare_andThen:
  assumes "hoare P m M R" and "\<And>x. hoare (M x) (f x) Q R"
  shows "hoare P (andThen m f) Q R"
  using assms
  by (intro hoareI) (auto elim!: andThen_InrE andThen_InlE dest: hoare_Inr hoare_Inl)

lemma preservesI: "(\<And>s. I s \<Longrightarrow> I (snd (m s))) \<Longrightarrow> preserves I m"
  by (simp add: preserves_def)

lemma preservesD: "preserves I m \<Longrightarrow> I s \<Longrightarrow> I (snd (m s))"
  by (simp add: preserves_def)

lemma preserves_run: "preserves I m \<Longrightarrow> I s \<Longrightarrow> m s = (r, s') \<Longrightarrow> I s'"
  by (auto simp: preserves_def dest: spec [of _ s])

lemma preserves_ret [pres]: "preserves I (ret x)"
  and preserves_fail [pres]: "preserves I (fail e)"
  and preserves_reads [pres]: "preserves I (reads f)"
  and preserves_liftE [pres]: "preserves I (liftE r)"
  by (simp_all add: preserves_def)

lemma preserves_attempt [pres]: "preserves I m \<Longrightarrow> preserves I (attempt m)"
  by (simp add: preserves_def)

lemma preserves_andThen [pres]:
  "preserves I m \<Longrightarrow> (\<And>x. preserves I (f x)) \<Longrightarrow> preserves I (andThen m f)"
  by (simp add: preserves_def andThen_def split: prod.splits sum.splits) (metis snd_conv)

lemma preserves_if [pres]:
  "(b \<Longrightarrow> preserves I m) \<Longrightarrow> (\<not> b \<Longrightarrow> preserves I n) \<Longrightarrow> preserves I (if b then m else n)"
  by simp

lemma preserves_case_option [pres]:
  "preserves I m \<Longrightarrow> (\<And>x. preserves I (f x)) \<Longrightarrow> preserves I (case z of None \<Rightarrow> m | Some x \<Rightarrow> f x)"
  by (cases z) simp_all

lemma preserves_case_sum [pres]:
  "(\<And>e. preserves I (g e)) \<Longrightarrow> (\<And>x. preserves I (f x)) \<Longrightarrow>
   preserves I (case z of Inl e \<Rightarrow> g e | Inr x \<Rightarrow> f x)"
  by (cases z) simp_all

lemma preserves_case_prod [pres]:
  "(\<And>a b. preserves I (f a b)) \<Longrightarrow> preserves I (case z of (a, b) \<Rightarrow> f a b)"
  by (cases z) simp

section \<open>Loops over lists\<close>

text \<open>\<open>for _, x := range xs { if err := f(x); err != nil { return err } }\<close>\<close>

fun forEach :: "'a list \<Rightarrow> ('a \<Rightarrow> ('s, 'e, unit) act) \<Rightarrow> ('s, 'e, unit) act" where
  "forEach [] f = ret ()"
| "forEach (x # xs) f = andThen (f x) (\<lambda>_. forEach xs f)"

lemma preserves_forEach [pres]:
  "(\<And>x. x \<in> set xs \<Longrightarrow> preserves I (f x)) \<Longrightarrow> preserves I (forEach xs f)"
  by (induction xs) (auto intro!: pres)

text \<open>\<open>for _, r := range rows { x, err := f(r); if err != nil { return nil, err }; out = append(out, x) }\<close>\<close>

fun mapE :: "('a \<Rightarrow> 'e + 'b) \<Rightarrow> 'a list \<Rightarrow> 'e + 'b list" where
  "mapE f [] = Inr []"
| "mapE f (x # xs) =
     (case f x of Inl e \<Rightarrow> Inl e
      | Inr y \<Rightarrow> (case mapE f xs of Inl e \<Rightarrow> Inl e | Inr ys \<Rightarrow> Inr (y # ys)))"

lemma mapE_ok: "(\<And>x. x \<in> set xs \<Longrightarrow> f x = Inr (g x)) \<Longrightarrow> mapE f xs = Inr (map g xs)"
  by (induction xs) auto

section \<open>Tables as row lists\<close>

definition count_rows :: "('a \<Rightarrow> bool) \<Rightarrow> 'a list \<Rightarrow> nat" where
  "count_rows p xs = length (filter p xs)"

definition update_rows :: "('a \<Rightarrow> bool) \<Rightarrow> ('a \<Rightarrow> 'a) \<Rightarrow> 'a list \<Rightarrow> 'a list" where
  "update_rows p f xs = map (\<lambda>x. if p x then f x else x) xs"

lemma set_update_rows: "set (update_rows p f xs) = {y. \<exists>x \<in> set xs. y = (if p x then f x else x)}"
  by (auto simp: update_rows_def)

lemma map_update_rows:
  "(\<And>x. x \<in> set xs \<Longrightarrow> p x \<Longrightarrow> g (f x) = g x) \<Longrightarrow> map g (update_rows p f xs) = map g xs"
  by (simp add: update_rows_def)

lemma update_rows_none: "count_rows p xs = 0 \<Longrightarrow> update_rows p f xs = xs"
  by (auto simp: count_rows_def update_rows_def filter_empty_conv intro: map_idI)

lemma find_Some_set: "find p xs = Some x \<Longrightarrow> x \<in> set xs \<and> p x"
  by (auto simp: find_Some_iff)

lemma find_distinct:
  assumes "distinct (map k xs)" and "x \<in> set xs"
  shows "find (\<lambda>y. k y = k x) xs = Some x"
  using assms by (induction xs) auto

lemma distinct_map_eq: "distinct (map k xs) \<Longrightarrow> x \<in> set xs \<Longrightarrow> y \<in> set xs \<Longrightarrow> k x = k y \<Longrightarrow> x = y"
  by (auto simp: distinct_map inj_on_def)

end
