(* ===== verification/Breaker.thy ===== *)
theory Breaker
  imports LynkPrelude
begin

text \<open>
  The circuit breaker, \<^verbatim>\<open>services/core/internal/platform/breaker/breaker.go\<close>: its
  configuration with defaults, its three states, admission (\<open>allow\<close>), the two outcomes
  (\<open>recordSuccess\<close>, \<open>recordFailure\<close>) and the call wrapper \<open>Do\<close>. Every method runs under the
  mutex, so concurrent callers are sequences of admissions and outcomes in any order; the step
  relation at the end says so. The injected clock \<open>now\<close> is an argument; times and durations
  are integers (nanoseconds).
\<close>

datatype bstate = StateClosed | StateOpen | StateHalfOpen

fun bstate_string :: "bstate \<Rightarrow> string" where
  "bstate_string StateOpen = ''open''"
| "bstate_string StateHalfOpen = ''half_open''"
| "bstate_string StateClosed = ''closed''"

record bconfig =
  failure_threshold :: int
  open_timeout :: int
  half_open_max :: int

record breaker =
  b_cfg :: bconfig
  b_state :: bstate
  b_failures :: int
  b_opened_at :: int
  b_probes :: int

datatype berror = ErrOpen

definition breaker_new :: "bconfig \<Rightarrow> breaker" where
  "breaker_new c =
     (let c1 = (if failure_threshold c \<le> 0 then c\<lparr>failure_threshold := 5\<rparr> else c);
          c2 = (if open_timeout c1 \<le> 0 then c1\<lparr>open_timeout := 30 * 1000000000\<rparr> else c1);
          c3 = (if half_open_max c2 \<le> 0 then c2\<lparr>half_open_max := 1\<rparr> else c2)
      in \<lparr>b_cfg = c3, b_state = StateClosed, b_failures = 0, b_opened_at = 0, b_probes = 0\<rparr>)"

definition breaker_refresh :: "int \<Rightarrow> breaker \<Rightarrow> breaker" where
  "breaker_refresh now b =
     (if b_state b = StateOpen \<and> now - b_opened_at b \<ge> open_timeout (b_cfg b)
      then b\<lparr>b_state := StateHalfOpen, b_probes := 0\<rparr> else b)"

definition breaker_open :: "int \<Rightarrow> breaker \<Rightarrow> breaker" where
  "breaker_open now b =
     b\<lparr>b_state := StateOpen, b_opened_at := now, b_failures := 0, b_probes := 0\<rparr>"

definition breaker_State :: "int \<Rightarrow> breaker \<Rightarrow> bstate \<times> breaker" where
  "breaker_State now b = (let b' = breaker_refresh now b in (b_state b', b'))"

definition breaker_allow :: "int \<Rightarrow> (breaker, berror, unit) act" where
  "breaker_allow now b0 =
     (let b = breaker_refresh now b0 in
      case b_state b of
        StateOpen \<Rightarrow> (Inl ErrOpen, b)
      | StateHalfOpen \<Rightarrow>
          (if b_probes b \<ge> half_open_max (b_cfg b) then (Inl ErrOpen, b)
           else (Inr (), b\<lparr>b_probes := b_probes b + 1\<rparr>))
      | StateClosed \<Rightarrow> (Inr (), b))"

definition recordSuccess :: "breaker \<Rightarrow> breaker" where
  "recordSuccess b =
     (let b' = (if b_state b = StateHalfOpen then b\<lparr>b_state := StateClosed\<rparr> else b)
      in b'\<lparr>b_failures := 0\<rparr>)"

definition recordFailure :: "int \<Rightarrow> breaker \<Rightarrow> breaker" where
  "recordFailure now b =
     (if b_state b = StateHalfOpen then breaker_open now b
      else let b' = b\<lparr>b_failures := b_failures b + 1\<rparr> in
           if b_failures b' \<ge> failure_threshold (b_cfg b') then breaker_open now b' else b')"

text \<open>
  What the wrapped function does: return nil, return an error (which may wrap
  \<open>context.Canceled\<close>), or panic. A panic unwinds through \<open>Do\<close>, which has no deferred call, so
  neither outcome is recorded.
\<close>

datatype call_outcome = CallOk | CallErr bool | CallPanic

definition breaker_finish :: "int \<Rightarrow> call_outcome \<Rightarrow> breaker \<Rightarrow> breaker" where
  "breaker_finish now r b =
     (case r of CallOk \<Rightarrow> recordSuccess b
      | CallErr cancelled \<Rightarrow> if \<not> cancelled then recordFailure now b else recordSuccess b
      | CallPanic \<Rightarrow> b)"

datatype do_result = Rejected | Returned call_outcome

definition breaker_Do :: "int \<Rightarrow> int \<Rightarrow> call_outcome \<Rightarrow> breaker \<Rightarrow> do_result \<times> breaker" where
  "breaker_Do now now' r b =
     (case breaker_allow now b of
        (Inl ErrOpen, b') \<Rightarrow> (Rejected, b')
      | (Inr _, b') \<Rightarrow> (Returned r, breaker_finish now' r b'))"

lemmas breaker_defs = breaker_refresh_def breaker_open_def breaker_allow_def recordSuccess_def
  recordFailure_def breaker_finish_def breaker_Do_def breaker_State_def

section \<open>The invariant\<close>

definition breaker_inv :: "breaker \<Rightarrow> bool" where
  "breaker_inv b \<longleftrightarrow>
     0 < failure_threshold (b_cfg b) \<and> 0 < open_timeout (b_cfg b) \<and> 0 < half_open_max (b_cfg b) \<and>
     0 \<le> b_failures b \<and> b_failures b < failure_threshold (b_cfg b) \<and>
     0 \<le> b_probes b \<and> b_probes b \<le> half_open_max (b_cfg b)"

lemma breaker_inv_new: "breaker_inv (breaker_new c)"
  by (auto simp: breaker_inv_def breaker_new_def Let_def)

lemma breaker_inv_refresh: "breaker_inv b \<Longrightarrow> breaker_inv (breaker_refresh now b)"
  by (auto simp: breaker_inv_def breaker_defs)

lemma breaker_inv_allow: "breaker_inv b \<Longrightarrow> breaker_inv (snd (breaker_allow now b))"
  by (auto simp: breaker_inv_def breaker_defs Let_def split: bstate.split)

lemma breaker_inv_finish: "breaker_inv b \<Longrightarrow> breaker_inv (breaker_finish now r b)"
  by (cases r) (auto simp: breaker_inv_def breaker_defs Let_def)

lemma breaker_inv_Do: "breaker_inv b \<Longrightarrow> breaker_inv (snd (breaker_Do now now' r b))"
  using breaker_inv_allow [of b now] breaker_inv_finish
  by (auto simp: breaker_Do_def split: prod.splits sum.splits berror.splits)

lemma cfg_unchanged:
  "b_cfg (breaker_refresh now b) = b_cfg b"
  "b_cfg (snd (breaker_allow now b)) = b_cfg b"
  "b_cfg (breaker_finish now r b) = b_cfg b"
  by (auto simp: breaker_defs Let_def split: bstate.split call_outcome.split)

section \<open>Interleaved callers\<close>

text \<open>
  Concurrent \<open>Do\<close> calls: an admission that is granted puts one call in flight, a finish ends one
  of the calls in flight, and nothing ties a finish to the state its call was admitted in. The
  second component counts the calls in flight, the third the calls admitted since the circuit
  last became half-open.
\<close>

datatype bevent = EvAdmit int | EvFinish int call_outcome

definition enters_half_open :: "int \<Rightarrow> breaker \<Rightarrow> bool" where
  "enters_half_open now b \<longleftrightarrow> b_state b \<noteq> StateHalfOpen \<and> b_state (breaker_refresh now b) = StateHalfOpen"

inductive bstep :: "breaker \<times> nat \<times> int \<Rightarrow> bevent \<Rightarrow> breaker \<times> nat \<times> int \<Rightarrow> bool" where
  admit: "breaker_allow now b = (Inr (), b') \<Longrightarrow>
     bstep (b, n, k) (EvAdmit now) (b', Suc n, (if enters_half_open now b then 0 else k) + 1)"
| reject: "breaker_allow now b = (Inl ErrOpen, b') \<Longrightarrow>
     bstep (b, n, k) (EvAdmit now) (b', n, if enters_half_open now b then 0 else k)"
| finish: "bstep (b, Suc n, k) (EvFinish now r) (breaker_finish now r b, n, k)"

inductive breach :: "bconfig \<Rightarrow> breaker \<times> nat \<times> int \<Rightarrow> bool" for c where
  start: "breach c (breaker_new c, 0, 0)"
| step: "breach c s \<Longrightarrow> bstep s e t \<Longrightarrow> breach c t"

inductive_cases bstep_admitE: "bstep s (EvAdmit now) t"
inductive_cases bstep_finishE: "bstep s (EvFinish now r) t"

definition probe_inv :: "bconfig \<Rightarrow> breaker \<times> nat \<times> int \<Rightarrow> bool" where
  "probe_inv c s \<longleftrightarrow> (case s of (b, n, k) \<Rightarrow>
     breaker_inv b \<and> b_cfg b = b_cfg (breaker_new c) \<and> (b_state b = StateHalfOpen \<longrightarrow> k = b_probes b))"

lemma bstep_probe_inv: "bstep s e t \<Longrightarrow> probe_inv c s \<Longrightarrow> probe_inv c t"
proof (induction rule: bstep.induct)
  case (admit now b b' n k)
  then have "breaker_inv b'" and "b_cfg b' = b_cfg b"
    using breaker_inv_allow [of b now] cfg_unchanged(2) [of now b] by (auto simp: probe_inv_def)
  with admit show ?case
    by (auto simp: probe_inv_def breaker_allow_def breaker_refresh_def enters_half_open_def Let_def
        split: bstate.splits if_splits)
next
  case (reject now b b' n k)
  then have "breaker_inv b'" and "b_cfg b' = b_cfg b"
    using breaker_inv_allow [of b now] cfg_unchanged(2) [of now b] by (auto simp: probe_inv_def)
  with reject show ?case
    by (auto simp: probe_inv_def breaker_allow_def breaker_refresh_def enters_half_open_def Let_def
        split: bstate.splits if_splits)
next
  case (finish b n k now r)
  then have "breaker_inv (breaker_finish now r b)"
    using breaker_inv_finish by (auto simp: probe_inv_def)
  moreover have "b_state (breaker_finish now r b) = StateHalfOpen \<Longrightarrow>
      b_state b = StateHalfOpen \<and> b_probes (breaker_finish now r b) = b_probes b"
    by (auto simp: breaker_defs Let_def split: call_outcome.splits if_splits)
  ultimately show ?case
    using finish by (auto simp: probe_inv_def cfg_unchanged)
qed

lemma breach_probe_inv: "breach c s \<Longrightarrow> probe_inv c s"
proof (induction rule: breach.induct)
  case start
  then show ?case by (simp add: probe_inv_def breaker_inv_new) (simp add: breaker_new_def Let_def)
next
  case (step s e t)
  then show ?case by (blast intro: bstep_probe_inv)
qed

section \<open>Properties\<close>

text \<open>
  C39. However admissions and outcomes of concurrent callers interleave, the circuit admits at
  most \<open>HalfOpenMax\<close> calls in each half-open period: the number admitted since the circuit
  became half-open is the probe counter, and that never passes the configured cap.
\<close>

theorem breaker_probes_bounded:
  assumes "breach c (b, n, k)" and "b_state b = StateHalfOpen"
  shows "k = b_probes b \<and> k \<le> half_open_max (b_cfg (breaker_new c))"
  using breach_probe_inv [OF assms(1)] assms(2)
  by (auto simp: probe_inv_def breaker_inv_def)

definition demo_cfg :: bconfig where
  "demo_cfg = \<lparr>failure_threshold = 1, open_timeout = 10, half_open_max = 1\<rparr>"

lemma breaker_probes_bounded_witness:
  "(1::int) \<le> half_open_max (b_cfg (breaker_new demo_cfg))"
proof -
  let ?b0 = "breaker_new demo_cfg"
  let ?b1 = "breaker_finish 5 (CallErr False) ?b0"
  let ?b2 = "snd (breaker_allow 15 ?b1)"
  have s1: "bstep (?b0, 0, 0) (EvAdmit 0) (?b0, Suc 0, 1)"
    using bstep.admit [of 0 ?b0 ?b0 0 0]
    by (simp add: breaker_defs breaker_new_def demo_cfg_def enters_half_open_def)
  have s2: "bstep (?b0, Suc 0, 1) (EvFinish 5 (CallErr False)) (?b1, 0, 1)"
    by (rule bstep.finish)
  have s3: "bstep (?b1, 0, 1) (EvAdmit 15) (?b2, Suc 0, 1)"
    using bstep.admit [of 15 ?b1 ?b2 0 1]
    by (simp add: breaker_defs breaker_new_def demo_cfg_def enters_half_open_def)
  have "breach demo_cfg (?b2, Suc 0, 1)"
    by (rule breach.step [OF breach.step [OF breach.step [OF breach.start s1] s2] s3])
  moreover have "b_state ?b2 = StateHalfOpen"
    by (simp add: breaker_defs breaker_new_def demo_cfg_def)
  ultimately show ?thesis
    using breaker_probes_bounded [of demo_cfg ?b2 "Suc 0" 1] by simp
qed

text \<open>
  While the circuit is open and its timeout has not elapsed, \<open>Do\<close> fails fast: it
  rejects without calling the dependency and without changing the breaker, whatever the
  call would have done.
\<close>

theorem breaker_fail_fast:
  assumes "b_state b = StateOpen" and "now - b_opened_at b < open_timeout (b_cfg b)"
  shows "breaker_Do now now' r b = (Rejected, b)"
  using assms by (simp add: breaker_defs)

lemma breaker_fail_fast_witness:
  "breaker_Do 9 9 CallOk (breaker_open 0 (breaker_new demo_cfg)) =
     (Rejected, breaker_open 0 (breaker_new demo_cfg))"
  by (rule breaker_fail_fast) (simp_all add: breaker_open_def breaker_new_def demo_cfg_def)

fun failing_calls :: "(int \<times> int) list \<Rightarrow> breaker \<Rightarrow> breaker" where
  "failing_calls [] b = b"
| "failing_calls ((now, now') # ts) b = failing_calls ts (snd (breaker_Do now now' (CallErr False) b))"

lemma failing_call_closed:
  assumes "b_state b = StateClosed" and "b_failures b + 1 < failure_threshold (b_cfg b)"
  shows "snd (breaker_Do now now' (CallErr False) b) = b\<lparr>b_failures := b_failures b + 1\<rparr>"
  using assms by (simp add: breaker_defs Let_def)

lemma failing_calls_closed:
  assumes "b_state b = StateClosed" and "b_failures b + int (length ts) < failure_threshold (b_cfg b)"
  shows "failing_calls ts b = b\<lparr>b_failures := b_failures b + int (length ts)\<rparr>"
  using assms
proof (induction ts arbitrary: b)
  case (Cons t ts)
  obtain now now' where t: "t = (now, now')" by (cases t)
  have "snd (breaker_Do now now' (CallErr False) b) = b\<lparr>b_failures := b_failures b + 1\<rparr>"
    using Cons.prems by (intro failing_call_closed) auto
  with Cons show ?case by (simp add: t add.commute)
qed simp

text \<open>
  The consecutive-failure threshold is exact. From a closed circuit with no failures
  counted, fewer than \<open>FailureThreshold\<close> failing calls leave it closed, and the call that
  makes the run \<open>FailureThreshold\<close> long opens it, stamped with the time that failure was
  recorded; one successful call in between starts the count afresh.
\<close>

theorem breaker_threshold_exact:
  assumes "b_state b = StateClosed" and "b_failures b = 0"
    and "int (length ts) < failure_threshold (b_cfg b)"
  shows "b_state (failing_calls ts b) = StateClosed \<and>
    breaker_Do now now' CallOk (failing_calls ts b) = (Returned CallOk, b) \<and>
    snd (breaker_Do now now' (CallErr False) (failing_calls ts b)) =
      (if int (length ts) + 1 = failure_threshold (b_cfg b) then breaker_open now' b
       else b\<lparr>b_failures := int (length ts) + 1\<rparr>)"
  using assms failing_calls_closed [of b ts]
  by (auto simp: breaker_defs Let_def)

lemma breaker_threshold_exact_witness:
  "snd (breaker_Do 2 2 (CallErr False) (failing_calls [(0,0), (1,1)]
      (breaker_new \<lparr>failure_threshold = 3, open_timeout = 10, half_open_max = 1\<rparr>))) =
   breaker_open 2 (breaker_new \<lparr>failure_threshold = 3, open_timeout = 10, half_open_max = 1\<rparr>)"
proof -
  let ?b = "breaker_new \<lparr>failure_threshold = 3, open_timeout = 10, half_open_max = 1\<rparr>"
  have "b_state ?b = StateClosed" "b_failures ?b = 0"
    "int (length [(0::int, 0::int), (1, 1)]) < failure_threshold (b_cfg ?b)"
    by (simp_all add: breaker_new_def)
  from breaker_threshold_exact [OF this, of 2 2] show ?thesis by (simp add: breaker_new_def)
qed

text \<open>
  A probe whose call panics is never given back: \<open>Do\<close> has no deferred bookkeeping, so
  with the default single probe the circuit is left half-open with its only probe spent, and
  from then on every call at any time is rejected and nothing changes. The breaker cannot
  recover from a panicking probe.
\<close>

theorem breaker_panic_probe_sticks:
  assumes "b_state b = StateOpen" and "now - b_opened_at b \<ge> open_timeout (b_cfg b)"
    and "half_open_max (b_cfg b) = 1"
  shows "fst (breaker_Do now now' CallPanic b) = Returned CallPanic \<and>
    breaker_Do t t' r (snd (breaker_Do now now' CallPanic b)) =
      (Rejected, snd (breaker_Do now now' CallPanic b))"
  using assms by (simp add: breaker_defs Let_def)

lemma breaker_panic_probe_sticks_witness:
  "breaker_Do 1000000 1000000 CallOk
      (snd (breaker_Do 20 21 CallPanic (breaker_open 0 (breaker_new demo_cfg)))) =
    (Rejected, snd (breaker_Do 20 21 CallPanic (breaker_open 0 (breaker_new demo_cfg))))"
proof -
  let ?b = "breaker_open 0 (breaker_new demo_cfg)"
  have "b_state ?b = StateOpen" "20 - b_opened_at ?b \<ge> open_timeout (b_cfg ?b)"
    "half_open_max (b_cfg ?b) = 1"
    by (simp_all add: breaker_open_def breaker_new_def demo_cfg_def)
  from breaker_panic_probe_sticks [OF this, of 21 1000000 1000000 CallOk] show ?thesis by simp
qed

text \<open>
  A cancelled probe closes the circuit. The comment on \<open>Do\<close> says caller cancellation tells
  nothing about downstream health, but \<open>Do\<close> records it as a success, so one caller that
  cancels its half-open probe resets the breaker to closed with no evidence of recovery.
\<close>

theorem breaker_cancelled_probe_closes:
  assumes "b_state b = StateOpen" and "now - b_opened_at b \<ge> open_timeout (b_cfg b)"
    and "half_open_max (b_cfg b) \<ge> 1"
  shows "fst (breaker_Do now now' (CallErr True) b) = Returned (CallErr True) \<and>
    b_state (snd (breaker_Do now now' (CallErr True) b)) = StateClosed"
  using assms by (simp add: breaker_defs Let_def)

lemma breaker_cancelled_probe_closes_witness:
  "b_state (snd (breaker_Do 20 21 (CallErr True) (breaker_open 0 (breaker_new demo_cfg)))) = StateClosed"
proof -
  let ?b = "breaker_open 0 (breaker_new demo_cfg)"
  have "b_state ?b = StateOpen" "20 - b_opened_at ?b \<ge> open_timeout (b_cfg ?b)"
    "half_open_max (b_cfg ?b) \<ge> 1"
    by (simp_all add: breaker_open_def breaker_new_def demo_cfg_def)
  from breaker_cancelled_probe_closes [OF this, of 21] show ?thesis by simp
qed

end
