(* ===== verification/GoStrings.thy ===== *)
theory GoStrings
  imports LynkPrelude
begin

text \<open>
  What the services use of Go's \<^verbatim>\<open>strings\<close>, \<^verbatim>\<open>unicode/utf8\<close>, \<^verbatim>\<open>strconv\<close> and
  \<^verbatim>\<open>encoding/hex\<close>. A Go string is a sequence of bytes, here a \<open>string\<close> whose characters are
  bytes; runes are decoded from it as \<^verbatim>\<open>utf8.DecodeRuneInString\<close> does, an invalid byte being
  the replacement rune of width one. These are the standard library's operations, so nothing
  of this theory has an entry in the map of the sources.
\<close>

unbundle bit_operations_syntax

type_synonym byte = "8 word"

definition byte_of :: "char \<Rightarrow> nat" where
  "byte_of c = of_char c"

section \<open>Prefixes and separators\<close>

fun has_prefix :: "string \<Rightarrow> string \<Rightarrow> bool" where
  "has_prefix s [] = True"
| "has_prefix [] (p # ps) = False"
| "has_prefix (c # s) (p # ps) = (c = p \<and> has_prefix s ps)"

definition has_suffix :: "string \<Rightarrow> string \<Rightarrow> bool" where
  "has_suffix s p = has_prefix (rev s) (rev p)"

definition trim_prefix :: "string \<Rightarrow> string \<Rightarrow> string" where
  "trim_prefix s p = (if has_prefix s p then drop (length p) s else s)"

text \<open>\<open>strings.CutPrefix\<close>\<close>

definition cut_prefix :: "string \<Rightarrow> string \<Rightarrow> string option" where
  "cut_prefix s p = (if has_prefix s p then Some (drop (length p) s) else None)"

text \<open>\<open>strings.Cut\<close> at a one-byte separator: the parts around its first occurrence.\<close>

fun cut :: "char \<Rightarrow> string \<Rightarrow> (string \<times> string) option" where
  "cut d [] = None"
| "cut d (c # s) =
     (if c = d then Some ([], s)
      else (case cut d s of None \<Rightarrow> None | Some (a, b) \<Rightarrow> Some (c # a, b)))"

text \<open>\<open>strings.Split\<close> at a one-byte separator.\<close>

fun split :: "char \<Rightarrow> string \<Rightarrow> string list" where
  "split d [] = [[]]"
| "split d (c # s) =
     (if c = d then [] # split d s
      else (case split d s of [] \<Rightarrow> [[c]] | t # ts \<Rightarrow> (c # t) # ts))"

fun join :: "string \<Rightarrow> string list \<Rightarrow> string" where
  "join d [] = []"
| "join d [s] = s"
| "join d (s # t # ts) = s @ d @ join d (t # ts)"

lemma has_prefix_iff: "has_prefix s p \<longleftrightarrow> (\<exists>t. s = p @ t)"
  by (induction s p rule: has_prefix.induct) auto

lemma has_prefix_append [simp]: "has_prefix (p @ t) p"
  by (auto simp: has_prefix_iff)

lemma has_suffix_iff: "has_suffix s p \<longleftrightarrow> (\<exists>t. s = t @ p)"
  by (auto simp: has_suffix_def has_prefix_iff rev_eq_append_conv) (metis rev_append rev_rev_ident)

lemma cut_Some: "cut d s = Some (a, b) \<Longrightarrow> s = a @ d # b \<and> d \<notin> set a"
  by (induction d s arbitrary: a rule: cut.induct) (auto split: if_splits option.splits)

lemma cut_append: "d \<notin> set a \<Longrightarrow> cut d (a @ d # b) = Some (a, b)"
  by (induction a) auto

lemma cut_None: "cut d s = None \<longleftrightarrow> d \<notin> set s"
  by (induction d s rule: cut.induct) (auto split: option.splits)

section \<open>Runes\<close>

definition RuneError :: nat where "RuneError = 65533"

definition contb :: "char \<Rightarrow> bool" where
  "contb c \<longleftrightarrow> 128 \<le> byte_of c \<and> byte_of c \<le> 191"

fun rune2 :: "nat \<Rightarrow> string \<Rightarrow> nat \<times> nat" where
  "rune2 b0 (c1 # s) =
     (if contb c1 then ((b0 mod 32) * 64 + byte_of c1 mod 64, 2) else (RuneError, 1))"
| "rune2 b0 s = (RuneError, 1)"

fun rune3 :: "nat \<Rightarrow> string \<Rightarrow> nat \<times> nat" where
  "rune3 b0 (c1 # c2 # s) =
     (if contb c1 \<and> contb c2 \<and> (b0 = 224 \<longrightarrow> 160 \<le> byte_of c1) \<and> (b0 = 237 \<longrightarrow> byte_of c1 \<le> 159)
      then ((b0 mod 16) * 4096 + (byte_of c1 mod 64) * 64 + byte_of c2 mod 64, 3)
      else (RuneError, 1))"
| "rune3 b0 s = (RuneError, 1)"

fun rune4 :: "nat \<Rightarrow> string \<Rightarrow> nat \<times> nat" where
  "rune4 b0 (c1 # c2 # c3 # s) =
     (if contb c1 \<and> contb c2 \<and> contb c3 \<and>
         (b0 = 240 \<longrightarrow> 144 \<le> byte_of c1) \<and> (b0 = 244 \<longrightarrow> byte_of c1 \<le> 143)
      then ((b0 mod 8) * 262144 + (byte_of c1 mod 64) * 4096 + (byte_of c2 mod 64) * 64
              + byte_of c3 mod 64, 4)
      else (RuneError, 1))"
| "rune4 b0 s = (RuneError, 1)"

fun decode_rune :: "string \<Rightarrow> nat \<times> nat" where
  "decode_rune [] = (RuneError, 0)"
| "decode_rune (c0 # s) =
     (let b0 = byte_of c0 in
      if b0 < 128 then (b0, 1)
      else if 194 \<le> b0 \<and> b0 \<le> 223 then rune2 b0 s
      else if 224 \<le> b0 \<and> b0 \<le> 239 then rune3 b0 s
      else if 240 \<le> b0 \<and> b0 \<le> 244 then rune4 b0 s
      else (RuneError, 1))"

declare decode_rune.simps(2) [simp del]

lemma rune_sizes:
  "1 \<le> snd (rune2 b s) \<and> snd (rune2 b s) \<le> Suc (length s) \<and> snd (rune2 b s) \<le> 4"
  "1 \<le> snd (rune3 b s) \<and> snd (rune3 b s) \<le> Suc (length s) \<and> snd (rune3 b s) \<le> 4"
  "1 \<le> snd (rune4 b s) \<and> snd (rune4 b s) \<le> Suc (length s) \<and> snd (rune4 b s) \<le> 4"
  by ((cases "(b, s)" rule: rune2.cases; simp), (cases "(b, s)" rule: rune3.cases; simp),
      (cases "(b, s)" rule: rune4.cases; simp))

lemma decode_rune_size:
  assumes "s \<noteq> []"
  shows "1 \<le> snd (decode_rune s) \<and> snd (decode_rune s) \<le> length s \<and> snd (decode_rune s) \<le> 4"
proof -
  obtain c t where "s = c # t" using assms by (cases s) auto
  then show ?thesis
    using rune_sizes [of "byte_of c" t] by (simp add: decode_rune.simps(2) Let_def)
qed

text \<open>A rune that decodes properly at the start of a prefix decodes the same in the whole.\<close>

lemma rune_prefixes:
  "fst (rune2 b s) \<noteq> RuneError \<Longrightarrow> rune2 b (s @ t) = rune2 b s"
  "fst (rune3 b s) \<noteq> RuneError \<Longrightarrow> rune3 b (s @ t) = rune3 b s"
  "fst (rune4 b s) \<noteq> RuneError \<Longrightarrow> rune4 b (s @ t) = rune4 b s"
  by ((cases "(b, s)" rule: rune2.cases; simp), (cases "(b, s)" rule: rune3.cases; simp),
      (cases "(b, s)" rule: rune4.cases; simp))

lemma decode_rune_prefix:
  assumes "fst (decode_rune s) \<noteq> RuneError"
  shows "decode_rune (s @ t) = decode_rune s"
proof -
  obtain c u where "s = c # u" using assms by (cases s) auto
  then show ?thesis
    using assms by (simp add: decode_rune.simps(2) Let_def rune_prefixes split: if_splits)
qed

fun rune_count :: "string \<Rightarrow> nat" where
  "rune_count [] = 0"
| "rune_count (c # s) = Suc (rune_count (drop (snd (decode_rune (c # s)) - 1) s))"

text \<open>
  \<open>utf8.DecodeLastRuneInString\<close>: step back at most four bytes to a byte that can start a
  rune, decode there, and accept only a rune that ends exactly at the end.
\<close>

definition rune_start :: "char \<Rightarrow> bool" where
  "rune_start c \<longleftrightarrow> \<not> contb c"

fun back_up :: "nat \<Rightarrow> string \<Rightarrow> nat" where
  "back_up 0 rs = 0"
| "back_up (Suc n) [] = 0"
| "back_up (Suc n) (c # rs) = (if rune_start c then 1 else (case back_up n rs of 0 \<Rightarrow> 0 | Suc k \<Rightarrow> Suc (Suc k)))"

definition decode_last_rune :: "string \<Rightarrow> nat \<times> nat" where
  "decode_last_rune s =
     (if s = [] then (RuneError, 0)
      else if byte_of (last s) < 128 then (byte_of (last s), 1)
      else
        let k = (case back_up 4 (rev s) of 0 \<Rightarrow> min 4 (length s) | Suc n \<Rightarrow> Suc n);
            rn = decode_rune (drop (length s - k) s)
        in if snd rn = k then rn else (RuneError, 1))"

lemma decode_last_rune_size:
  "s \<noteq> [] \<Longrightarrow> 1 \<le> snd (decode_last_rune s)"
  by (cases "back_up 4 (rev s)") (auto simp: decode_last_rune_def Let_def Suc_le_eq)

definition is_space :: "nat \<Rightarrow> bool" where
  "is_space r \<longleftrightarrow> r \<in> {9, 10, 11, 12, 13, 32, 133, 160, 5760, 8232, 8233, 8239, 8287, 12288}
     \<or> (8192 \<le> r \<and> r \<le> 8202)"

lemma is_space_RuneError [simp]: "\<not> is_space RuneError"
  by (simp add: is_space_def RuneError_def)

function trim_left :: "string \<Rightarrow> string" where
  "trim_left s =
     (if s \<noteq> [] \<and> is_space (fst (decode_rune s)) then trim_left (drop (snd (decode_rune s)) s) else s)"
  by pat_completeness auto
termination
  by (relation "measure length") (use decode_rune_size in \<open>fastforce simp: Suc_le_eq\<close>)+

function trim_right :: "string \<Rightarrow> string" where
  "trim_right s =
     (if s \<noteq> [] \<and> is_space (fst (decode_last_rune s))
      then trim_right (take (length s - snd (decode_last_rune s)) s) else s)"
  by pat_completeness auto
termination
  by (relation "measure length") (use decode_last_rune_size in \<open>fastforce simp: Suc_le_eq\<close>)+

declare trim_left.simps [simp del] trim_right.simps [simp del]

text \<open>\<open>strings.TrimSpace\<close>\<close>

definition trim_space :: "string \<Rightarrow> string" where
  "trim_space s = trim_right (trim_left s)"

lemma trim_left_stop: "\<not> is_space (fst (decode_rune s)) \<Longrightarrow> trim_left s = s"
  by (subst trim_left.simps) simp

lemma trim_left_result: "trim_left s = [] \<or> \<not> is_space (fst (decode_rune (trim_left s)))"
proof (induction s rule: trim_left.induct)
  case (1 s)
  then show ?case by (cases "s \<noteq> [] \<and> is_space (fst (decode_rune s))") (auto simp: trim_left.simps [of s])
qed

lemma trim_right_result: "trim_right s = [] \<or> \<not> is_space (fst (decode_last_rune (trim_right s)))"
proof (induction s rule: trim_right.induct)
  case (1 s)
  then show ?case by (cases "s \<noteq> [] \<and> is_space (fst (decode_last_rune s))") (auto simp: trim_right.simps [of s])
qed

lemma trim_right_stop: "s = [] \<or> \<not> is_space (fst (decode_last_rune s)) \<Longrightarrow> trim_right s = s"
  by (subst trim_right.simps) auto

lemma trim_right_prefix: "\<exists>t. s = trim_right s @ t"
proof (induction s rule: trim_right.induct)
  case (1 s)
  show ?case
  proof (cases "s \<noteq> [] \<and> is_space (fst (decode_last_rune s))")
    case True
    let ?p = "take (length s - snd (decode_last_rune s)) s"
    from 1 True obtain t where "?p = trim_right ?p @ t" by auto
    then have "s = trim_right ?p @ t @ drop (length s - snd (decode_last_rune s)) s"
      by (metis append.assoc append_take_drop_id)
    then have "\<exists>t. s = trim_right ?p @ t" by blast
    moreover have "trim_right s = trim_right ?p" using True by (simp add: trim_right.simps [of s])
    ultimately show ?thesis by simp
  qed (auto simp: trim_right.simps [of s])
qed

lemma trim_right_keeps_start:
  assumes "s = [] \<or> \<not> is_space (fst (decode_rune s))"
  shows "trim_right s = [] \<or> \<not> is_space (fst (decode_rune (trim_right s)))"
proof -
  obtain t where t: "s = trim_right s @ t" using trim_right_prefix by blast
  show ?thesis
  proof (rule ccontr)
    assume "\<not> ?thesis"
    then have ne: "trim_right s \<noteq> []" and sp: "is_space (fst (decode_rune (trim_right s)))" by auto
    from sp have "fst (decode_rune (trim_right s)) \<noteq> RuneError" by (metis is_space_RuneError)
    then have "decode_rune s = decode_rune (trim_right s)" using t decode_rune_prefix by metis
    with assms ne sp t show False by (metis append_is_Nil_conv)
  qed
qed

lemma trim_space_idem: "trim_space (trim_space s) = trim_space s"
proof -
  have "trim_space s = [] \<or> \<not> is_space (fst (decode_rune (trim_space s)))"
    unfolding trim_space_def by (rule trim_right_keeps_start) (rule trim_left_result)
  then have "trim_left (trim_space s) = trim_space s"
    by (auto intro: trim_left_stop)
  then show ?thesis
    using trim_right_stop [OF trim_right_result] by (simp add: trim_space_def)
qed

lemma trim_space_Nil [simp]: "trim_space [] = []"
  by (simp add: trim_space_def trim_left.simps trim_right.simps)

section \<open>Numbers and bytes as text\<close>

definition dec_digit :: "nat \<Rightarrow> char" where
  "dec_digit n = char_of (48 + n mod 10)"

function nat_dec :: "nat \<Rightarrow> string" where
  "nat_dec n = (if n < 10 then [dec_digit n] else nat_dec (n div 10) @ [dec_digit (n mod 10)])"
  by pat_completeness auto
termination
  by (relation "measure id") auto

declare nat_dec.simps [simp del]

definition int_dec :: "int \<Rightarrow> string" where
  "int_dec i = (if i < 0 then CHR ''-'' # nat_dec (nat (- i)) else nat_dec (nat i))"

definition dec_val :: "string \<Rightarrow> nat" where
  "dec_val s = foldl (\<lambda>v c. v * 10 + (byte_of c - 48)) 0 s"

lemma byte_of_dec_digit: "byte_of (dec_digit n) = 48 + n mod 10"
  by (simp add: byte_of_def dec_digit_def)

lemma dec_val_nat_dec: "dec_val (nat_dec n) = n"
proof (induction n rule: nat_dec.induct)
  case (1 n)
  show ?case
  proof (cases "n < 10")
    case True
    then show ?thesis by (simp add: nat_dec.simps dec_val_def byte_of_dec_digit)
  next
    case False
    with 1 have "dec_val (nat_dec (n div 10)) = n div 10" by simp
    with False show ?thesis
      by (subst nat_dec.simps) (simp add: dec_val_def byte_of_dec_digit)
  qed
qed

lemma nat_dec_inj: "nat_dec m = nat_dec n \<longleftrightarrow> m = n"
  by (metis dec_val_nat_dec)

lemma nat_dec_chars: "c \<in> set (nat_dec n) \<Longrightarrow> 48 \<le> byte_of c \<and> byte_of c \<le> 57"
proof (induction n rule: nat_dec.induct)
  case (1 n)
  then show ?case
    by (cases "n < 10") (auto simp: nat_dec.simps [of n] byte_of_dec_digit)
qed

lemma int_dec_inj: "int_dec i = int_dec j \<longleftrightarrow> i = j"
proof -
  have "nat_dec m \<noteq> CHR ''-'' # s" for m s
    using nat_dec_chars [of "CHR ''-''" m] by (auto simp: byte_of_def)
  then show ?thesis
    by (auto simp: int_dec_def nat_dec_inj) (metis list.distinct(1))+
qed

definition hex_digit :: "nat \<Rightarrow> char" where
  "hex_digit n = ''0123456789abcdef'' ! n"

definition hex_byte :: "byte \<Rightarrow> string" where
  "hex_byte b = [hex_digit (unat b div 16), hex_digit (unat b mod 16)]"

definition hex_encode :: "byte list \<Rightarrow> string" where
  "hex_encode bs = concat (map hex_byte bs)"

lemma length_hex_encode [simp]: "length (hex_encode bs) = 2 * length bs"
  by (induction bs) (auto simp: hex_encode_def hex_byte_def)

lemma hex_encode_Nil [simp]: "hex_encode [] = []"
  by (simp add: hex_encode_def)

lemma hex_encode_Cons: "hex_encode (b # bs) = hex_byte b @ hex_encode bs"
  by (simp add: hex_encode_def)

lemma all_less_16: "(\<forall>n < 16. P (n::nat)) \<longleftrightarrow>
    P 0 \<and> P 1 \<and> P 2 \<and> P 3 \<and> P 4 \<and> P 5 \<and> P 6 \<and> P 7 \<and>
    P 8 \<and> P 9 \<and> P 10 \<and> P 11 \<and> P 12 \<and> P 13 \<and> P 14 \<and> P 15"
  by (simp add: numeral_eq_Suc All_less_Suc) blast

lemma hex_digit_mono: "m < 16 \<Longrightarrow> n < 16 \<Longrightarrow> byte_of (hex_digit m) < byte_of (hex_digit n) \<longleftrightarrow> m < n"
proof -
  have "\<forall>m < 16. \<forall>n < 16. byte_of (hex_digit m) < byte_of (hex_digit n) \<longleftrightarrow> m < n"
    unfolding all_less_16 by (simp add: hex_digit_def byte_of_def)
  then show "m < 16 \<Longrightarrow> n < 16 \<Longrightarrow> ?thesis" by blast
qed

lemma hex_digit_inj: "m < 16 \<Longrightarrow> n < 16 \<Longrightarrow> hex_digit m = hex_digit n \<longleftrightarrow> m = n"
  by (metis hex_digit_mono less_irrefl nat_neq_iff)

lemma unat_byte_lt: "unat (b :: byte) < 256"
  using unsigned_less [of b] by simp

lemma hex_byte_inj: "hex_byte a = hex_byte b \<longleftrightarrow> a = b"
proof
  assume "hex_byte a = hex_byte b"
  then have "unat a div 16 = unat b div 16" and "unat a mod 16 = unat b mod 16"
    using unat_byte_lt [of a] unat_byte_lt [of b] by (auto simp: hex_byte_def hex_digit_inj)
  then have "unat a = unat b" by (metis div_mult_mod_eq)
  then show "a = b" by (simp add: word_unat_eq_iff)
qed simp

lemma hex_encode_inj: "hex_encode as = hex_encode bs \<longleftrightarrow> as = bs"
proof (induction as arbitrary: bs)
  case Nil
  then show ?case by (cases bs) (auto simp: hex_encode_Cons hex_byte_def)
next
  case (Cons a as)
  show ?case
  proof (cases bs)
    case (Cons b bs')
    have "length (hex_byte a) = length (hex_byte b)" by (simp add: hex_byte_def)
    then show ?thesis
      using Cons Cons.IH by (simp add: hex_encode_Cons hex_byte_inj append_eq_append_conv)
  qed (simp add: hex_encode_Cons hex_byte_def)
qed

section \<open>Case mapping\<close>

text \<open>
  \<open>strings.ToLower\<close> maps the ASCII letters of an all-ASCII string byte by byte; on any other
  string it applies Unicode's case tables, which are the argument \<open>ulower\<close>.
\<close>

definition ascii_lower :: "char \<Rightarrow> char" where
  "ascii_lower c = (if 65 \<le> byte_of c \<and> byte_of c \<le> 90 then char_of (byte_of c + 32) else c)"

definition is_ascii :: "string \<Rightarrow> bool" where
  "is_ascii s \<longleftrightarrow> (\<forall>c \<in> set s. byte_of c < 128)"

definition to_lower :: "(string \<Rightarrow> string) \<Rightarrow> string \<Rightarrow> string" where
  "to_lower ulower s = (if is_ascii s then map ascii_lower s else ulower s)"

end
