(* ===== verification/Secure.thy ===== *)
theory Secure
  imports GoStrings
begin

text \<open>
  The package \<^verbatim>\<open>platform/secure\<close> (\<^verbatim>\<open>secure.go\<close>, \<^verbatim>\<open>hash.go\<close>, \<^verbatim>\<open>uuid.go\<close>,
  \<^verbatim>\<open>password.go\<close>), which both services carry a copy of. Random bytes are the result of one
  \<^verbatim>\<open>crypto/rand\<close> call: \<open>None\<close> when the source fails. SHA-256 is an argument, as are
  \<open>argon2.IDKey\<close> and \<open>bcrypt.CompareHashAndPassword\<close> of \<^verbatim>\<open>golang.org/x/crypto\<close>; base64
  and \<open>fmt.Sscanf\<close> are modelled.
\<close>

section \<open>Base64 without padding\<close>

definition b64_std :: string where
  "b64_std = ''ABCDEFGHIJKLMNOPQRSTUVWXYZabcdefghijklmnopqrstuvwxyz0123456789+/''"

definition b64_url :: string where
  "b64_url = ''ABCDEFGHIJKLMNOPQRSTUVWXYZabcdefghijklmnopqrstuvwxyz0123456789-_''"

fun b64_sextets :: "nat list \<Rightarrow> nat list" where
  "b64_sextets [] = []"
| "b64_sextets [a] = [a div 4, (a mod 4) * 16]"
| "b64_sextets [a, b] = [a div 4, (a mod 4) * 16 + b div 16, (b mod 16) * 4]"
| "b64_sextets (a # b # c # bs) =
     a div 4 # ((a mod 4) * 16 + b div 16) # ((b mod 16) * 4 + c div 64) # (c mod 64) # b64_sextets bs"

fun b64_octets :: "nat list \<Rightarrow> nat list option" where
  "b64_octets [] = Some []"
| "b64_octets [p] = None"
| "b64_octets [p, q] = Some [p * 4 + q div 16]"
| "b64_octets [p, q, r] = Some [p * 4 + q div 16, (q mod 16) * 16 + r div 4]"
| "b64_octets (p # q # r # t # ss) =
     map_option (\<lambda>os. (p * 4 + q div 16) # ((q mod 16) * 16 + r div 4) # ((r mod 4) * 64 + t) # os)
       (b64_octets ss)"

fun index_of :: "'a list \<Rightarrow> 'a \<Rightarrow> nat option" where
  "index_of [] c = None"
| "index_of (x # xs) c = (if x = c then Some 0 else map_option Suc (index_of xs c))"

definition b64_encode :: "string \<Rightarrow> byte list \<Rightarrow> string" where
  "b64_encode alphabet bs = map (\<lambda>n. alphabet ! n) (b64_sextets (map unat bs))"

text \<open>Go's decoder skips carriage returns and newlines and refuses any other foreign byte.\<close>

definition b64_decode :: "string \<Rightarrow> string \<Rightarrow> byte list option" where
  "b64_decode alphabet s =
     (case those (map (index_of alphabet) (filter (\<lambda>c. byte_of c \<noteq> 10 \<and> byte_of c \<noteq> 13) s)) of
        None \<Rightarrow> None | Some ns \<Rightarrow> map_option (map of_nat) (b64_octets ns))"

lemma index_of_nth: "distinct xs \<Longrightarrow> n < length xs \<Longrightarrow> index_of xs (xs ! n) = Some n"
  by (induction xs arbitrary: n) (auto simp: nth_Cons split: nat.splits)

lemma b64_sextets_bound:
  "(\<And>x. x \<in> set bs \<Longrightarrow> x < 256) \<Longrightarrow> n \<in> set (b64_sextets bs) \<Longrightarrow> n < 64"
proof (induction bs rule: b64_sextets.induct)
  case (2 a)
  then have "a < 256" by simp
  with 2(2) show ?case by auto
next
  case (3 a b)
  then have "a < 256" "b < 256" by auto
  with 3(2) show ?case by auto
next
  case (4 a b c bs)
  then have "a < 256" "b < 256" "c < 256" by auto
  moreover have "n \<in> set (b64_sextets bs) \<Longrightarrow> n < 64" using 4 by auto
  ultimately show ?case using 4(3) by auto
qed simp

lemma b64_octets_sextets:
  "(\<And>x. x \<in> set bs \<Longrightarrow> x < 256) \<Longrightarrow> b64_octets (b64_sextets bs) = Some bs"
proof (induction bs rule: b64_sextets.induct)
  case (2 a)
  then have "a < 256" by simp
  then show ?case by simp
next
  case (3 a b)
  then have "a < 256" "b < 256" by auto
  then show ?case by simp
next
  case (4 a b c bs)
  then have "a < 256" "b < 256" "c < 256" by auto
  then have "(a div 4) * 4 + ((a mod 4) * 16 + b div 16) div 16 = a"
    and "(((a mod 4) * 16 + b div 16) mod 16) * 16 + ((b mod 16) * 4 + c div 64) div 4 = b"
    and "(((b mod 16) * 4 + c div 64) mod 4) * 64 + c mod 64 = c"
    by simp_all
  moreover have "b64_octets (b64_sextets bs) = Some bs" using 4 by simp
  ultimately show ?case by (simp del: div_mult_self4 mod_mult_self4)
qed simp

lemma those_map_Some: "(\<And>x. x \<in> set xs \<Longrightarrow> f x = Some (g x)) \<Longrightarrow> those (map f xs) = Some (map g xs)"
  by (induction xs) auto

lemma b64_roundtrip:
  assumes d: "distinct alphabet" and l: "length alphabet = 64"
    and nl: "\<And>c. c \<in> set alphabet \<Longrightarrow> byte_of c \<noteq> 10 \<and> byte_of c \<noteq> 13"
  shows "b64_decode alphabet (b64_encode alphabet bs) = Some bs"
proof -
  let ?ns = "b64_sextets (map unat bs)"
  have b: "n < 64" if "n \<in> set ?ns" for n
    by (rule b64_sextets_bound [OF _ that]) (auto simp: unat_byte_lt)
  have "filter (\<lambda>c. byte_of c \<noteq> 10 \<and> byte_of c \<noteq> 13) (b64_encode alphabet bs) = b64_encode alphabet bs"
    using nl b l by (auto simp: b64_encode_def filter_id_conv)
  moreover have "those (map (index_of alphabet) (b64_encode alphabet bs)) = Some ?ns"
    using those_map_Some [of ?ns "index_of alphabet \<circ> (!) alphabet" id] b d l
    by (simp add: b64_encode_def index_of_nth)
  moreover have "b64_octets ?ns = Some (map unat bs)"
    by (rule b64_octets_sextets) (auto simp: unat_byte_lt)
  ultimately show ?thesis by (simp add: b64_decode_def comp_def)
qed

lemma b64_std_ok: "distinct b64_std" "length b64_std = 64"
  "c \<in> set b64_std \<Longrightarrow> byte_of c \<noteq> 10 \<and> byte_of c \<noteq> 13 \<and> c \<noteq> CHR ''$''"
  by (auto simp: b64_std_def byte_of_def)

lemma b64_encode_chars: "length alphabet = 64 \<Longrightarrow> c \<in> set (b64_encode alphabet bs) \<Longrightarrow> c \<in> set alphabet"
  using b64_sextets_bound [of "map unat bs"] by (fastforce simp: b64_encode_def unat_byte_lt)

section \<open>Tokens and codes\<close>

datatype secure_error = ErrRandom | ErrDigits

definition sec_Token :: "byte list option \<Rightarrow> secure_error + string" where
  "sec_Token raw = (case raw of None \<Rightarrow> Inl ErrRandom | Some bs \<Rightarrow> Inr (b64_encode b64_url bs))"

definition sec_HexToken :: "byte list option \<Rightarrow> secure_error + string" where
  "sec_HexToken raw = (case raw of None \<Rightarrow> Inl ErrRandom | Some bs \<Rightarrow> Inr (hex_encode bs))"

text \<open>\<open>rand.Int\<close> draws \<open>v\<close> with \<open>0 \<le> v < 10 ^ digits\<close>; \<open>%0*d\<close> pads it with zeros.\<close>

definition zero_pad :: "nat \<Rightarrow> string \<Rightarrow> string" where
  "zero_pad w s = replicate (w - length s) (CHR ''0'') @ s"

definition sec_NumericCode :: "int \<Rightarrow> (nat \<Rightarrow> nat option) \<Rightarrow> secure_error + string" where
  "sec_NumericCode digits rand_int =
     (if digits \<le> 0 then Inl ErrDigits
      else case rand_int (10 ^ nat digits) of None \<Rightarrow> Inl ErrRandom
        | Some v \<Rightarrow> Inr (zero_pad (nat digits) (nat_dec v)))"

definition sec_HashToken :: "(string \<Rightarrow> byte list) \<Rightarrow> string \<Rightarrow> string" where
  "sec_HashToken sha256 raw = hex_encode (sha256 raw)"

lemma length_nat_dec: "n < 10 ^ w \<Longrightarrow> 0 < w \<Longrightarrow> length (nat_dec n) \<le> w"
proof (induction n arbitrary: w rule: nat_dec.induct)
  case (1 n)
  show ?case
  proof (cases "n < 10")
    case False
    then obtain v where v: "w = Suc v" "0 < v"
      using 1(2,3) by (cases w; cases "w - 1") auto
    with 1(2) have "n div 10 < 10 ^ v" by (simp add: less_mult_imp_div_less mult.commute)
    with 1(1) [OF False this v(2)] False v show ?thesis by (subst nat_dec.simps) simp
  qed (use 1 in \<open>simp add: nat_dec.simps Suc_le_eq\<close>)
qed

section \<open>UUID version 7\<close>

definition be64 :: "64 word \<Rightarrow> byte list" where
  "be64 w = map (\<lambda>i. ucast (drop_bit (56 - 8 * i) w)) [0..<8]"

text \<open>The canonical 8-4-4-4-12 rendering of a 16-byte array.\<close>

definition uuid_text :: "byte list \<Rightarrow> string" where
  "uuid_text u =
     hex_encode (take 4 u) @ ''-'' @ hex_encode (take 2 (drop 4 u)) @ ''-'' @
     hex_encode (take 2 (drop 6 u)) @ ''-'' @ hex_encode (take 2 (drop 8 u)) @ ''-'' @
     hex_encode (drop 10 u)"

definition uuid7_bytes :: "64 word \<Rightarrow> byte list \<Rightarrow> byte list" where
  "uuid7_bytes ms rnd =
     (let u = take 6 (be64 (push_bit 16 ms)) @ rnd;
          u = u[6 := (u ! 6 AND 0x0f) OR 0x70];
          u = u[8 := (u ! 8 AND 0x3f) OR 0x80]
      in u)"

definition sec_UUIDv7 :: "64 word \<Rightarrow> byte list option \<Rightarrow> secure_error + string" where
  "sec_UUIDv7 ms raw =
     (case raw of None \<Rightarrow> Inl ErrRandom | Some rnd \<Rightarrow> Inr (uuid_text (uuid7_bytes ms rnd)))"

lemma length_be64 [simp]: "length (be64 w) = 8"
  by (simp add: be64_def)

lemma length_uuid7_bytes [simp]: "length (uuid7_bytes ms rnd) = 6 + length rnd"
  by (simp add: uuid7_bytes_def Let_def)

lemma length_uuid_text: "length u = 16 \<Longrightarrow> length (uuid_text u) = 36"
  by (simp add: uuid_text_def)

lemma uuid_text_split:
  "uuid_text u = hex_encode (take 4 u) @ CHR ''-'' # hex_encode (take 2 (drop 4 u)) @ CHR ''-'' #
     hex_encode (take 2 (drop 6 u)) @ CHR ''-'' # hex_encode (take 2 (drop 8 u)) @ CHR ''-'' #
     hex_encode (drop 10 u)"
  by (simp add: uuid_text_def)

lemma uuid_text_dashes:
  assumes "length u = 16"
  shows "uuid_text u ! 8 = CHR ''-''" "uuid_text u ! 13 = CHR ''-''"
    "uuid_text u ! 18 = CHR ''-''" "uuid_text u ! 23 = CHR ''-''"
  using assms by (simp_all add: uuid_text_split nth_append)

lemma uuid_text_inj:
  assumes "length u = 16" and "length v = 16" and "uuid_text u = uuid_text v"
  shows "u = v"
proof -
  have "hex_encode (take 4 u) = hex_encode (take 4 v) \<and>
    hex_encode (take 2 (drop 4 u)) = hex_encode (take 2 (drop 4 v)) \<and>
    hex_encode (take 2 (drop 6 u)) = hex_encode (take 2 (drop 6 v)) \<and>
    hex_encode (take 2 (drop 8 u)) = hex_encode (take 2 (drop 8 v)) \<and>
    hex_encode (drop 10 u) = hex_encode (drop 10 v)"
    using assms by (simp add: uuid_text_split append_eq_append_conv)
  then have e: "take 4 u = take 4 v" "take 2 (drop 4 u) = take 2 (drop 4 v)"
    "take 2 (drop 6 u) = take 2 (drop 6 v)" "take 2 (drop 8 u) = take 2 (drop 8 v)"
    "drop 10 u = drop 10 v"
    by (simp_all add: hex_encode_inj)
  have step: "drop n w = take 2 (drop n w) @ drop (n + 2) w" for n and w :: "byte list"
    by (metis add.commute append_take_drop_id drop_drop)
  have parts: "w = take 4 w @ take 2 (drop 4 w) @ take 2 (drop 6 w) @ take 2 (drop 8 w) @ drop 10 w"
    for w :: "byte list"
    using step [of 4 w] step [of 6 w] step [of 8 w] by simp
  show ?thesis using parts [of u] parts [of v] e by simp
qed

section \<open>Password hashes\<close>

definition argonMemoryKiB :: nat where "argonMemoryKiB = 64 * 1024"
definition argonPasses :: nat where "argonPasses = 3"
definition argonLanes :: nat where "argonLanes = 2"
definition argonSaltLen :: nat where "argonSaltLen = 16"
definition argonKeyLen :: nat where "argonKeyLen = 32"

text \<open>
  The key derivations of \<^verbatim>\<open>golang.org/x/crypto\<close>: \<open>kdf password salt passes memory lanes len\<close>
  is \<open>argon2.IDKey\<close>, \<open>None\<close> when it panics on its parameters; \<open>bcrypt stored password\<close> says
  whether the password matches, \<open>None\<close> for any other error. Version 19 is \<open>argon2.Version\<close>.
\<close>

type_synonym kdf = "string \<Rightarrow> byte list \<Rightarrow> nat \<Rightarrow> nat \<Rightarrow> nat \<Rightarrow> nat \<Rightarrow> byte list option"
type_synonym bcrypt = "string \<Rightarrow> string \<Rightarrow> bool option"

datatype password_error = ErrUnknownHashFormat | ErrBcrypt | ErrSalt | PanicKdf

definition sec_HashPassword :: "kdf \<Rightarrow> byte list option \<Rightarrow> string \<Rightarrow> password_error + string" where
  "sec_HashPassword kdf raw password =
     (case raw of None \<Rightarrow> Inl ErrSalt
      | Some salt \<Rightarrow>
        (case kdf password salt argonPasses argonMemoryKiB argonLanes argonKeyLen of
           None \<Rightarrow> Inl PanicKdf
         | Some key \<Rightarrow>
             Inr (''$argon2id$v='' @ nat_dec 19 @ ''$m='' @ nat_dec argonMemoryKiB @ '',t='' @
                  nat_dec argonPasses @ '',p='' @ nat_dec argonLanes @ ''$'' @
                  b64_encode b64_std salt @ ''$'' @ b64_encode b64_std key)))"

text \<open>\<open>fmt.Sscanf\<close>: literal text, then \<open>%d\<close> with its leading blanks, sign and range check.\<close>

function scan_spaces :: "string \<Rightarrow> string option" where
  "scan_spaces s =
     (if s = [] then Some []
      else if fst (decode_rune s) = 10 then None
      else if is_space (fst (decode_rune s)) then scan_spaces (drop (snd (decode_rune s)) s)
      else Some s)"
  by pat_completeness auto
termination
  by (relation "measure length") (use decode_rune_size in \<open>fastforce simp: Suc_le_eq\<close>)+

declare scan_spaces.simps [simp del]

definition is_digit :: "char \<Rightarrow> bool" where
  "is_digit c \<longleftrightarrow> 48 \<le> byte_of c \<and> byte_of c \<le> 57"

definition scan_lit :: "string \<Rightarrow> string \<Rightarrow> string option" where
  "scan_lit lit s = cut_prefix s lit"

definition scan_uint :: "nat \<Rightarrow> string \<Rightarrow> (nat \<times> string) option" where
  "scan_uint bits s =
     (case scan_spaces s of None \<Rightarrow> None
      | Some t \<Rightarrow>
        (let ds = takeWhile is_digit t in
         if ds = [] \<or> 2 ^ bits \<le> dec_val ds then None else Some (dec_val ds, drop (length ds) t)))"

definition scan_int :: "string \<Rightarrow> (int \<times> string) option" where
  "scan_int s =
     (case scan_spaces s of None \<Rightarrow> None
      | Some t \<Rightarrow>
        (let neg = has_prefix t ''-'';
             u = (if neg \<or> has_prefix t ''+'' then drop 1 t else t);
             ds = takeWhile is_digit u;
             v = int (dec_val ds)
         in if ds = [] \<or> (if neg then 2 ^ 63 < v else 2 ^ 63 \<le> v) then None
            else Some (if neg then - v else v, drop (length ds) u)))"

definition scan_version :: "string \<Rightarrow> int option" where
  "scan_version s = Option.bind (scan_lit ''v='' s) (\<lambda>t. map_option fst (scan_int t))"

definition scan_params :: "string \<Rightarrow> (nat \<times> nat \<times> nat) option" where
  "scan_params s =
     Option.bind (scan_lit ''m='' s) (\<lambda>t1. Option.bind (scan_uint 32 t1) (\<lambda>(m, t2).
     Option.bind (scan_lit '',t='' t2) (\<lambda>t3. Option.bind (scan_uint 32 t3) (\<lambda>(n, t4).
     Option.bind (scan_lit '',p='' t4) (\<lambda>t5. Option.bind (scan_uint 8 t5) (\<lambda>(p, _).
     Some (m, n, p)))))))"

definition verifyArgon2id :: "kdf \<Rightarrow> string \<Rightarrow> string \<Rightarrow> password_error + bool" where
  "verifyArgon2id kdf stored password =
     (let parts = split (CHR ''$'') stored in
      if length parts \<noteq> 6 then Inl ErrUnknownHashFormat
      else if scan_version (parts ! 2) \<noteq> Some 19 then Inl ErrUnknownHashFormat
      else (case scan_params (parts ! 3) of None \<Rightarrow> Inl ErrUnknownHashFormat
        | Some (memory, passes, lanes) \<Rightarrow>
        (case b64_decode b64_std (parts ! 4) of None \<Rightarrow> Inl ErrUnknownHashFormat
        | Some salt \<Rightarrow>
        (case b64_decode b64_std (parts ! 5) of None \<Rightarrow> Inl ErrUnknownHashFormat
        | Some expected \<Rightarrow>
        (case kdf password salt passes memory lanes (length expected) of None \<Rightarrow> Inl PanicKdf
        | Some key \<Rightarrow> Inr (key = expected))))))"

definition sec_VerifyPassword :: "kdf \<Rightarrow> bcrypt \<Rightarrow> string \<Rightarrow> string \<Rightarrow> password_error + bool" where
  "sec_VerifyPassword kdf bcrypt stored password =
     (if has_prefix stored ''$argon2id$'' then verifyArgon2id kdf stored password
      else if has_prefix stored ''$2a$'' \<or> has_prefix stored ''$2b$'' \<or> has_prefix stored ''$2y$'' then
        (case bcrypt stored password of None \<Rightarrow> Inl ErrBcrypt | Some b \<Rightarrow> Inr b)
      else Inl ErrUnknownHashFormat)"

lemma split_nosep: "d \<notin> set a \<Longrightarrow> split d a = [a]"
  by (induction a) auto

lemma split_sep: "d \<notin> set a \<Longrightarrow> split d (a @ d # b) = a # split d b"
  by (induction a) auto

lemma b64_no_dollar: "CHR ''$'' \<notin> set (b64_encode b64_std bs)"
  using b64_encode_chars [of b64_std "CHR ''$''" bs] b64_std_ok by blast

lemma nat_dec_digits: "\<forall>c \<in> set (nat_dec n). is_digit c"
  using nat_dec_chars by (auto simp: is_digit_def)

lemma nat_dec_nonempty: "nat_dec n \<noteq> []"
  by (subst nat_dec.simps) simp

lemma scan_spaces_digits:
  assumes "s \<noteq> []" and "\<forall>c \<in> set s. is_digit c"
  shows "scan_spaces (s @ t) = Some (s @ t)"
proof -
  obtain c u where "s = c # u" and "is_digit c" using assms by (cases s) auto
  then show ?thesis
    by (subst scan_spaces.simps) (auto simp: decode_rune.simps(2) Let_def is_digit_def is_space_def)
qed

lemma takeWhile_digits:
  assumes "\<forall>c \<in> set s. is_digit c" and "t = [] \<or> \<not> is_digit (hd t)"
  shows "takeWhile is_digit (s @ t) = s"
  using assms by (cases t) (auto simp: takeWhile_append)

lemma scan_uint_nat_dec:
  assumes "n < 2 ^ bits" and "t = [] \<or> \<not> is_digit (hd t)"
  shows "scan_uint bits (nat_dec n @ t) = Some (n, t)"
  using assms takeWhile_digits [OF nat_dec_digits assms(2)]
    scan_spaces_digits [OF nat_dec_nonempty nat_dec_digits]
  by (simp add: scan_uint_def nat_dec_nonempty dec_val_nat_dec Let_def)

lemma digits_no_sign:
  assumes "s \<noteq> []" and "\<forall>c \<in> set s. is_digit c"
  shows "\<not> has_prefix s ''-''" and "\<not> has_prefix s ''+''"
proof -
  obtain c u where "s = c # u" and "is_digit c" using assms by (cases s) auto
  then show "\<not> has_prefix s ''-''" and "\<not> has_prefix s ''+''"
    by (auto simp: is_digit_def byte_of_def)
qed

lemma scan_version_nat_dec:
  assumes "n < 2 ^ 63"
  shows "scan_version (''v='' @ nat_dec n) = Some (int n)"
proof -
  have tw: "takeWhile is_digit (nat_dec n) = nat_dec n"
    using takeWhile_digits [OF nat_dec_digits, of "[]"] by simp
  have sp: "scan_spaces (nat_dec n) = Some (nat_dec n)"
    using scan_spaces_digits [OF nat_dec_nonempty nat_dec_digits, of n "[]"] by simp
  show ?thesis
    using assms
    by (simp add: scan_version_def scan_lit_def cut_prefix_def scan_int_def Let_def nat_dec_nonempty
        dec_val_nat_dec tw sp digits_no_sign [OF nat_dec_nonempty nat_dec_digits])
qed

lemma scan_params_nat_dec:
  assumes "m < 2 ^ 32" "n < 2 ^ 32" "p < 2 ^ 8"
  shows "scan_params (''m='' @ nat_dec m @ '',t='' @ nat_dec n @ '',p='' @ nat_dec p) = Some (m, n, p)"
  using scan_uint_nat_dec [OF assms(1), of "'',t='' @ nat_dec n @ '',p='' @ nat_dec p"]
    scan_uint_nat_dec [OF assms(2), of "'',p='' @ nat_dec p"] scan_uint_nat_dec [OF assms(3), of "[]"]
  by (simp add: scan_params_def scan_lit_def cut_prefix_def is_digit_def byte_of_def)

lemma nat_dec_no_dollar: "CHR ''$'' \<notin> set (nat_dec n)"
  using nat_dec_chars [of "CHR ''$''" n] by (auto simp: byte_of_def)

text \<open>
  A hash made by \<open>HashPassword\<close> is read back exactly. Verifying any password against it
  derives a key with the salt and the parameters it was made with and compares the two; in
  particular the password it was made from verifies. The hypotheses on the derivation are
  that it succeeds on the package's parameters and returns the requested 32 bytes.
\<close>

theorem password_hash_roundtrip:
  assumes made: "sec_HashPassword kdf (Some salt) password = Inr stored"
    and key: "kdf password salt argonPasses argonMemoryKiB argonLanes argonKeyLen = Some key"
    and len: "length key = argonKeyLen"
  shows "sec_VerifyPassword kdf bcrypt stored password' =
    (case kdf password' salt argonPasses argonMemoryKiB argonLanes argonKeyLen of
       None \<Rightarrow> Inl PanicKdf | Some key' \<Rightarrow> Inr (key' = key)) \<and>
    sec_VerifyPassword kdf bcrypt stored password = Inr True"
proof -
  let ?v = "''v='' @ nat_dec 19"
  let ?m = "''m='' @ nat_dec argonMemoryKiB @ '',t='' @ nat_dec argonPasses @ '',p='' @ nat_dec argonLanes"
  let ?s = "b64_encode b64_std salt" and ?k = "b64_encode b64_std key"
  have stored: "stored = [] @ CHR ''$'' # ''argon2id'' @ CHR ''$'' # ?v @ CHR ''$'' # ?m @ CHR ''$'' # ?s @ CHR ''$'' # ?k"
    using made key by (simp add: sec_HashPassword_def)
  have nd: "CHR ''$'' \<notin> set []" "CHR ''$'' \<notin> set ''argon2id''" "CHR ''$'' \<notin> set ?v" "CHR ''$'' \<notin> set ?m"
    by (simp_all add: nat_dec_no_dollar)
  have parts: "split (CHR ''$'') stored = [[], ''argon2id'', ?v, ?m, ?s, ?k]"
    unfolding stored
    by (simp only: split_sep [OF nd(1)] split_sep [OF nd(2)] split_sep [OF nd(3)] split_sep [OF nd(4)]
        split_sep [OF b64_no_dollar] split_nosep [OF b64_no_dollar])
  have dec: "b64_decode b64_std (b64_encode b64_std bs) = Some bs" for bs
    by (rule b64_roundtrip) (use b64_std_ok in auto)
  have "has_prefix stored ''$argon2id$''"
    by (simp add: stored)
  then have "sec_VerifyPassword kdf bcrypt stored p =
      (case kdf p salt argonPasses argonMemoryKiB argonLanes argonKeyLen of
         None \<Rightarrow> Inl PanicKdf | Some key' \<Rightarrow> Inr (key' = key))" for p
    using scan_version_nat_dec [of 19] scan_params_nat_dec [of argonMemoryKiB argonPasses argonLanes] len
    by (simp add: sec_VerifyPassword_def verifyArgon2id_def parts dec Let_def argonMemoryKiB_def
        argonPasses_def argonLanes_def)
  with key show ?thesis by simp
qed

definition demo_kdf :: kdf where
  "demo_kdf p salt t m l n = Some (map (\<lambda>i. if i < length p then of_nat (byte_of (p ! i)) else 0) [0..<n])"

lemma password_hash_roundtrip_witness:
  "\<exists>stored. sec_HashPassword demo_kdf (Some [1, 2, 3]) ''pw'' = Inr stored \<and>
     sec_VerifyPassword demo_kdf (\<lambda>_ _. None) stored ''pw'' = Inr True"
proof -
  obtain stored where s: "sec_HashPassword demo_kdf (Some [1, 2, 3]) ''pw'' = Inr stored"
    by (simp add: sec_HashPassword_def demo_kdf_def)
  have "demo_kdf ''pw'' [1, 2, 3] argonPasses argonMemoryKiB argonLanes argonKeyLen =
      Some (map (\<lambda>i. if i < length ''pw'' then of_nat (byte_of (''pw'' ! i)) else 0) [0..<argonKeyLen])"
    by (simp add: demo_kdf_def)
  from password_hash_roundtrip [OF s this, of "\<lambda>_ _. None" "''pw''"] s show ?thesis by auto
qed

section \<open>Order and shape of generated ids\<close>

fun be_digits :: "nat \<Rightarrow> nat \<Rightarrow> nat list" where
  "be_digits 0 n = []"
| "be_digits (Suc k) n = be_digits k (n div 256) @ [n mod 256]"

lemma length_be_digits [simp]: "length (be_digits k n) = k"
  by (induction k arbitrary: n) auto

lemma be_digits_less:
  "m < n \<Longrightarrow> n < 256 ^ k \<Longrightarrow> (be_digits k m, be_digits k n) \<in> lexord {(x, y). x < y}"
proof (induction k arbitrary: m n)
  case (Suc k)
  have "n < 256 ^ k * 256" using Suc.prems(2) by (simp add: mult.commute)
  then have n: "n div 256 < 256 ^ k" by (rule less_mult_imp_div_less)
  show ?case
  proof (cases "m div 256 = n div 256")
    case True
    then have "m mod 256 < n mod 256"
      using Suc.prems(1) by (metis div_mult_mod_eq nat_add_left_cancel_less)
    then have "([m mod 256], [n mod 256]) \<in> lexord {(x, y). x < y}" by simp
    with True show ?thesis by (simp del: lexord_cons_cons add: lexord_append_leftI)
  next
    case False
    then have "m div 256 < n div 256"
      using Suc.prems(1) by (meson div_le_mono less_imp_le nat_less_le)
    from Suc.IH [OF this n] show ?thesis
      unfolding be_digits.simps by (rule lexord_sufI) simp
  qed
qed simp

lemma be_digits_nth: "i < k \<Longrightarrow> be_digits k n ! i = (n div 256 ^ (k - 1 - i)) mod 256"
proof (induction k arbitrary: n)
  case (Suc k)
  show ?case
  proof (cases "i = k")
    case False
    then have "i < k" using Suc.prems by simp
    moreover from this have "256 * 256 ^ (k - 1 - i) = (256::nat) ^ (k - i)"
      by (metis Suc_diff_Suc Suc_eq_plus1 diff_Suc_eq_diff_pred diff_diff_left power_Suc plus_1_eq_Suc)
    ultimately show ?thesis using Suc.IH by (simp add: nth_append div_mult2_eq [symmetric])
  qed (simp add: nth_append)
qed simp

lemma unat_time_byte:
  assumes "unat (ms :: 64 word) < 2 ^ 48" and "i < 6"
  shows "unat (be64 (push_bit 16 ms) ! i) = (unat ms div 256 ^ (5 - i)) mod 256"
proof -
  have "unat (push_bit 16 ms) = unat ms * 2 ^ 16"
    using assms(1) by (simp only: unsigned_push_bit_eq push_bit_nat_def take_bit_nat_def) simp
  moreover have "(2::nat) ^ (56 - 8 * i) = 256 ^ (5 - i) * 2 ^ 16"
  proof -
    have "56 - 8 * i = 8 * (5 - i) + 16" using assms(2) by simp
    then show ?thesis by (simp add: power_add power_mult)
  qed
  ultimately have "unat (push_bit 16 ms) div 2 ^ (56 - 8 * i) = unat ms div 256 ^ (5 - i)"
    by simp
  moreover have "unat (push_bit 16 ms) mod 2 ^ 64 = unat (push_bit 16 ms)"
    using unsigned_less [of "push_bit 16 ms", where 'a = nat] by simp
  ultimately show ?thesis
    using assms(2)
    by (simp add: be64_def unsigned_ucast_eq unsigned_drop_bit_eq drop_bit_nat_def take_bit_nat_def
        del: unsigned_push_bit_eq)
qed

lemma time_bytes: "unat (ms :: 64 word) < 2 ^ 48 \<Longrightarrow> map unat (take 6 (be64 (push_bit 16 ms))) = be_digits 6 (unat ms)"
  by (rule nth_equalityI) (auto simp: unat_time_byte be_digits_nth simp del: be_digits.simps)

definition byte_order :: "(char \<times> char) set" where
  "byte_order = {(c, d). byte_of c < byte_of d}"

lemma hex_encode_lexord:
  assumes "(map unat u, map unat v) \<in> lexord {(x, y). x < y}" and "length u = length v"
  shows "(hex_encode u, hex_encode v) \<in> lexord byte_order"
  using assms
proof (induction u arbitrary: v)
  case (Cons a u)
  then obtain b w where v: "v = b # w" by (cases v) auto
  show ?case
  proof (cases "a = b")
    case True
    with Cons v have "(hex_encode u, hex_encode w) \<in> lexord byte_order" by auto
    with True v show ?thesis by (simp add: hex_encode_Cons lexord_append_leftI)
  next
    case False
    with Cons.prems v have lt: "unat a < unat b" by (auto simp: word_unat_eq_iff)
    have "(hex_byte a, hex_byte b) \<in> lexord byte_order"
    proof (cases "unat a div 16 = unat b div 16")
      case True
      then have "unat a mod 16 < unat b mod 16"
        using lt by (metis div_mult_mod_eq nat_add_left_cancel_less)
      with True show ?thesis by (simp add: hex_byte_def byte_order_def hex_digit_mono)
    next
      case False
      then have "unat a div 16 < unat b div 16"
        using lt by (meson div_le_mono less_imp_le nat_less_le)
      then show ?thesis
        using unat_byte_lt [of a] unat_byte_lt [of b]
        by (simp add: hex_byte_def byte_order_def hex_digit_mono less_mult_imp_div_less)
    qed
    then have "(hex_byte a @ hex_encode u, hex_byte b @ hex_encode w) \<in> lexord byte_order"
      by (rule lexord_sufI) (simp add: hex_byte_def)
    with v show ?thesis by (simp add: hex_encode_Cons)
  qed
qed simp

text \<open>
  Ids minted at different milliseconds sort in the order they were minted, whatever the
  random bytes: the text of a UUIDv7 with the earlier timestamp is smaller in the byte-wise
  order, as long as timestamps fit 48 bits. The text is always 36 bytes long with dashes at
  8, 13, 18 and 23, the shape the domains' id constructors accept.
\<close>

theorem uuid7_sorted_by_time:
  assumes "length r1 = 10" and "length r2 = 10" and "unat ms1 < unat ms2" and "unat ms2 < 2 ^ 48"
  shows "\<exists>t1 t2. sec_UUIDv7 ms1 (Some r1) = Inr t1 \<and> sec_UUIDv7 ms2 (Some r2) = Inr t2 \<and>
    (t1, t2) \<in> lexord byte_order \<and>
    length t1 = 36 \<and> t1 ! 8 = CHR ''-'' \<and> t1 ! 13 = CHR ''-'' \<and> t1 ! 18 = CHR ''-'' \<and> t1 ! 23 = CHR ''-''"
proof -
  let ?u = "uuid7_bytes ms1 r1" and ?v = "uuid7_bytes ms2 r2"
  have t: "take 6 (uuid7_bytes ms r) = take 6 (be64 (push_bit 16 ms))" if "length r = 10" for ms r
    using that by (simp add: uuid7_bytes_def Let_def)
  have "(map unat (take 6 ?u), map unat (take 6 ?v)) \<in> lexord {(x, y). x < y}"
    using assms be_digits_less [of "unat ms1" "unat ms2" 6] time_bytes [of ms1] time_bytes [of ms2]
    by (simp add: t del: be_digits.simps)
  then have six: "(hex_encode (take 6 ?u), hex_encode (take 6 ?v)) \<in> lexord byte_order"
    by (rule hex_encode_lexord) (simp add: assms)
  have "(uuid_text ?u, uuid_text ?v) \<in> lexord byte_order"
  proof (cases "take 4 ?u = take 4 ?v")
    case True
    have s: "take 6 w = take 4 w @ take 2 (drop 4 w)" for w :: "byte list"
      using take_add [of 4 2 w] by simp
    from six True have "(hex_encode (take 2 (drop 4 ?u)), hex_encode (take 2 (drop 4 ?v))) \<in> lexord byte_order"
      unfolding s by (simp add: hex_encode_def byte_order_def lexord_same_pref_iff)
    then have "(hex_encode (take 2 (drop 4 ?u)) @ x, hex_encode (take 2 (drop 4 ?v)) @ y) \<in> lexord byte_order" for x y
      by (rule lexord_sufI) (simp add: assms)
    with True show ?thesis by (simp add: uuid_text_def lexord_append_leftI)
  next
    case False
    have s: "take 6 w = take 4 w @ take 2 (drop 4 w)" for w :: "byte list"
      using take_add [of 4 2 w] by simp
    have app: "hex_encode (x @ y) = hex_encode x @ hex_encode y" for x y
      by (simp add: hex_encode_def)
    have "hex_encode (take 4 ?u) \<noteq> hex_encode (take 4 ?v)"
      using False by (simp add: hex_encode_inj)
    then have "(hex_encode (take 4 ?u), hex_encode (take 4 ?v)) \<in> lexord byte_order"
      by (rule lexord_sufE [OF six [unfolded s app]]) (simp_all add: assms)
    then show ?thesis
      unfolding uuid_text_def by (rule lexord_sufI) (simp add: assms)
  qed
  then show ?thesis
    using assms uuid_text_dashes [of ?u] by (simp add: sec_UUIDv7_def length_uuid_text)
qed

lemma uuid7_sorted_by_time_witness:
  "\<exists>t1 t2. sec_UUIDv7 1000 (Some (replicate 10 255)) = Inr t1 \<and> sec_UUIDv7 1001 (Some (replicate 10 0)) = Inr t2 \<and>
    (t1, t2) \<in> lexord byte_order"
  using uuid7_sorted_by_time [of "replicate 10 255" "replicate 10 0" 1000 1001] by auto

text \<open>
  A numeric code has exactly the requested number of digits, all of them decimal, for every
  value the random source can draw, and different draws give different codes, so the six-digit
  codes are as uniform as the draw.
\<close>

theorem numeric_code_digits:
  assumes "0 < digits" and "rand_int (10 ^ nat digits) = Some v" and "v < 10 ^ nat digits"
  shows "\<exists>code. sec_NumericCode digits rand_int = Inr code \<and> length code = nat digits \<and>
    (\<forall>c \<in> set code. is_digit c) \<and> dec_val code = v"
proof -
  have len: "length (nat_dec v) \<le> nat digits"
    using assms by (intro length_nat_dec) auto
  have "foldl (\<lambda>v c. v * 10 + (byte_of c - 48)) 0 (replicate n CHR ''0'') = 0" for n
    by (induction n) (auto simp: byte_of_def)
  then have "dec_val (zero_pad (nat digits) (nat_dec v)) = v"
    using dec_val_nat_dec [of v] by (simp add: dec_val_def zero_pad_def)
  moreover have "\<forall>c \<in> set (zero_pad (nat digits) (nat_dec v)). is_digit c"
    using nat_dec_digits [of v] by (auto simp: zero_pad_def is_digit_def byte_of_def)
  ultimately show ?thesis
    using assms len by (simp add: sec_NumericCode_def zero_pad_def)
qed

lemma numeric_code_digits_witness:
  "\<exists>code. sec_NumericCode 6 (\<lambda>_. Some 42) = Inr code \<and> length code = 6 \<and> dec_val code = 42"
  using numeric_code_digits [of 6 "\<lambda>_. Some 42" 42] by auto

end
