(* ===== verification/Errors.thy ===== *)
theory Errors
  imports GoStrings
begin

text \<open>
  Errors of the core service. Go errors are values: the modules' sentinels, errors of the
  libraries with a text of their own, errors wrapped by \<^verbatim>\<open>fmt.Errorf("...: %w", err)\<close>, and the
  classified \<open>*apperror.Error\<close> of \<^verbatim>\<open>platform/apperror\<close>. The theory holds \<^verbatim>\<open>errors.Is\<close> and
  \<^verbatim>\<open>errors.As\<close> on them, the fingerprint, and the mapping of kinds to gRPC codes done by
  \<^verbatim>\<open>platform/grpcserver/errormap.go\<close>.
\<close>

datatype kind =
  KindInternal | KindInvalidInput | KindNotFound | KindAlreadyExists | KindUnauthenticated
| KindPermissionDenied | KindConflict | KindRateLimited | KindUnavailable

text \<open>The constants are declared with \<open>iota\<close>, so kinds are ordered as they are listed.\<close>

fun kind_iota :: "kind \<Rightarrow> nat" where
  "kind_iota KindInternal = 0"
| "kind_iota KindInvalidInput = 1"
| "kind_iota KindNotFound = 2"
| "kind_iota KindAlreadyExists = 3"
| "kind_iota KindUnauthenticated = 4"
| "kind_iota KindPermissionDenied = 5"
| "kind_iota KindConflict = 6"
| "kind_iota KindRateLimited = 7"
| "kind_iota KindUnavailable = 8"

lemma kind_iota_inj: "kind_iota a = kind_iota b \<Longrightarrow> a = b"
  by (cases a; cases b) simp_all

instantiation kind :: linorder
begin

definition less_eq_kind :: "kind \<Rightarrow> kind \<Rightarrow> bool" where
  "less_eq_kind a b \<longleftrightarrow> kind_iota a \<le> kind_iota b"

definition less_kind :: "kind \<Rightarrow> kind \<Rightarrow> bool" where
  "less_kind a b \<longleftrightarrow> kind_iota a < kind_iota b"

instance
  by standard (auto simp: less_eq_kind_def less_kind_def dest: kind_iota_inj)

end

fun kind_String :: "kind \<Rightarrow> string" where
  "kind_String KindInvalidInput = ''invalid_input''"
| "kind_String KindNotFound = ''not_found''"
| "kind_String KindAlreadyExists = ''already_exists''"
| "kind_String KindUnauthenticated = ''unauthenticated''"
| "kind_String KindPermissionDenied = ''permission_denied''"
| "kind_String KindConflict = ''conflict''"
| "kind_String KindRateLimited = ''rate_limited''"
| "kind_String KindUnavailable = ''unavailable''"
| "kind_String KindInternal = ''internal''"

text \<open>
  \<open>ErrNoRows\<close> is \<^verbatim>\<open>pgx.ErrNoRows\<close>, \<open>PgError code text\<close> a \<^verbatim>\<open>*pgconn.PgError\<close>, \<open>External text\<close> any
  other error of a library, and \<open>Panicked\<close> a panic on its way up the stack, which no
  \<^verbatim>\<open>err != nil\<close> test sees.
\<close>

datatype gerr =
  ErrUserNotFound | ErrEmailTaken | ErrInvalidCredentials | ErrAccountLocked
| ErrAccountDisabled | ErrRefreshTokenInvalid | ErrConcurrentUpdate | ErrInvalidOTP
| ErrAPIKeyNotFound | ErrMissingName | ErrInvalidRole | ErrInvalidEmail | ErrInvalidUserID
| ErrNoteNotFound | ErrNoteConcurrentUpdate | ErrMissingOwner | ErrInvalidNoteID | ErrInvalidTitle
| ErrLockNotAcquired | ErrInvalidToken
| ErrNoRows | PgError string string | External string | Panicked
| Wrapped string gerr
| AppError kind string string "gerr option"

definition apperror_New :: "kind \<Rightarrow> string \<Rightarrow> string \<Rightarrow> gerr" where
  "apperror_New k code msg = AppError k code msg None"

definition apperror_Wrap :: "gerr \<Rightarrow> kind \<Rightarrow> string \<Rightarrow> string \<Rightarrow> gerr" where
  "apperror_Wrap cause k code msg = AppError k code msg (Some cause)"

text \<open>\<open>err.Error()\<close>\<close>

fun err_Error :: "gerr \<Rightarrow> string" where
  "err_Error ErrUserNotFound = ''user not found''"
| "err_Error ErrEmailTaken = ''email already registered''"
| "err_Error ErrInvalidCredentials = ''invalid credentials''"
| "err_Error ErrAccountLocked = ''too many failed login attempts''"
| "err_Error ErrAccountDisabled = ''account disabled''"
| "err_Error ErrRefreshTokenInvalid = ''refresh token invalid''"
| "err_Error ErrConcurrentUpdate = ''user was modified concurrently''"
| "err_Error ErrInvalidOTP = ''invalid or expired code''"
| "err_Error ErrAPIKeyNotFound = ''api key not found''"
| "err_Error ErrMissingName = ''user requires a name''"
| "err_Error ErrInvalidRole = ''role must be 1-50 characters''"
| "err_Error ErrInvalidEmail = ''invalid email address''"
| "err_Error ErrInvalidUserID = ''invalid user id''"
| "err_Error ErrNoteNotFound = ''note not found''"
| "err_Error ErrNoteConcurrentUpdate = ''note was modified concurrently''"
| "err_Error ErrMissingOwner = ''note requires an owner''"
| "err_Error ErrInvalidNoteID = ''invalid note id''"
| "err_Error ErrInvalidTitle = ''title must be 1-200 characters''"
| "err_Error ErrLockNotAcquired = ''lock: not acquired''"
| "err_Error ErrInvalidToken = ''invalid token''"
| "err_Error ErrNoRows = ''no rows in result set''"
| "err_Error (PgError code t) = t"
| "err_Error (External t) = t"
| "err_Error Panicked = []"
| "err_Error (Wrapped p e) = p @ '': '' @ err_Error e"
| "err_Error (AppError k code msg None) = code @ '': '' @ msg"
| "err_Error (AppError k code msg (Some e)) = code @ '': '' @ msg @ '': '' @ err_Error e"

fun err_Unwrap :: "gerr \<Rightarrow> gerr option" where
  "err_Unwrap (Wrapped p e) = Some e"
| "err_Unwrap (AppError k code msg c) = c"
| "err_Unwrap e = None"

text \<open>\<open>errors.Is(err, target)\<close> for a sentinel target.\<close>

fun errors_Is :: "gerr \<Rightarrow> gerr \<Rightarrow> bool" where
  "errors_Is (Wrapped p e) t = errors_Is e t"
| "errors_Is (AppError k code msg None) t = False"
| "errors_Is (AppError k code msg (Some e)) t = errors_Is e t"
| "errors_Is e t = (e = t)"

text \<open>\<open>apperror.As\<close>: the first classified error of the chain.\<close>

fun apperror_As :: "gerr \<Rightarrow> (kind \<times> string \<times> string) option" where
  "apperror_As (AppError k code msg c) = Some (k, code, msg)"
| "apperror_As (Wrapped p e) = apperror_As e"
| "apperror_As e = None"

text \<open>\<open>errors.As(err, &pgErr)\<close> followed by a test of \<open>pgErr.Code\<close>.\<close>

fun is_pg_code :: "string \<Rightarrow> gerr \<Rightarrow> bool" where
  "is_pg_code code (PgError c t) = (c = code)"
| "is_pg_code code (Wrapped p e) = is_pg_code code e"
| "is_pg_code code (AppError k cd msg (Some e)) = is_pg_code code e"
| "is_pg_code code e = False"

section \<open>Fingerprints\<close>

definition fingerprint_input :: "kind \<Rightarrow> string \<Rightarrow> string" where
  "fingerprint_input k code = kind_String k @ [CHR 0x00] @ code"

definition apperror_Fingerprint :: "(string \<Rightarrow> byte list) \<Rightarrow> kind \<times> string \<times> string \<Rightarrow> string" where
  "apperror_Fingerprint sha256 e =
     (case e of (k, code, msg) \<Rightarrow> hex_encode (take 8 (sha256 (fingerprint_input k code))))"

lemma kind_String_no_nul: "CHR 0x00 \<notin> set (kind_String k)"
  by (cases k) simp_all

lemma kind_String_inj: "kind_String a = kind_String b \<longleftrightarrow> a = b"
  by (cases a; cases b) simp_all

text \<open>
  The fingerprint groups by kind and code alone, and what is hashed determines both: the
  zero byte written between them cannot occur in a kind's name, so no two classes of error
  feed the hash the same bytes. As long as the hash does not collide on the two inputs'
  first eight bytes, different classes get different fingerprints.
\<close>

theorem fingerprint_separates_classes:
  "(fingerprint_input k code = fingerprint_input k' code' \<longleftrightarrow> k = k' \<and> code = code') \<and>
   apperror_Fingerprint sha256 (k, code, msg) = apperror_Fingerprint sha256 (k, code, msg') \<and>
   (apperror_Fingerprint sha256 (k, code, msg) = apperror_Fingerprint sha256 (k', code', msg') \<longleftrightarrow>
      take 8 (sha256 (fingerprint_input k code)) = take 8 (sha256 (fingerprint_input k' code')))"
proof -
  have "k = k' \<and> code = code'" if "fingerprint_input k code = fingerprint_input k' code'"
  proof -
    have "cut (CHR 0x00) (fingerprint_input k code) = Some (kind_String k, code)" for k code
      using cut_append [OF kind_String_no_nul, of k code] by (simp add: fingerprint_input_def)
    with that have "(kind_String k, code) = (kind_String k', code')" by (metis option.inject)
    then show ?thesis by (simp add: kind_String_inj)
  qed
  then show ?thesis
    by (auto simp: apperror_Fingerprint_def hex_encode_inj)
qed

section \<open>Kinds as gRPC codes\<close>

datatype code =
  OK | Canceled | Unknown | InvalidArgument | DeadlineExceeded | NotFound | AlreadyExists
| PermissionDenied | ResourceExhausted | FailedPrecondition | Aborted | OutOfRange
| Unimplemented | Internal | Unavailable | DataLoss | Unauthenticated

fun toGRPCCode :: "kind \<Rightarrow> code" where
  "toGRPCCode KindInvalidInput = InvalidArgument"
| "toGRPCCode KindNotFound = NotFound"
| "toGRPCCode KindAlreadyExists = AlreadyExists"
| "toGRPCCode KindUnauthenticated = Unauthenticated"
| "toGRPCCode KindPermissionDenied = PermissionDenied"
| "toGRPCCode KindConflict = Aborted"
| "toGRPCCode KindRateLimited = ResourceExhausted"
| "toGRPCCode KindUnavailable = Unavailable"
| "toGRPCCode KindInternal = Internal"

text \<open>
  An error as the interceptors outside the error mapping see it: a status that still unwraps
  to the application error, the handler's own error untouched, or a status without a cause.
\<close>

datatype rpc_error = StatusError code string gerr | RawError gerr | PlainStatus code string

definition error_mapping :: "(gerr + 'a) \<Rightarrow> rpc_error + 'a" where
  "error_mapping r =
     (case r of
        Inr resp \<Rightarrow> Inr resp
      | Inl err \<Rightarrow>
          (case apperror_As err of
             None \<Rightarrow> Inl (RawError err)
           | Some (k, c, msg) \<Rightarrow> Inl (StatusError (toGRPCCode k) msg err)))"

text \<open>The status grpc-go puts on the wire: an unclassified error is \<open>Unknown\<close> with its text.\<close>

fun wire_status :: "rpc_error \<Rightarrow> code \<times> string" where
  "wire_status (StatusError c msg e) = (c, msg)"
| "wire_status (RawError e) = (Unknown, err_Error e)"
| "wire_status (PlainStatus c msg) = (c, msg)"

lemma toGRPCCode_inj: "toGRPCCode a = toGRPCCode b \<longleftrightarrow> a = b"
  by (cases a; cases b) simp_all

lemma toGRPCCode_not_OK: "toGRPCCode k \<noteq> OK"
  by (cases k) simp_all

end
