(* ===== verification/World.thy ===== *)
theory World
  imports Errors Secure
begin

text \<open>
  The state the core service works on and the environment it runs in. \<open>world\<close> holds the primary
  database and its replicas, Redis, the message bus and what was sent out; \<open>env\<close> holds what the
  code does not decide: the clock, the random source, the faults of the network and the
  third-party functions (hashes, parsers, signatures). Every outside call consumes one step
  \<open>w_step\<close>, by which the environment's oracles are indexed, so a fault or a clock reading can be
  placed at any call. Times are integers in microseconds, the resolution of \<^verbatim>\<open>timestamptz\<close>.
\<close>

section \<open>Rows of the tables\<close>

type_synonym uuid = "byte list"

record user_row =
  ur_id :: uuid
  ur_email :: string
  ur_password_hash :: string
  ur_full_name :: string
  ur_role :: string
  ur_status :: string
  ur_version :: int
  ur_created_at :: int
  ur_updated_at :: int
  ur_email_verified_at :: "int option"

record refresh_row =
  rr_id :: uuid
  rr_user_id :: uuid
  rr_token_hash :: string
  rr_expires_at :: int
  rr_revoked_at :: "int option"
  rr_created_at :: int

record otp_row =
  or_id :: uuid
  or_user_id :: uuid
  or_purpose :: string
  or_code_hash :: string
  or_expires_at :: int
  or_consumed_at :: "int option"
  or_created_at :: int

record apikey_row =
  kr_id :: uuid
  kr_user_id :: uuid
  kr_name :: string
  kr_key_hash :: string
  kr_prefix :: string
  kr_created_at :: int
  kr_revoked_at :: "int option"

record note_row =
  nr_id :: uuid
  nr_owner_id :: string
  nr_title :: string
  nr_body :: string
  nr_version :: int
  nr_created_at :: int
  nr_updated_at :: int

record policy_row =
  pr_id :: uuid
  pr_name :: string
  pr_effect :: string
  pr_resource_type :: string
  pr_action :: string
  pr_condition :: string
  pr_enabled :: bool
  pr_created_at :: int
  pr_updated_at :: int

text \<open>
  Domain events, and what travels as the JSON payload of an outbox row or a bus message. The
  envelope is kept as a value: \<^verbatim>\<open>encoding/json\<close> renders these structs without loss. \<open>Bytes\<close> is a
  message of any other shape.
\<close>

datatype identity_event =
  UserRegistered (ue_user: string) (ue_email: string) (ue_name: string) (ue_role: string) (ue_at: int)
| PasswordChanged (ue_user: string) (ue_at: int)
| RoleChanged (ue_user: string) (ue_role: string) (ue_at: int)
| PasswordResetRequested (ue_user: string) (ue_at: int)
| EmailVerified (ue_user: string) (ue_at: int)
| APIKeyCreated (ue_user: string) (ue_key: string) (ue_name: string) (ue_at: int)
| APIKeyRevoked (ue_user: string) (ue_key: string) (ue_at: int)

datatype note_event =
  NoteCreated (ne_id: string) (ne_owner: string) (ne_title: string) (ne_body: string) (ne_at: int)
| NoteUpdated (ne_id: string) (ne_title: string) (ne_body: string) (ne_version: int) (ne_at: int)

datatype event_data = IdentityData identity_event | NoteData note_event

record envelope =
  en_event :: string
  en_occurred_at :: int
  en_traceparent :: string
  en_data :: event_data

datatype payload = Envelope envelope | Bytes string

record outbox_row =
  ob_id :: uuid
  ob_subject :: string
  ob_payload :: payload
  ob_occurred_at :: int
  ob_published_at :: "int option"

record audit_row =
  ar_id :: uuid
  ar_subject :: string
  ar_payload :: payload
  ar_occurred_at :: int
  ar_recorded_at :: int

record db =
  d_users :: "user_row list"
  d_refresh :: "refresh_row list"
  d_otps :: "otp_row list"
  d_api_keys :: "apikey_row list"
  d_identity_outbox :: "outbox_row list"
  d_notes :: "note_row list"
  d_example_outbox :: "outbox_row list"
  d_policies :: "policy_row list"
  d_audit :: "audit_row list"

section \<open>The state\<close>

datatype rval = RStr string | RInt int | RPrincipal string string

type_synonym redis = "string \<rightharpoonup> rval \<times> int option"

datatype tx_state = NoTx | TxOpen | TxAborted

record world =
  w_step :: nat
  w_db :: db
  w_tx :: tx_state
  w_replicas :: "db list"
  w_next :: "64 word"
  w_redis :: redis
  w_pubsub :: "(string \<times> string) list"
  w_bus :: "(string \<times> payload) list"
  w_sent :: "(string \<times> string \<times> string) list"

datatype commit_outcome = Committed | CommitFailed string bool

datatype publish_outcome = Acked | PublishFailed string bool

record claims =
  c_subject :: string
  c_issuer :: string
  c_id :: string
  c_issued_at :: int
  c_expires_at :: int
  c_not_before :: int
  c_role :: string
  c_token_type :: string

record env =
  e_now :: "nat \<Rightarrow> int"
  e_rand :: "nat \<Rightarrow> (nat \<Rightarrow> byte) option"
  e_rand_int :: "nat \<Rightarrow> nat option"
  e_db :: "nat \<Rightarrow> string option"
  e_commit :: "nat \<Rightarrow> commit_outcome"
  e_redis :: "nat \<Rightarrow> string option"
  e_bus :: "nat \<Rightarrow> publish_outcome"
  e_trace :: string
  e_sha256 :: "string \<Rightarrow> byte list"
  e_kdf :: kdf
  e_bcrypt :: bcrypt
  e_ulower :: "string \<Rightarrow> string"
  e_parse_address :: "string \<Rightarrow> string option"
  e_uuid_scan :: "string \<Rightarrow> (nat \<Rightarrow> byte) option"
  e_jwt_sign :: "claims \<Rightarrow> string option"
  e_issuer :: string
  e_access_ttl :: int
  e_refresh_ttl :: int

section \<open>Clock and randomness\<close>

definition tick :: "(world, 'e, nat) act" where
  "tick = (\<lambda>w. (Inr (w_step w), w\<lparr>w_step := Suc (w_step w)\<rparr>))"

definition clock_Now :: "env \<Rightarrow> (world, 'e, int) act" where
  "clock_Now E = andThen tick (\<lambda>n. ret (e_now E n))"

text \<open>\<open>rand.Read\<close> of \<open>n\<close> bytes, \<open>None\<close> when the source fails.\<close>

definition rand_Read :: "env \<Rightarrow> nat \<Rightarrow> (world, 'e, byte list option) act" where
  "rand_Read E n = andThen tick (\<lambda>k. ret (map_option (\<lambda>f. map f [0..<n]) (e_rand E k)))"

text \<open>\<open>rand.Int(max)\<close>: a number below \<open>max\<close>.\<close>

definition rand_Int :: "env \<Rightarrow> (world, 'e, nat \<Rightarrow> nat option) act" where
  "rand_Int E = andThen tick (\<lambda>k. ret (\<lambda>m. map_option (\<lambda>v. v mod m) (e_rand_int E k)))"

section \<open>Statements\<close>

definition abort :: "world \<Rightarrow> world" where
  "abort w = (if w_tx w = NoTx then w else w\<lparr>w_tx := TxAborted\<rparr>)"

text \<open>
  One statement on the primary. It is refused inside a transaction that an earlier error
  aborted, it may be lost to a fault, and an error aborts the transaction around it.
\<close>

definition query :: "env \<Rightarrow> (db \<Rightarrow> (gerr + 'a) \<times> db) \<Rightarrow> (world, gerr, 'a) act" where
  "query E f w =
     (let n = w_step w; w1 = w\<lparr>w_step := Suc n\<rparr> in
      if w_tx w = TxAborted
      then (Inl (PgError ''25P02'' ''current transaction is aborted''), w1)
      else (case e_db E n of
              Some t \<Rightarrow> (Inl (External t), abort w1)
            | None \<Rightarrow>
                (case f (w_db w) of
                   (Inl e, d) \<Rightarrow> (Inl e, abort w1)
                 | (Inr x, d) \<Rightarrow> (Inr x, w1\<lparr>w_db := d\<rparr>))))"

text \<open>A read: \<open>:many\<close> queries, and \<open>:one\<close> queries whose missing row is \<^verbatim>\<open>pgx.ErrNoRows\<close>.\<close>

definition select_rows :: "env \<Rightarrow> (db \<Rightarrow> 'a) \<Rightarrow> (world, gerr, 'a) act" where
  "select_rows E f = query E (\<lambda>d. (Inr (f d), d))"

definition one_row :: "'a option \<Rightarrow> (world, gerr, 'a) act" where
  "one_row r = (case r of None \<Rightarrow> fail ErrNoRows | Some x \<Rightarrow> ret x)"

definition select_one :: "env \<Rightarrow> (db \<Rightarrow> 'a option) \<Rightarrow> (world, gerr, 'a) act" where
  "select_one E f = andThen (select_rows E f) one_row"

section \<open>Pools and transactions\<close>

text \<open>
  \<open>Pools.Read\<close>: the primary without replicas, the only replica, or the next one in turn. The
  pool is named by \<open>None\<close> for the primary or the replica's index.
\<close>

definition Pools_Read :: "(world, 'e, nat option) act" where
  "Pools_Read w =
     (case length (w_replicas w) of
        0 \<Rightarrow> (Inr None, w)
      | Suc 0 \<Rightarrow> (Inr (Some 0), w)
      | Suc (Suc k) \<Rightarrow>
          (let n = w_next w + 1 in
           (Inr (Some (unat (n mod of_nat (length (w_replicas w))))), w\<lparr>w_next := n\<rparr>)))"

text \<open>A read on the pool: a replica may lag behind the primary but a read never changes it.\<close>

definition pool_rows :: "env \<Rightarrow> nat option \<Rightarrow> (db \<Rightarrow> 'a) \<Rightarrow> (world, gerr, 'a) act" where
  "pool_rows E p f =
     (case p of
        None \<Rightarrow> select_rows E f
      | Some i \<Rightarrow> (\<lambda>w. select_rows E (\<lambda>_. f (w_replicas w ! i)) w))"

definition WithinTransaction :: "env \<Rightarrow> (world, gerr, 'a) act \<Rightarrow> (world, gerr, 'a) act" where
  "WithinTransaction E fn w =
     (if w_tx w \<noteq> NoTx then fn w
      else
        let n = w_step w; w1 = w\<lparr>w_step := Suc n\<rparr> in
        case e_db E n of
          Some t \<Rightarrow> (Inl (Wrapped ''postgres: begin tx'' (External t)), w1)
        | None \<Rightarrow>
            (case fn (w1\<lparr>w_tx := TxOpen\<rparr>) of
               (Inl err, w2) \<Rightarrow> (Inl err, w2\<lparr>w_tx := NoTx, w_db := w_db w\<rparr>)
             | (Inr x, w2) \<Rightarrow>
                 let k = w_step w2; w3 = w2\<lparr>w_step := Suc k, w_tx := NoTx\<rparr> in
                 if w_tx w2 = TxAborted
                 then (Inl (Wrapped ''postgres: commit tx'' (External ''commit unexpectedly resulted in rollback'')),
                       w3\<lparr>w_db := w_db w\<rparr>)
                 else (case e_commit E k of
                         Committed \<Rightarrow> (Inr x, w3)
                       | CommitFailed t applied \<Rightarrow>
                           (Inl (Wrapped ''postgres: commit tx'' (External t)),
                            if applied then w3 else w3\<lparr>w_db := w_db w\<rparr>))))"

end
