(* ===== verification/Postgres.thy ===== *)
theory Postgres
  imports World
begin

text \<open>
  What the repositories rely on of \<^verbatim>\<open>platform/postgres\<close>: the contract of a unit of work, stated as a
  locale and interpreted on \<open>WithinTransaction\<close>, the read pool's choice of replica, and the rules
  that carry facts about single statements through whole use cases.
\<close>

section \<open>The environment's calls\<close>

lemma tick_simp [simp]: "tick w = (Inr (w_step w), w\<lparr>w_step := Suc (w_step w)\<rparr>)"
  by (simp add: tick_def)

lemma clock_Now_simp [simp]:
  "clock_Now E w = (Inr (e_now E (w_step w)), w\<lparr>w_step := Suc (w_step w)\<rparr>)"
  by (simp add: clock_Now_def andThen_def)

lemma rand_Read_simp [simp]:
  "rand_Read E n w = (Inr (map_option (\<lambda>f. map f [0..<n]) (e_rand E (w_step w))), w\<lparr>w_step := Suc (w_step w)\<rparr>)"
  by (simp add: rand_Read_def andThen_def)

lemma rand_Int_simp [simp]:
  "rand_Int E w = (Inr (\<lambda>m. map_option (\<lambda>v. v mod m) (e_rand_int E (w_step w))), w\<lparr>w_step := Suc (w_step w)\<rparr>)"
  by (simp add: rand_Int_def andThen_def)

section \<open>Statements\<close>

lemma query_Inr:
  assumes "query E f w = (Inr x, w')"
  obtains d where "f (w_db w) = (Inr x, d)" and "w' = w\<lparr>w_step := Suc (w_step w), w_db := d\<rparr>"
  using assms by (auto simp: query_def Let_def split: if_splits option.splits prod.splits sum.splits)

lemma query_Inl_db: "query E f w = (Inl e, w') \<Longrightarrow> w_db w' = w_db w"
  by (auto simp: query_def Let_def abort_def split: if_splits option.splits prod.splits sum.splits)

lemma query_ok:
  "w_tx w \<noteq> TxAborted \<Longrightarrow> e_db E (w_step w) = None \<Longrightarrow> f (w_db w) = (Inr x, d) \<Longrightarrow>
   query E f w = (Inr x, w\<lparr>w_step := Suc (w_step w), w_db := d\<rparr>)"
  by (simp add: query_def Let_def)

lemma select_rows_Inr:
  "select_rows E f w = (Inr x, w') \<Longrightarrow> x = f (w_db w) \<and> w' = w\<lparr>w_step := Suc (w_step w)\<rparr>"
  unfolding select_rows_def by (erule query_Inr) simp

lemma select_rows_db: "w_db (snd (select_rows E f w)) = w_db w"
  unfolding select_rows_def
  by (cases "fst (query E (\<lambda>d. (Inr (f d), d)) w)"; cases "query E (\<lambda>d. (Inr (f d), d)) w")
    (auto dest: query_Inl_db elim: query_Inr)

lemma one_row_Inr: "one_row r w = (Inr x, w') \<Longrightarrow> r = Some x \<and> w' = w"
  by (cases r) (auto simp: one_row_def)

lemma select_one_Inr:
  "select_one E f w = (Inr x, w') \<Longrightarrow> f (w_db w) = Some x \<and> w' = w\<lparr>w_step := Suc (w_step w)\<rparr>"
  unfolding select_one_def by (elim andThen_InrE) (auto dest!: select_rows_Inr one_row_Inr)

section \<open>Predicates on the database\<close>

text \<open>
  \<open>on_db P\<close> says \<open>P\<close> of the database the current connection sees; \<open>db_keeps P f\<close> that a statement
  keeps it. Calls that are not statements keep every such predicate.
\<close>

definition on_db :: "(db \<Rightarrow> bool) \<Rightarrow> world \<Rightarrow> bool" where
  "on_db P w \<longleftrightarrow> P (w_db w)"

definition db_keeps :: "(db \<Rightarrow> bool) \<Rightarrow> (db \<Rightarrow> (gerr + 'a) \<times> db) \<Rightarrow> bool" where
  "db_keeps P f \<longleftrightarrow> (\<forall>d. P d \<longrightarrow> (case f d of (Inl e, d') \<Rightarrow> True | (Inr x, d') \<Rightarrow> P d'))"

lemma preserves_query [pres]: "db_keeps P f \<Longrightarrow> preserves (on_db P) (query E f)"
  by (rule preservesI)
    (auto simp: on_db_def db_keeps_def query_def Let_def abort_def split: option.splits prod.splits sum.splits)

lemma preserves_select [pres]: "preserves (on_db P) (select_rows E f)"
  by (rule preservesI) (simp add: on_db_def select_rows_db)

lemma preserves_one_row [pres]: "preserves I (one_row r)"
  by (cases r) (auto simp: one_row_def intro: pres)

lemma preserves_select_one [pres]: "preserves (on_db P) (select_one E f)"
  unfolding select_one_def by (intro pres)

lemma preserves_clock [pres]: "preserves (on_db P) (clock_Now E)"
  and preserves_rand [pres]: "preserves (on_db P) (rand_Read E n)"
  and preserves_rand_Int [pres]: "preserves (on_db P) (rand_Int E)"
  by (simp_all add: preserves_def on_db_def)

lemma preserves_pool_rows [pres]: "preserves (on_db P) (pool_rows E p f)"
  by (rule preservesI) (auto simp: pool_rows_def on_db_def select_rows_db split: option.splits)

lemma Pools_Read_db: "w_db (snd (Pools_Read w)) = w_db w"
  by (simp add: Pools_Read_def Let_def split: nat.splits)

lemma preserves_Pools_Read [pres]: "preserves (on_db P) Pools_Read"
  by (rule preservesI) (simp add: on_db_def Pools_Read_db)

section \<open>The unit of work\<close>

text \<open>
  The contract \<open>UnitOfWork\<close> promises the use cases. \<open>data\<close> is what the transaction protects,
  \<open>idle\<close> that no transaction is open. A commit makes exactly the body's effects visible; any
  other outcome leaves the data as it was or, when the answer to the commit was lost, as the
  completed body left it. Never anything in between.
\<close>

locale unit_of_work =
  fixes within :: "('s, 'e, 'a) act \<Rightarrow> ('s, 'e, 'a) act"
    and enter :: "'s \<Rightarrow> 's" and data :: "'s \<Rightarrow> 'd" and idle :: "'s \<Rightarrow> bool"
  assumes enter_data: "data (enter s) = data s"
    and commit: "idle s \<Longrightarrow> within m s = (Inr x, t) \<Longrightarrow> \<exists>t'. m (enter s) = (Inr x, t') \<and> data t = data t'"
    and undo: "idle s \<Longrightarrow> within m s = (Inl e, t) \<Longrightarrow>
      data t = data s \<or> (\<exists>x t'. m (enter s) = (Inr x, t') \<and> data t = data t')"
    and nested: "\<not> idle s \<Longrightarrow> within m s = m s"
begin

lemma all_or_nothing:
  assumes "idle s" and "\<And>x t. m (enter s) = (Inr x, t) \<Longrightarrow> P (data t)"
  shows "data (snd (within m s)) = data s \<or> P (data (snd (within m s)))"
proof (cases "within m s")
  case (Pair r t)
  show ?thesis
  proof (cases r)
    case (Inl e)
    with undo [OF assms(1)] Pair assms(2) show ?thesis by fastforce
  next
    case (Inr x)
    with commit [OF assms(1)] Pair assms(2) show ?thesis by fastforce
  qed
qed

lemma keeps:
  assumes "\<And>s. P (data s) \<Longrightarrow> P (data (snd (m s)))" and "P (data s)"
  shows "P (data (snd (within m s)))"
proof (cases "idle s")
  case True
  have "P (data t)" if "m (enter s) = (Inr x, t)" for x t
    using assms(1) [of "enter s"] assms(2) that by (simp add: enter_data)
  then have "data (snd (within m s)) = data s \<or> P (data (snd (within m s)))"
    by (rule all_or_nothing [OF True])
  with assms(2) show ?thesis by auto
next
  case False
  with nested assms show ?thesis by simp
qed

end

definition tx_enter :: "world \<Rightarrow> world" where
  "tx_enter w = w\<lparr>w_step := Suc (w_step w), w_tx := TxOpen\<rparr>"

definition tx_idle :: "world \<Rightarrow> bool" where
  "tx_idle w \<longleftrightarrow> w_tx w = NoTx"

interpretation tx: unit_of_work "WithinTransaction E" tx_enter w_db tx_idle for E
proof
  fix s t :: world and m :: "(world, gerr, 'a) act" and x e
  show "w_db (tx_enter s) = w_db s" by (simp add: tx_enter_def)
  show "\<exists>t'. m (tx_enter s) = (Inr x, t') \<and> w_db t = w_db t'"
    if "tx_idle s" "WithinTransaction E m s = (Inr x, t)"
    using that
    by (auto simp: WithinTransaction_def tx_idle_def tx_enter_def Let_def
        split: option.splits prod.splits sum.splits commit_outcome.splits if_splits)
  show "w_db t = w_db s \<or> (\<exists>x t'. m (tx_enter s) = (Inr x, t') \<and> w_db t = w_db t')"
    if "tx_idle s" "WithinTransaction E m s = (Inl e, t)"
    using that
    by (auto simp: WithinTransaction_def tx_idle_def tx_enter_def Let_def
        split: option.splits prod.splits sum.splits commit_outcome.splits if_splits)
  show "WithinTransaction E m s = m s" if "\<not> tx_idle s"
    using that by (simp add: WithinTransaction_def tx_idle_def)
qed

lemma preserves_tx [pres]:
  "preserves (on_db P) m \<Longrightarrow> preserves (on_db P) (WithinTransaction E m)"
  using tx.keeps [where P = P and m = m and E = E] by (simp add: preserves_def on_db_def)

text \<open>Without faults a transaction whose body succeeds commits.\<close>

lemma WithinTransaction_ok:
  assumes "w_tx w = NoTx" and "e_db E (w_step w) = None" and "m (tx_enter w) = (Inr x, w2)"
    and "w_tx w2 = TxOpen" and "e_commit E (w_step w2) = Committed"
  shows "WithinTransaction E m w = (Inr x, w2\<lparr>w_step := Suc (w_step w2), w_tx := NoTx\<rparr>)"
  using assms by (simp add: WithinTransaction_def tx_enter_def Let_def)

section \<open>Inspecting an error\<close>

text \<open>
  \<open>x, err := m(); if err != nil { h(err) } else { k(x) }\<close>. A panic is not an error value: it
  unwinds past the test.
\<close>

definition catchE ::
  "(world, gerr, 'a) act \<Rightarrow> (gerr \<Rightarrow> (world, gerr, 'b) act) \<Rightarrow> ('a \<Rightarrow> (world, gerr, 'b) act) \<Rightarrow> (world, gerr, 'b) act"
  where
  "catchE m h k w =
     (case m w of
        (Inl e, w') \<Rightarrow> if e = Panicked then (Inl Panicked, w') else h e w'
      | (Inr x, w') \<Rightarrow> k x w')"

lemma catchE_Inr [simp]: "m w = (Inr x, w') \<Longrightarrow> catchE m h k w = k x w'"
  by (simp add: catchE_def)

lemma catchE_Inl [simp]: "m w = (Inl e, w') \<Longrightarrow> e \<noteq> Panicked \<Longrightarrow> catchE m h k w = h e w'"
  by (simp add: catchE_def)

lemma catchE_InrE:
  assumes "catchE m h k w = (Inr y, t)"
  obtains (err) e w' where "m w = (Inl e, w')" and "e \<noteq> Panicked" and "h e w' = (Inr y, t)"
  | (ok) x w' where "m w = (Inr x, w')" and "k x w' = (Inr y, t)"
  using assms by (auto simp: catchE_def split: prod.splits sum.splits if_splits)

lemma preserves_catchE [pres]:
  assumes "preserves I m" and "\<And>e. preserves I (h e)" and "\<And>x. preserves I (k x)"
  shows "preserves I (catchE m h k)"
proof (rule preservesI)
  fix s assume "I s"
  obtain r t where m: "m s = (r, t)" by (cases "m s")
  with assms(1) \<open>I s\<close> have "I t" by (rule preserves_run)
  then show "I (snd (catchE m h k s))"
    using assms(2,3) by (cases r) (auto simp: catchE_def m preserves_def)
qed

text \<open>Errors of \<^verbatim>\<open>platform/secure\<close> as the callers see them.\<close>

definition from_secure :: "secure_error + 'a \<Rightarrow> gerr + 'a" where
  "from_secure r = (case r of Inl e \<Rightarrow> Inl (External ''secure: read random'') | Inr x \<Rightarrow> Inr x)"

definition from_password :: "password_error + 'a \<Rightarrow> gerr + 'a" where
  "from_password r =
     (case r of
        Inl PanicKdf \<Rightarrow> Inl Panicked
      | Inl ErrUnknownHashFormat \<Rightarrow> Inl (External ''secure: unknown password hash format'')
      | Inl ErrBcrypt \<Rightarrow> Inl (External ''secure: bcrypt'')
      | Inl ErrSalt \<Rightarrow> Inl (External ''secure: salt'')
      | Inr x \<Rightarrow> Inr x)"

text \<open>\<open>UUIDGenerator.NewID\<close>: \<open>secure.UUIDv7\<close> reads ten random bytes, then the clock.\<close>

definition UUIDGenerator_NewID :: "env \<Rightarrow> (world, gerr, string) act" where
  "UUIDGenerator_NewID E =
     andThen (rand_Read E 10) (\<lambda>raw.
       case raw of
         None \<Rightarrow> liftE (from_secure (sec_UUIDv7 0 None))
       | Some bs \<Rightarrow> andThen (clock_Now E) (\<lambda>t. liftE (from_secure (sec_UUIDv7 (of_int (t div 1000)) (Some bs)))))"

lemma preserves_NewID [pres]: "preserves (on_db P) (UUIDGenerator_NewID E)"
  unfolding UUIDGenerator_NewID_def by (intro pres)

lemma NewID_ok:
  "e_rand E (w_step w) = Some f \<Longrightarrow>
   UUIDGenerator_NewID E w =
     (Inr (uuid_text (uuid7_bytes (of_int (e_now E (Suc (w_step w)) div 1000)) (map f [0..<10]))),
      w\<lparr>w_step := Suc (Suc (w_step w))\<rparr>)"
  by (simp add: UUIDGenerator_NewID_def andThen_def from_secure_def sec_UUIDv7_def)

lemma NewID_Inr:
  "UUIDGenerator_NewID E w = (Inr x, w') \<Longrightarrow>
   \<exists>ms r. x = uuid_text (uuid7_bytes ms r) \<and> length r = 10 \<and> w' = w\<lparr>w_step := Suc (Suc (w_step w))\<rparr>"
  by (cases "e_rand E (w_step w)")
    (auto simp: UUIDGenerator_NewID_def andThen_def from_secure_def sec_UUIDv7_def intro!: exI
      [of _ "map f [0..<10]" for f])

text \<open>
  \<open>uuidFromString\<close> and \<open>uuidToString\<close> of the modules' \<^verbatim>\<open>support.go\<close>; the columns are \<^verbatim>\<open>NOT NULL\<close>,
  so the \<open>Valid\<close> flag is set on every row read.
\<close>

definition uuidFromString :: "env \<Rightarrow> string \<Rightarrow> gerr + uuid" where
  "uuidFromString E raw =
     (case e_uuid_scan E raw of
        None \<Rightarrow> Inl (Wrapped (''parse uuid '' @ raw) (External ''cannot parse UUID''))
      | Some bytes \<Rightarrow> Inr (map bytes [0..<16]))"

definition uuidToString :: "uuid \<Rightarrow> string" where
  "uuidToString u =
     hex_encode (take 4 u) @ ''-'' @ hex_encode (take 2 (drop 4 u)) @ ''-'' @
     hex_encode (take 2 (drop 6 u)) @ ''-'' @ hex_encode (take 2 (drop 8 u)) @ ''-'' @
     hex_encode (drop 10 u)"

lemma uuidToString_text: "uuidToString = uuid_text"
  by (simp add: fun_eq_iff uuidToString_def uuid_text_def)

text \<open>
  What the modules rely on of \<^verbatim>\<open>pgtype.UUID.Scan\<close>: it reads back the canonical text of every
  sixteen-byte value. Its result is an array of sixteen bytes, by its type.
\<close>

definition scan_reads_text :: "env \<Rightarrow> bool" where
  "scan_reads_text E \<longleftrightarrow> (\<forall>u. length u = 16 \<longrightarrow> uuidFromString E (uuid_text u) = Inr u)"

lemma length_uuidFromString: "uuidFromString E s = Inr u \<Longrightarrow> length u = 16"
  by (auto simp: uuidFromString_def split: option.splits)

lemma preserves_uuid:
  "(\<And>u. length u = 16 \<Longrightarrow> preserves I (f u)) \<Longrightarrow> preserves I (andThen (liftE (uuidFromString E s)) f)"
  by (cases "uuidFromString E s") (auto simp: preserves_def andThen_def dest: length_uuidFromString)

lemma length_uuid7: "length r = 10 \<Longrightarrow> length (uuid7_bytes ms r) = 16"
  by (simp add: uuid7_bytes_def Let_def be64_def)

end
