(* ===== verification/Redis.thy ===== *)
theory Redis
  imports Postgres
begin

text \<open>
  The Redis commands the services issue, on a store that maps a key to a value and its optional
  expiry, evaluated at the server's time. Redis is not under src/; these are the documented
  effects of \<^verbatim>\<open>GET\<close>, \<^verbatim>\<open>SET\<close>, \<^verbatim>\<open>SETNX\<close>, \<^verbatim>\<open>DEL\<close>, \<^verbatim>\<open>INCR\<close> and \<^verbatim>\<open>EXPIRE\<close>, gathered as the laws of
  an expiring store in a locale so that the adapters' lemmas rest on the laws only.
\<close>

definition r_get :: "int \<Rightarrow> string \<Rightarrow> redis \<Rightarrow> rval option" where
  "r_get t k s =
     (case s k of
        None \<Rightarrow> None
      | Some (v, None) \<Rightarrow> Some v
      | Some (v, Some x) \<Rightarrow> if t < x then Some v else None)"

definition r_set :: "int \<Rightarrow> string \<Rightarrow> rval \<Rightarrow> int \<Rightarrow> redis \<Rightarrow> redis" where
  "r_set t k v ttl s = s(k \<mapsto> (v, if 0 < ttl then Some (t + ttl) else None))"

definition r_del :: "string \<Rightarrow> redis \<Rightarrow> redis" where
  "r_del k s = s(k := None)"

definition r_setnx :: "int \<Rightarrow> string \<Rightarrow> rval \<Rightarrow> int \<Rightarrow> redis \<Rightarrow> bool \<times> redis" where
  "r_setnx t k v ttl s = (if r_get t k s = None then (True, r_set t k v ttl s) else (False, s))"

definition r_incr :: "int \<Rightarrow> string \<Rightarrow> redis \<Rightarrow> (gerr + int) \<times> redis" where
  "r_incr t k s =
     (case r_get t k s of
        None \<Rightarrow> (Inr 1, s(k \<mapsto> (RInt 1, None)))
      | Some (RInt i) \<Rightarrow> (Inr (i + 1), s(k \<mapsto> (RInt (i + 1), snd (the (s k)))))
      | Some _ \<Rightarrow> (Inl (External ''ERR value is not an integer or out of range''), s))"

definition r_expire :: "int \<Rightarrow> string \<Rightarrow> int \<Rightarrow> redis \<Rightarrow> redis" where
  "r_expire t k ttl s =
     (case r_get t k s of None \<Rightarrow> s | Some v \<Rightarrow> s(k \<mapsto> (v, Some (t + ttl))))"

lemma r_get_upd: "r_get t k (s(k \<mapsto> (v, Some x))) = (if t < x then Some v else None)"
  and r_get_upd_other: "k \<noteq> k' \<Longrightarrow> r_get t k' (s(k \<mapsto> e)) = r_get t k' s"
  and r_get_none: "s k = None \<Longrightarrow> r_get t k s = None"
  by (simp_all add: r_get_def)

section \<open>The laws of an expiring store\<close>

locale expiring_store =
  fixes get :: "int \<Rightarrow> 'k \<Rightarrow> 's \<Rightarrow> 'v option"
    and put :: "int \<Rightarrow> 'k \<Rightarrow> 'v \<Rightarrow> int \<Rightarrow> 's \<Rightarrow> 's"
    and del :: "'k \<Rightarrow> 's \<Rightarrow> 's"
  assumes get_put: "0 < ttl \<Longrightarrow> get t' k (put t k v ttl s) = (if t' < t + ttl then Some v else None)"
    and get_put_other: "k \<noteq> k' \<Longrightarrow> get t' k' (put t k v ttl s) = get t' k' s"
    and get_del: "get t' k (del k s) = None"
    and get_del_other: "k \<noteq> k' \<Longrightarrow> get t' k' (del k s) = get t' k' s"
begin

text \<open>An entry and an index entry that leads to it, stored together and dropped together.\<close>

definition put_indexed :: "int \<Rightarrow> 'k \<Rightarrow> 'v \<Rightarrow> 'k \<Rightarrow> 'v \<Rightarrow> int \<Rightarrow> 's \<Rightarrow> 's" where
  "put_indexed t k v i w ttl s = put t i w ttl (put t k v ttl s)"

lemma indexed_entry:
  "k \<noteq> i \<Longrightarrow> 0 < ttl \<Longrightarrow> t' < t + ttl \<Longrightarrow>
   get t' k (put_indexed t k v i w ttl s) = Some v \<and> get t' i (put_indexed t k v i w ttl s) = Some w"
  by (simp add: put_indexed_def get_put get_put_other)

lemma dropped_entry: "get t' k (del i (del k s)) = None \<and> get t' i (del i (del k s)) = None"
  by (cases "k = i") (simp_all add: get_del get_del_other)

lemma untouched: "k \<noteq> a \<Longrightarrow> k \<noteq> b \<Longrightarrow> get t' k (del b (del a s)) = get t' k s"
  by (simp add: get_del_other)

end

locale expiring_lock = expiring_store get put del
  for get :: "int \<Rightarrow> 'k \<Rightarrow> 's \<Rightarrow> 'v option" and put and del +
  fixes putnx :: "int \<Rightarrow> 'k \<Rightarrow> 'v \<Rightarrow> int \<Rightarrow> 's \<Rightarrow> bool \<times> 's"
  assumes putnx: "putnx t k v ttl s = (if get t k s = None then (True, put t k v ttl s) else (False, s))"
begin

lemma acquired_holds:
  "putnx t k v ttl s = (True, s') \<Longrightarrow> 0 < ttl \<Longrightarrow> t' < t + ttl \<Longrightarrow> get t' k s' = Some v"
  by (auto simp: putnx get_put split: if_splits)

lemma held_excludes: "get t k s = Some v \<Longrightarrow> putnx t k w ttl s = (False, s)"
  by (simp add: putnx)

lemma other_keys: "putnx t k v ttl s = (b, s') \<Longrightarrow> k \<noteq> k' \<Longrightarrow> get t' k' s' = get t' k' s"
  by (auto simp: putnx get_put_other split: if_splits)

end

interpretation rs: expiring_lock r_get r_set r_del r_setnx
  by unfold_locales (simp_all add: r_get_def r_set_def r_del_def r_setnx_def)

section \<open>Calls to the server\<close>

definition redis_call :: "env \<Rightarrow> (int \<Rightarrow> redis \<Rightarrow> (gerr + 'a) \<times> redis) \<Rightarrow> (world, gerr, 'a) act" where
  "redis_call E f w =
     (let n = w_step w; w1 = w\<lparr>w_step := Suc n\<rparr> in
      case e_redis E n of
        Some t \<Rightarrow> (Inl (External t), w1)
      | None \<Rightarrow> (case f (e_now E n) (w_redis w) of (r, s) \<Rightarrow> (r, w1\<lparr>w_redis := s\<rparr>)))"

definition redis_Nil :: gerr where
  "redis_Nil = External ''redis: nil''"

definition redis_Get :: "env \<Rightarrow> string \<Rightarrow> (world, gerr, rval) act" where
  "redis_Get E k =
     redis_call E (\<lambda>t s. (case r_get t k s of None \<Rightarrow> Inl redis_Nil | Some v \<Rightarrow> Inr v, s))"

definition redis_Set :: "env \<Rightarrow> string \<Rightarrow> rval \<Rightarrow> int \<Rightarrow> (world, gerr, unit) act" where
  "redis_Set E k v ttl = redis_call E (\<lambda>t s. (Inr (), r_set t k v ttl s))"

definition redis_Publish :: "env \<Rightarrow> string \<Rightarrow> string \<Rightarrow> (world, gerr, unit) act" where
  "redis_Publish E ch msg w =
     (let n = w_step w; w1 = w\<lparr>w_step := Suc n\<rparr> in
      case e_redis E n of
        Some t \<Rightarrow> (Inl (External t), w1)
      | None \<Rightarrow> (Inr (), w1\<lparr>w_pubsub := w_pubsub w @ [(ch, msg)]\<rparr>))"

text \<open>A call whose error the code drops.\<close>

definition ignore :: "(world, gerr, 'a) act \<Rightarrow> (world, 'e, unit) act" where
  "ignore m = andThen (attempt m) (\<lambda>_. ret ())"

lemma redis_call_db [simp]:
  "w_db (snd (redis_call E f w)) = w_db w" "w_tx (snd (redis_call E f w)) = w_tx w"
  "w_step (snd (redis_call E f w)) = Suc (w_step w)"
  by (simp_all add: redis_call_def Let_def split: option.splits prod.splits)

lemma redis_Publish_db [simp]:
  "w_db (snd (redis_Publish E c m w)) = w_db w" "w_redis (snd (redis_Publish E c m w)) = w_redis w"
  by (simp_all add: redis_Publish_def Let_def split: option.splits)

lemma preserves_redis_call [pres]: "preserves (on_db P) (redis_call E f)"
  and preserves_redis_Get [pres]: "preserves (on_db P) (redis_Get E k)"
  and preserves_redis_Set [pres]: "preserves (on_db P) (redis_Set E k v ttl)"
  and preserves_redis_Publish [pres]: "preserves (on_db P) (redis_Publish E c m)"
  by (simp_all add: preserves_def on_db_def redis_Get_def redis_Set_def)

lemma preserves_ignore [pres]: "preserves I m \<Longrightarrow> preserves I (ignore m)"
  unfolding ignore_def by (intro pres)

lemma ignore_simp [simp]: "ignore m w = (Inr (), snd (m w))"
  by (simp add: ignore_def andThen_def)

lemma redis_call_Inr:
  "redis_call E f w = (Inr x, w') \<Longrightarrow>
   e_redis E (w_step w) = None \<and> fst (f (e_now E (w_step w)) (w_redis w)) = Inr x \<and>
   w' = w\<lparr>w_step := Suc (w_step w), w_redis := snd (f (e_now E (w_step w)) (w_redis w))\<rparr>"
  by (auto simp: redis_call_def Let_def split: option.splits prod.splits)

end
