(* ===== verification/IdentityDomain.thy ===== *)
theory IdentityDomain
  imports Redis
begin

text \<open>
  The identity module's core (\<^verbatim>\<open>modules/identity/domain\<close>): value objects, the \<open>User\<close> aggregate
  with the events it records, refresh tokens, one-time codes and API keys.
\<close>

section \<open>Value objects\<close>

definition NewEmail :: "env \<Rightarrow> string \<Rightarrow> gerr + string" where
  "NewEmail E raw =
     (let trimmed = trim_space (to_lower (e_ulower E) raw) in
      case e_parse_address E trimmed of
        None \<Rightarrow> Inl ErrInvalidEmail
      | Some addr \<Rightarrow> if addr \<noteq> trimmed then Inl ErrInvalidEmail else Inr trimmed)"

text \<open>The shape test both modules apply to ids: 36 bytes, dashes at 8, 13, 18 and 23.\<close>

definition uuid_shape :: "string \<Rightarrow> bool" where
  "uuid_shape raw \<longleftrightarrow> \<not> (length raw \<noteq> 36 \<or> raw ! 8 \<noteq> CHR ''-'' \<or> raw ! 13 \<noteq> CHR ''-''
     \<or> raw ! 18 \<noteq> CHR ''-'' \<or> raw ! 23 \<noteq> CHR ''-'')"

definition NewUserID :: "string \<Rightarrow> gerr + string" where
  "NewUserID raw = (if \<not> uuid_shape raw then Inl ErrInvalidUserID else Inr raw)"

section \<open>The User aggregate\<close>

definition StatusActive :: string where "StatusActive = ''active''"
definition StatusDisabled :: string where "StatusDisabled = ''disabled''"

record user =
  u_id :: string
  u_email :: string
  u_passwordHash :: string
  u_fullName :: string
  u_role :: string
  u_status :: string
  u_version :: int
  u_createdAt :: int
  u_updatedAt :: int
  u_events :: "identity_event list"

definition NewUser :: "string \<Rightarrow> string \<Rightarrow> string \<Rightarrow> string \<Rightarrow> int \<Rightarrow> gerr + user" where
  "NewUser uid email hash fullName now =
     (if fullName = [] then Inl ErrMissingName
      else Inr \<lparr>u_id = uid, u_email = email, u_passwordHash = hash, u_fullName = fullName,
                u_role = ''user'', u_status = StatusActive, u_version = 1,
                u_createdAt = now, u_updatedAt = now,
                u_events = [UserRegistered uid email fullName ''user'' now]\<rparr>)"

definition UserFromState ::
  "string \<Rightarrow> string \<Rightarrow> string \<Rightarrow> string \<Rightarrow> string \<Rightarrow> string \<Rightarrow> int \<Rightarrow> int \<Rightarrow> int \<Rightarrow> user" where
  "UserFromState uid email hash fullName role status version createdAt updatedAt =
     \<lparr>u_id = uid, u_email = email, u_passwordHash = hash, u_fullName = fullName, u_role = role,
      u_status = status, u_version = version, u_createdAt = createdAt, u_updatedAt = updatedAt,
      u_events = []\<rparr>"

definition CanSignIn :: "user \<Rightarrow> bool" where
  "CanSignIn u \<longleftrightarrow> u_status u = StatusActive"

definition User_ChangePassword :: "string \<Rightarrow> int \<Rightarrow> user \<Rightarrow> user" where
  "User_ChangePassword newHash now u =
     u\<lparr>u_passwordHash := newHash, u_updatedAt := now,
       u_events := u_events u @ [PasswordChanged (u_id u) now]\<rparr>"

definition User_ChangeRole :: "string \<Rightarrow> int \<Rightarrow> user \<Rightarrow> gerr + user" where
  "User_ChangeRole role now u =
     (if role = [] \<or> 50 < length role then Inl ErrInvalidRole
      else Inr (u\<lparr>u_role := role, u_updatedAt := now,
                  u_events := u_events u @ [RoleChanged (u_id u) role now]\<rparr>))"

text \<open>\<open>PullEvents\<close> returns the recorded events and the aggregate without them.\<close>

definition User_PullEvents :: "user \<Rightarrow> identity_event list \<times> user" where
  "User_PullEvents u = (u_events u, u\<lparr>u_events := []\<rparr>)"

fun identity_Subject :: "identity_event \<Rightarrow> string" where
  "identity_Subject (UserRegistered u e n r t) = ''identity.user.registered''"
| "identity_Subject (PasswordChanged u t) = ''identity.user.password_changed''"
| "identity_Subject (RoleChanged u r t) = ''identity.user.role_changed''"
| "identity_Subject (PasswordResetRequested u t) = ''identity.user.password_reset_requested''"
| "identity_Subject (EmailVerified u t) = ''identity.user.email_verified''"
| "identity_Subject (APIKeyCreated u k n t) = ''identity.apikey.created''"
| "identity_Subject (APIKeyRevoked u k t) = ''identity.apikey.revoked''"

section \<open>Sessions, codes and keys\<close>

record refresh_token =
  rt_id :: string
  rt_userID :: string
  rt_tokenHash :: string
  rt_expiresAt :: int
  rt_revokedAt :: "int option"
  rt_createdAt :: int

definition NewRefreshToken :: "string \<Rightarrow> string \<Rightarrow> string \<Rightarrow> int \<Rightarrow> int \<Rightarrow> refresh_token" where
  "NewRefreshToken tid userID hash expiresAt now =
     \<lparr>rt_id = tid, rt_userID = userID, rt_tokenHash = hash, rt_expiresAt = expiresAt,
      rt_revokedAt = None, rt_createdAt = now\<rparr>"

definition RefreshTokenFromState ::
  "string \<Rightarrow> string \<Rightarrow> string \<Rightarrow> int \<Rightarrow> int option \<Rightarrow> int \<Rightarrow> refresh_token" where
  "RefreshTokenFromState tid userID hash expiresAt revokedAt createdAt =
     \<lparr>rt_id = tid, rt_userID = userID, rt_tokenHash = hash, rt_expiresAt = expiresAt,
      rt_revokedAt = revokedAt, rt_createdAt = createdAt\<rparr>"

definition RefreshToken_IsActive :: "int \<Rightarrow> refresh_token \<Rightarrow> bool" where
  "RefreshToken_IsActive now t \<longleftrightarrow> rt_revokedAt t = None \<and> now < rt_expiresAt t"

datatype otp_purpose = OTPPasswordReset | OTPEmailVerify

fun purpose_string :: "otp_purpose \<Rightarrow> string" where
  "purpose_string OTPPasswordReset = ''password_reset''"
| "purpose_string OTPEmailVerify = ''email_verify''"

lemma purpose_string_inj: "purpose_string a = purpose_string b \<longleftrightarrow> a = b"
  by (cases a; cases b) simp_all

record otp =
  o_id :: string
  o_userID :: string
  o_purpose :: string
  o_codeHash :: string
  o_expiresAt :: int
  o_consumedAt :: "int option"
  o_createdAt :: int

definition NewOTP :: "string \<Rightarrow> string \<Rightarrow> otp_purpose \<Rightarrow> string \<Rightarrow> int \<Rightarrow> int \<Rightarrow> otp" where
  "NewOTP oid userID purpose hash expiresAt now =
     \<lparr>o_id = oid, o_userID = userID, o_purpose = purpose_string purpose, o_codeHash = hash,
      o_expiresAt = expiresAt, o_consumedAt = None, o_createdAt = now\<rparr>"

definition OTPFromState ::
  "string \<Rightarrow> string \<Rightarrow> string \<Rightarrow> string \<Rightarrow> int \<Rightarrow> int option \<Rightarrow> int \<Rightarrow> otp" where
  "OTPFromState oid userID purpose hash expiresAt consumedAt createdAt =
     \<lparr>o_id = oid, o_userID = userID, o_purpose = purpose, o_codeHash = hash,
      o_expiresAt = expiresAt, o_consumedAt = consumedAt, o_createdAt = createdAt\<rparr>"

definition OTP_IsActive :: "int \<Rightarrow> otp \<Rightarrow> bool" where
  "OTP_IsActive now c \<longleftrightarrow> o_consumedAt c = None \<and> now < o_expiresAt c"

record api_key =
  k_id :: string
  k_userID :: string
  k_name :: string
  k_keyHash :: string
  k_prefix :: string
  k_createdAt :: int
  k_revokedAt :: "int option"

definition NewAPIKey :: "string \<Rightarrow> string \<Rightarrow> string \<Rightarrow> string \<Rightarrow> string \<Rightarrow> int \<Rightarrow> api_key" where
  "NewAPIKey kid userID name hash prefix now =
     \<lparr>k_id = kid, k_userID = userID, k_name = name, k_keyHash = hash, k_prefix = prefix,
      k_createdAt = now, k_revokedAt = None\<rparr>"

definition APIKeyFromState ::
  "string \<Rightarrow> string \<Rightarrow> string \<Rightarrow> string \<Rightarrow> string \<Rightarrow> int \<Rightarrow> int option \<Rightarrow> api_key" where
  "APIKeyFromState kid userID name hash prefix createdAt revokedAt =
     \<lparr>k_id = kid, k_userID = userID, k_name = name, k_keyHash = hash, k_prefix = prefix,
      k_createdAt = createdAt, k_revokedAt = revokedAt\<rparr>"

definition APIKey_IsActive :: "api_key \<Rightarrow> bool" where
  "APIKey_IsActive k \<longleftrightarrow> k_revokedAt k = None"

definition APIKey_Revoked :: "api_key \<Rightarrow> bool" where
  "APIKey_Revoked k \<longleftrightarrow> k_revokedAt k \<noteq> None"

section \<open>Canonical emails\<close>

lemma NewEmail_Inr: "NewEmail E raw = Inr e \<Longrightarrow> e = trim_space (to_lower (e_ulower E) raw) \<and> e_parse_address E e = Some e"
  by (auto simp: NewEmail_def Let_def split: option.splits if_splits)

lemma trim_left_subset: "set (trim_left s) \<subseteq> set s"
proof (induction s rule: trim_left.induct)
  case (1 s)
  show ?case
  proof (cases "s \<noteq> [] \<and> is_space (fst (decode_rune s))")
    case True
    with 1 have "set (trim_left s) \<subseteq> set (drop (snd (decode_rune s)) s)"
      by (subst trim_left.simps) simp
    then show ?thesis using set_drop_subset by fast
  qed (auto simp: trim_left_stop trim_left.simps [of s])
qed

lemma trim_space_subset: "set (trim_space s) \<subseteq> set s"
  using trim_right_prefix [of "trim_left s"] trim_left_subset [of s]
  by (auto simp: trim_space_def) (metis UnI1 set_append subsetD)

lemma ascii_lower_idem: "ascii_lower (ascii_lower c) = ascii_lower c"
  by (simp add: ascii_lower_def byte_of_def)

lemma ascii_lower_ascii: "byte_of c < 128 \<Longrightarrow> byte_of (ascii_lower c) < 128"
  by (simp add: ascii_lower_def byte_of_def)

text \<open>
  A canonical email is a fixed point. Whatever ASCII spelling a client submits, the email
  that is accepted is accepted again unchanged, so a stored address rehydrates to itself and
  every spelling of one address leads to one row.
\<close>

theorem email_canonical_fixed:
  assumes "is_ascii raw" and "NewEmail E raw = Inr e"
  shows "NewEmail E e = Inr e"
proof -
  have e: "e = trim_space (map ascii_lower raw)" and ok: "e_parse_address E e = Some e"
    using NewEmail_Inr [OF assms(2)] assms(1) by (auto simp: to_lower_def)
  have "c \<in> ascii_lower ` set raw" if "c \<in> set e" for c
    using that trim_space_subset [of "map ascii_lower raw"] by (auto simp: e)
  then have "ascii_lower c = c \<and> byte_of c < 128" if "c \<in> set e" for c
    using that assms(1) by (fastforce simp: ascii_lower_idem ascii_lower_ascii is_ascii_def)
  then have "to_lower (e_ulower E) e = e"
    by (simp add: to_lower_def is_ascii_def map_idI)
  moreover have "trim_space e = e" by (simp add: e trim_space_idem)
  ultimately show ?thesis by (simp add: NewEmail_def ok)
qed

end
