(* ===== verification/IdentitySQL.thy ===== *)
theory IdentitySQL
  imports IdentityDomain
begin

text \<open>
  The statements of \<^verbatim>\<open>gen/db/identity.sql.go\<close> on the tables of the \<^verbatim>\<open>identity\<close> schema, with the
  constraints of its migrations: primary keys, unique emails and hashes, foreign keys to
  users. An \<open>:execrows\<close> statement returns the number of rows it changed. Rows with equal sort
  keys come in table order, one of the orders Postgres may return.
\<close>

definition uniqueViolation :: string where "uniqueViolation = ''23505''"

definition dup_key :: gerr where
  "dup_key = PgError uniqueViolation ''duplicate key value violates unique constraint''"

definition fk_error :: gerr where
  "fk_error = PgError ''23503'' ''insert or update on table violates foreign key constraint''"

definition CreateUser :: "user_row \<Rightarrow> db \<Rightarrow> (gerr + unit) \<times> db" where
  "CreateUser r d =
     (if \<exists>x \<in> set (d_users d). ur_id x = ur_id r \<or> ur_email x = ur_email r then (Inl dup_key, d)
      else (Inr (), d\<lparr>d_users := d_users d @ [r\<lparr>ur_email_verified_at := None\<rparr>]\<rparr>))"

definition GetUserByEmail :: "string \<Rightarrow> db \<Rightarrow> user_row option" where
  "GetUserByEmail email d = find (\<lambda>r. ur_email r = email) (d_users d)"

definition GetUserByID :: "uuid \<Rightarrow> db \<Rightarrow> user_row option" where
  "GetUserByID uid d = find (\<lambda>r. ur_id r = uid) (d_users d)"

definition UpdateUser ::
  "uuid \<Rightarrow> string \<Rightarrow> string \<Rightarrow> string \<Rightarrow> string \<Rightarrow> int \<Rightarrow> int \<Rightarrow> db \<Rightarrow> (gerr + nat) \<times> db" where
  "UpdateUser uid hash name role status updated version d =
     (let p = (\<lambda>r. ur_id r = uid \<and> ur_version r = version) in
      (Inr (count_rows p (d_users d)),
       d\<lparr>d_users := update_rows p
            (\<lambda>r. r\<lparr>ur_password_hash := hash, ur_full_name := name, ur_role := role, ur_status := status,
                   ur_version := ur_version r + 1, ur_updated_at := updated\<rparr>) (d_users d)\<rparr>))"

definition SetEmailVerified :: "uuid \<Rightarrow> int \<Rightarrow> db \<Rightarrow> (gerr + unit) \<times> db" where
  "SetEmailVerified uid at d =
     (Inr (), d\<lparr>d_users := update_rows (\<lambda>r. ur_id r = uid \<and> ur_email_verified_at r = None)
        (\<lambda>r. r\<lparr>ur_email_verified_at := Some at, ur_version := ur_version r + 1, ur_updated_at := at\<rparr>)
        (d_users d)\<rparr>)"

definition SetUserRoleByEmail :: "string \<Rightarrow> string \<Rightarrow> int \<Rightarrow> db \<Rightarrow> (gerr + nat) \<times> db" where
  "SetUserRoleByEmail email role at d =
     (let p = (\<lambda>r. ur_email r = email) in
      (Inr (count_rows p (d_users d)),
       d\<lparr>d_users := update_rows p
            (\<lambda>r. r\<lparr>ur_role := role, ur_version := ur_version r + 1, ur_updated_at := at\<rparr>) (d_users d)\<rparr>))"

definition known_user :: "uuid \<Rightarrow> db \<Rightarrow> bool" where
  "known_user uid d \<longleftrightarrow> uid \<in> ur_id ` set (d_users d)"

definition CreateRefreshToken :: "uuid \<Rightarrow> uuid \<Rightarrow> string \<Rightarrow> int \<Rightarrow> int \<Rightarrow> db \<Rightarrow> (gerr + unit) \<times> db" where
  "CreateRefreshToken tid uid hash expires created d =
     (if \<exists>x \<in> set (d_refresh d). rr_id x = tid \<or> rr_token_hash x = hash then (Inl dup_key, d)
      else if \<not> known_user uid d then (Inl fk_error, d)
      else (Inr (), d\<lparr>d_refresh := d_refresh d @ [\<lparr>rr_id = tid, rr_user_id = uid, rr_token_hash = hash,
              rr_expires_at = expires, rr_revoked_at = None, rr_created_at = created\<rparr>]\<rparr>))"

definition GetRefreshTokenByHash :: "string \<Rightarrow> db \<Rightarrow> refresh_row option" where
  "GetRefreshTokenByHash hash d = find (\<lambda>r. rr_token_hash r = hash) (d_refresh d)"

definition RevokeRefreshToken :: "uuid \<Rightarrow> int \<Rightarrow> db \<Rightarrow> (gerr + unit) \<times> db" where
  "RevokeRefreshToken tid at d =
     (Inr (), d\<lparr>d_refresh := update_rows (\<lambda>r. rr_id r = tid \<and> rr_revoked_at r = None)
        (\<lambda>r. r\<lparr>rr_revoked_at := Some at\<rparr>) (d_refresh d)\<rparr>)"

definition RevokeAllRefreshTokensForUser :: "uuid \<Rightarrow> int \<Rightarrow> db \<Rightarrow> (gerr + unit) \<times> db" where
  "RevokeAllRefreshTokensForUser uid at d =
     (Inr (), d\<lparr>d_refresh := update_rows (\<lambda>r. rr_user_id r = uid \<and> rr_revoked_at r = None)
        (\<lambda>r. r\<lparr>rr_revoked_at := Some at\<rparr>) (d_refresh d)\<rparr>)"

definition CreateOTP :: "otp_row \<Rightarrow> db \<Rightarrow> (gerr + unit) \<times> db" where
  "CreateOTP r d =
     (if or_id r \<in> or_id ` set (d_otps d) then (Inl dup_key, d)
      else if \<not> known_user (or_user_id r) d then (Inl fk_error, d)
      else (Inr (), d\<lparr>d_otps := d_otps d @ [r\<lparr>or_consumed_at := None\<rparr>]\<rparr>))"

definition GetActiveOTP :: "uuid \<Rightarrow> string \<Rightarrow> int \<Rightarrow> db \<Rightarrow> otp_row option" where
  "GetActiveOTP uid purpose now d =
     (case sort_key (\<lambda>r. - or_created_at r)
             (filter (\<lambda>r. or_user_id r = uid \<and> or_purpose r = purpose \<and> or_consumed_at r = None \<and> now < or_expires_at r)
               (d_otps d)) of
        [] \<Rightarrow> None | r # rs \<Rightarrow> Some r)"

definition ConsumeOTP :: "uuid \<Rightarrow> int \<Rightarrow> db \<Rightarrow> (gerr + nat) \<times> db" where
  "ConsumeOTP oid at d =
     (let p = (\<lambda>r. or_id r = oid \<and> or_consumed_at r = None) in
      (Inr (count_rows p (d_otps d)),
       d\<lparr>d_otps := update_rows p (\<lambda>r. r\<lparr>or_consumed_at := Some at\<rparr>) (d_otps d)\<rparr>))"

definition CreateAPIKey :: "apikey_row \<Rightarrow> db \<Rightarrow> (gerr + unit) \<times> db" where
  "CreateAPIKey r d =
     (if \<exists>x \<in> set (d_api_keys d). kr_id x = kr_id r \<or> kr_key_hash x = kr_key_hash r then (Inl dup_key, d)
      else if \<not> known_user (kr_user_id r) d then (Inl fk_error, d)
      else (Inr (), d\<lparr>d_api_keys := d_api_keys d @ [r\<lparr>kr_revoked_at := None\<rparr>]\<rparr>))"

definition GetAPIKeyByHash :: "string \<Rightarrow> db \<Rightarrow> apikey_row option" where
  "GetAPIKeyByHash hash d = find (\<lambda>r. kr_key_hash r = hash) (d_api_keys d)"

definition ListAPIKeysForUser :: "uuid \<Rightarrow> db \<Rightarrow> apikey_row list" where
  "ListAPIKeysForUser uid d =
     sort_key (\<lambda>r. - kr_created_at r) (filter (\<lambda>r. kr_user_id r = uid) (d_api_keys d))"

definition RevokeAPIKey :: "uuid \<Rightarrow> uuid \<Rightarrow> int \<Rightarrow> db \<Rightarrow> (gerr + nat) \<times> db" where
  "RevokeAPIKey kid uid at d =
     (let p = (\<lambda>r. kr_id r = kid \<and> kr_user_id r = uid \<and> kr_revoked_at r = None) in
      (Inr (count_rows p (d_api_keys d)),
       d\<lparr>d_api_keys := update_rows p (\<lambda>r. r\<lparr>kr_revoked_at := Some at\<rparr>) (d_api_keys d)\<rparr>))"

definition InsertIdentityOutboxEvent :: "uuid \<Rightarrow> string \<Rightarrow> payload \<Rightarrow> int \<Rightarrow> db \<Rightarrow> (gerr + unit) \<times> db" where
  "InsertIdentityOutboxEvent oid subject payload at d =
     (if oid \<in> ob_id ` set (d_identity_outbox d) then (Inl dup_key, d)
      else (Inr (), d\<lparr>d_identity_outbox := d_identity_outbox d @ [\<lparr>ob_id = oid, ob_subject = subject,
              ob_payload = payload, ob_occurred_at = at, ob_published_at = None\<rparr>]\<rparr>))"

lemmas identity_sql = CreateUser_def GetUserByEmail_def GetUserByID_def UpdateUser_def SetEmailVerified_def
  SetUserRoleByEmail_def CreateRefreshToken_def GetRefreshTokenByHash_def RevokeRefreshToken_def
  RevokeAllRefreshTokensForUser_def CreateOTP_def GetActiveOTP_def ConsumeOTP_def CreateAPIKey_def
  GetAPIKeyByHash_def ListAPIKeysForUser_def RevokeAPIKey_def InsertIdentityOutboxEvent_def

section \<open>The invariant of the schema\<close>

definition identity_ok :: "db \<Rightarrow> bool" where
  "identity_ok d \<longleftrightarrow>
     distinct (map ur_id (d_users d)) \<and> distinct (map ur_email (d_users d)) \<and>
     distinct (map rr_id (d_refresh d)) \<and> distinct (map rr_token_hash (d_refresh d)) \<and>
     distinct (map or_id (d_otps d)) \<and>
     distinct (map kr_id (d_api_keys d)) \<and> distinct (map kr_key_hash (d_api_keys d)) \<and>
     distinct (map ob_id (d_identity_outbox d)) \<and>
     rr_user_id ` set (d_refresh d) \<subseteq> ur_id ` set (d_users d) \<and>
     or_user_id ` set (d_otps d) \<subseteq> ur_id ` set (d_users d) \<and>
     kr_user_id ` set (d_api_keys d) \<subseteq> ur_id ` set (d_users d) \<and>
     (\<forall>u \<in> ur_id ` set (d_users d) \<union> rr_id ` set (d_refresh d) \<union> or_id ` set (d_otps d) \<union> kr_id ` set (d_api_keys d).
        length u = 16)"

text \<open>Updates of other columns leave a key column as it was.\<close>

lemma image_update_rows:
  "(\<And>x. g (f x) = g x) \<Longrightarrow> g ` set (update_rows p f xs) = g ` set xs"
proof -
  assume "\<And>x. g (f x) = g x"
  then have "g (if p x then f x else x) = g x" for x by simp
  then show ?thesis by (simp only: update_rows_def set_map image_image)
qed

lemma identity_ok_statements:
  "length (ur_id r) = 16 \<Longrightarrow> db_keeps identity_ok (CreateUser r)"
  "db_keeps identity_ok (UpdateUser uid hash name role status updated version)"
  "db_keeps identity_ok (SetEmailVerified uid at)"
  "db_keeps identity_ok (SetUserRoleByEmail email role at)"
  "length tid = 16 \<Longrightarrow> db_keeps identity_ok (CreateRefreshToken tid uid hash expires at)"
  "db_keeps identity_ok (RevokeRefreshToken tid at)"
  "db_keeps identity_ok (RevokeAllRefreshTokensForUser uid at)"
  "length (or_id orow) = 16 \<Longrightarrow> db_keeps identity_ok (CreateOTP orow)"
  "db_keeps identity_ok (ConsumeOTP oid at)"
  "length (kr_id krow) = 16 \<Longrightarrow> db_keeps identity_ok (CreateAPIKey krow)"
  "db_keeps identity_ok (RevokeAPIKey kid uid at)"
  "db_keeps identity_ok (InsertIdentityOutboxEvent oid subject pl at)"
  by (auto simp: db_keeps_def identity_sql identity_ok_def known_user_def Let_def
      map_update_rows image_update_rows split: if_splits)

section \<open>Facts that only grow\<close>

text \<open>The session with this token hash has been revoked; a code has been consumed; a key has been revoked.\<close>

definition session_revoked :: "string \<Rightarrow> db \<Rightarrow> bool" where
  "session_revoked h d \<longleftrightarrow> (\<forall>r \<in> set (d_refresh d). rr_token_hash r = h \<longrightarrow> rr_revoked_at r \<noteq> None) \<and>
     h \<in> rr_token_hash ` set (d_refresh d)"

definition otp_consumed :: "uuid \<Rightarrow> db \<Rightarrow> bool" where
  "otp_consumed oid d \<longleftrightarrow> (\<forall>r \<in> set (d_otps d). or_id r = oid \<longrightarrow> or_consumed_at r \<noteq> None) \<and>
     oid \<in> or_id ` set (d_otps d)"

definition key_revoked :: "string \<Rightarrow> db \<Rightarrow> bool" where
  "key_revoked hash d \<longleftrightarrow> (\<forall>r \<in> set (d_api_keys d). kr_key_hash r = hash \<longrightarrow> kr_revoked_at r \<noteq> None) \<and>
     hash \<in> kr_key_hash ` set (d_api_keys d)"

lemmas identity_growing = session_revoked_def otp_consumed_def key_revoked_def

lemma ball_update_rows:
  "(\<forall>x \<in> set (update_rows p f xs). Q x) \<longleftrightarrow> (\<forall>x \<in> set xs. Q (if p x then f x else x))"
  by (auto simp: update_rows_def)

lemma session_revoked_statements:
  "db_keeps (session_revoked s) (CreateUser r)"
  "db_keeps (session_revoked s) (UpdateUser uid hash name role status updated version)"
  "db_keeps (session_revoked s) (SetEmailVerified uid at)"
  "db_keeps (session_revoked s) (CreateRefreshToken tid uid hash expires at)"
  "db_keeps (session_revoked s) (RevokeRefreshToken tid at)"
  "db_keeps (session_revoked s) (RevokeAllRefreshTokensForUser uid at)"
  "db_keeps (session_revoked s) (CreateOTP orow)"
  "db_keeps (session_revoked s) (ConsumeOTP oid at)"
  "db_keeps (session_revoked s) (CreateAPIKey krow)"
  "db_keeps (session_revoked s) (RevokeAPIKey kid uid at)"
  "db_keeps (session_revoked s) (InsertIdentityOutboxEvent oid subject pl at)"
  by (auto simp: db_keeps_def identity_sql identity_growing Let_def ball_update_rows image_update_rows
      split: if_splits)

lemma otp_consumed_statements:
  "db_keeps (otp_consumed s) (CreateUser r)"
  "db_keeps (otp_consumed s) (UpdateUser uid hash name role status updated version)"
  "db_keeps (otp_consumed s) (SetEmailVerified uid at)"
  "db_keeps (otp_consumed s) (CreateRefreshToken tid uid hash expires at)"
  "db_keeps (otp_consumed s) (RevokeRefreshToken tid at)"
  "db_keeps (otp_consumed s) (RevokeAllRefreshTokensForUser uid at)"
  "db_keeps (otp_consumed s) (CreateOTP orow)"
  "db_keeps (otp_consumed s) (ConsumeOTP oid at)"
  "db_keeps (otp_consumed s) (CreateAPIKey krow)"
  "db_keeps (otp_consumed s) (RevokeAPIKey kid uid at)"
  "db_keeps (otp_consumed s) (InsertIdentityOutboxEvent oid subject pl at)"
  by (auto simp: db_keeps_def identity_sql identity_growing Let_def ball_update_rows image_update_rows
      split: if_splits)

lemma key_revoked_statements:
  "db_keeps (key_revoked s) (CreateUser r)"
  "db_keeps (key_revoked s) (UpdateUser uid hash name role status updated version)"
  "db_keeps (key_revoked s) (SetEmailVerified uid at)"
  "db_keeps (key_revoked s) (CreateRefreshToken tid uid hash expires at)"
  "db_keeps (key_revoked s) (RevokeRefreshToken tid at)"
  "db_keeps (key_revoked s) (RevokeAllRefreshTokensForUser uid at)"
  "db_keeps (key_revoked s) (CreateOTP orow)"
  "db_keeps (key_revoked s) (ConsumeOTP oid at)"
  "db_keeps (key_revoked s) (CreateAPIKey krow)"
  "db_keeps (key_revoked s) (RevokeAPIKey kid uid at)"
  "db_keeps (key_revoked s) (InsertIdentityOutboxEvent oid subject pl at)"
  by (auto simp: db_keeps_def identity_sql identity_growing Let_def ball_update_rows image_update_rows
      split: if_splits)

lemma GetActiveOTP_Some:
  assumes "GetActiveOTP uid purpose now d = Some r"
  shows "r \<in> set (d_otps d) \<and> or_user_id r = uid \<and> or_purpose r = purpose \<and> or_consumed_at r = None \<and>
    now < or_expires_at r \<and>
    (\<forall>x \<in> set (d_otps d). or_user_id x = uid \<and> or_purpose x = purpose \<and> or_consumed_at x = None \<and>
       now < or_expires_at x \<longrightarrow> or_created_at x \<le> or_created_at r)"
proof -
  let ?ok = "\<lambda>r. or_user_id r = uid \<and> or_purpose r = purpose \<and> or_consumed_at r = None \<and> now < or_expires_at r"
  let ?s = "sort_key (\<lambda>r. - or_created_at r) (filter ?ok (d_otps d))"
  from assms obtain rs where s: "?s = r # rs" by (auto simp: GetActiveOTP_def split: list.splits)
  have set: "set ?s = {x \<in> set (d_otps d). ?ok x}" by simp
  have "sorted (map (\<lambda>r. - or_created_at r) ?s)" by simp
  then have "\<forall>x \<in> set (r # rs). or_created_at x \<le> or_created_at r" unfolding s by simp
  moreover have "x \<in> set (r # rs) \<longleftrightarrow> x \<in> set (d_otps d) \<and> ?ok x" for x
    using set unfolding s by blast
  ultimately show ?thesis by (metis list.set_intros(1))
qed

end
