(* ===== verification/IdentityRepo.thy ===== *)
theory IdentityRepo
  imports IdentitySQL
begin

text \<open>
  The identity module's adapters (\<^verbatim>\<open>modules/identity/infrastructure\<close>): repositories over the
  statements of \<open>IdentitySQL\<close>, the outbox publisher, token and code generation, and the Redis
  adapters for the login throttle, the token blacklist and the API key cache. All statements
  run on the primary, joining the open transaction when there is one.
\<close>

section \<open>Error handling shared by the repositories\<close>

definition wrapE :: "string \<Rightarrow> (world, gerr, 'a) act \<Rightarrow> (world, gerr, 'a) act" where
  "wrapE p m = catchE m (\<lambda>err. fail (Wrapped p err)) ret"

definition orNotFound ::
  "gerr \<Rightarrow> string \<Rightarrow> (world, gerr, 'a) act \<Rightarrow> ('a \<Rightarrow> (world, gerr, 'b) act) \<Rightarrow> (world, gerr, 'b) act" where
  "orNotFound sentinel p m k =
     catchE m (\<lambda>err. if errors_Is err ErrNoRows then fail sentinel else fail (Wrapped p err)) k"

lemma wrapE_InrE: "wrapE p m w = (Inr x, w') \<Longrightarrow> (m w = (Inr x, w') \<Longrightarrow> R) \<Longrightarrow> R"
  by (auto simp: wrapE_def elim!: catchE_InrE)

lemma orNotFound_InrE:
  "orNotFound s p m k w = (Inr x, w') \<Longrightarrow> (\<And>r v. m w = (Inr r, v) \<Longrightarrow> k r v = (Inr x, w') \<Longrightarrow> R) \<Longrightarrow> R"
  by (auto simp: orNotFound_def elim!: catchE_InrE split: if_splits)

lemma wrapE_ok [simp]: "m w = (Inr x, w') \<Longrightarrow> wrapE p m w = (Inr x, w')"
  by (simp add: wrapE_def)

lemma orNotFound_ok [simp]: "m w = (Inr x, w') \<Longrightarrow> orNotFound s p m k w = k x w'"
  by (simp add: orNotFound_def)

lemma preserves_wrapE [pres]: "preserves I m \<Longrightarrow> preserves I (wrapE p m)"
  unfolding wrapE_def by (intro pres)

lemma preserves_orNotFound [pres]:
  "preserves I m \<Longrightarrow> (\<And>x. preserves I (k x)) \<Longrightarrow> preserves I (orNotFound s p m k)"
  unfolding orNotFound_def by (intro pres)

section \<open>Users\<close>

definition user_row_of :: "uuid \<Rightarrow> user \<Rightarrow> user_row" where
  "user_row_of uid u =
     \<lparr>ur_id = uid, ur_email = u_email u, ur_password_hash = u_passwordHash u, ur_full_name = u_fullName u,
      ur_role = u_role u, ur_status = u_status u, ur_version = u_version u,
      ur_created_at = u_createdAt u, ur_updated_at = u_updatedAt u, ur_email_verified_at = None\<rparr>"

definition userFromRow :: "env \<Rightarrow> user_row \<Rightarrow> gerr + user" where
  "userFromRow E row =
     (case NewUserID (uuidToString (ur_id row)) of
        Inl err \<Rightarrow> Inl (Wrapped ''identity: corrupt user id'' err)
      | Inr uid \<Rightarrow>
          (case NewEmail E (ur_email row) of
             Inl err \<Rightarrow> Inl (Wrapped ''identity: corrupt user email'' err)
           | Inr email \<Rightarrow>
               Inr (UserFromState uid email (ur_password_hash row) (ur_full_name row) (ur_role row)
                      (ur_status row) (ur_version row) (ur_created_at row) (ur_updated_at row))))"

definition UserRepository_Create :: "env \<Rightarrow> user \<Rightarrow> (world, gerr, unit) act" where
  "UserRepository_Create E u =
     andThen (liftE (uuidFromString E (u_id u))) (\<lambda>uid.
       catchE (query E (CreateUser (user_row_of uid u)))
         (\<lambda>err. if is_pg_code uniqueViolation err then fail ErrEmailTaken
                else fail (Wrapped ''identity: create user'' err))
         ret)"

definition UserRepository_GetByEmail :: "env \<Rightarrow> string \<Rightarrow> (world, gerr, user) act" where
  "UserRepository_GetByEmail E email =
     orNotFound ErrUserNotFound ''identity: get user by email'' (select_one E (GetUserByEmail email))
       (\<lambda>row. liftE (userFromRow E row))"

definition UserRepository_GetByID :: "env \<Rightarrow> string \<Rightarrow> (world, gerr, user) act" where
  "UserRepository_GetByID E uid =
     andThen (liftE (uuidFromString E uid)) (\<lambda>pgID.
       orNotFound ErrUserNotFound ''identity: get user by id'' (select_one E (GetUserByID pgID))
         (\<lambda>row. liftE (userFromRow E row)))"

definition UserRepository_Update :: "env \<Rightarrow> user \<Rightarrow> (world, gerr, unit) act" where
  "UserRepository_Update E u =
     andThen (liftE (uuidFromString E (u_id u))) (\<lambda>uid.
       andThen (wrapE ''identity: update user''
           (query E (UpdateUser uid (u_passwordHash u) (u_fullName u) (u_role u) (u_status u) (u_updatedAt u) (u_version u))))
         (\<lambda>affected. if affected = 0 then fail ErrConcurrentUpdate else ret ()))"

definition UserRepository_MarkEmailVerified :: "env \<Rightarrow> string \<Rightarrow> int \<Rightarrow> (world, gerr, unit) act" where
  "UserRepository_MarkEmailVerified E uid now =
     andThen (liftE (uuidFromString E uid)) (\<lambda>pgID.
       wrapE ''identity: mark email verified'' (query E (SetEmailVerified pgID now)))"

section \<open>Sessions\<close>

definition RefreshTokenRepository_Create :: "env \<Rightarrow> refresh_token \<Rightarrow> (world, gerr, unit) act" where
  "RefreshTokenRepository_Create E t =
     andThen (liftE (uuidFromString E (rt_id t))) (\<lambda>tid.
     andThen (liftE (uuidFromString E (rt_userID t))) (\<lambda>uid.
       wrapE ''identity: create refresh token''
         (query E (CreateRefreshToken tid uid (rt_tokenHash t) (rt_expiresAt t) (rt_createdAt t)))))"

definition refreshFromRow :: "refresh_row \<Rightarrow> refresh_token" where
  "refreshFromRow row =
     RefreshTokenFromState (uuidToString (rr_id row)) (uuidToString (rr_user_id row)) (rr_token_hash row)
       (rr_expires_at row) (rr_revoked_at row) (rr_created_at row)"

definition RefreshTokenRepository_GetByHash :: "env \<Rightarrow> string \<Rightarrow> (world, gerr, refresh_token) act" where
  "RefreshTokenRepository_GetByHash E hash =
     orNotFound ErrRefreshTokenInvalid ''identity: get refresh token''
       (select_one E (GetRefreshTokenByHash hash)) (\<lambda>row. ret (refreshFromRow row))"

definition RefreshTokenRepository_Revoke :: "env \<Rightarrow> string \<Rightarrow> int \<Rightarrow> (world, gerr, unit) act" where
  "RefreshTokenRepository_Revoke E tid now =
     andThen (liftE (uuidFromString E tid)) (\<lambda>pgID.
       wrapE ''identity: revoke refresh token'' (query E (RevokeRefreshToken pgID now)))"

definition RefreshTokenRepository_RevokeAllForUser :: "env \<Rightarrow> string \<Rightarrow> int \<Rightarrow> (world, gerr, unit) act" where
  "RefreshTokenRepository_RevokeAllForUser E userID now =
     andThen (liftE (uuidFromString E userID)) (\<lambda>pgID.
       wrapE ''identity: revoke all refresh tokens'' (query E (RevokeAllRefreshTokensForUser pgID now)))"

section \<open>One-time codes\<close>

definition OTPRepository_Create :: "env \<Rightarrow> otp \<Rightarrow> (world, gerr, unit) act" where
  "OTPRepository_Create E c =
     andThen (liftE (uuidFromString E (o_id c))) (\<lambda>oid.
     andThen (liftE (uuidFromString E (o_userID c))) (\<lambda>uid.
       wrapE ''identity: create otp''
         (query E (CreateOTP \<lparr>or_id = oid, or_user_id = uid, or_purpose = o_purpose c, or_code_hash = o_codeHash c,
            or_expires_at = o_expiresAt c, or_consumed_at = None, or_created_at = o_createdAt c\<rparr>))))"

definition otpFromRow :: "otp_row \<Rightarrow> otp" where
  "otpFromRow row =
     OTPFromState (uuidToString (or_id row)) (uuidToString (or_user_id row)) (or_purpose row)
       (or_code_hash row) (or_expires_at row) (or_consumed_at row) (or_created_at row)"

definition OTPRepository_GetActive :: "env \<Rightarrow> string \<Rightarrow> otp_purpose \<Rightarrow> int \<Rightarrow> (world, gerr, otp) act" where
  "OTPRepository_GetActive E userID purpose now =
     andThen (liftE (uuidFromString E userID)) (\<lambda>uid.
       orNotFound ErrInvalidOTP ''identity: get active otp''
         (select_one E (GetActiveOTP uid (purpose_string purpose) now)) (\<lambda>row. ret (otpFromRow row)))"

definition OTPRepository_Consume :: "env \<Rightarrow> string \<Rightarrow> int \<Rightarrow> (world, gerr, unit) act" where
  "OTPRepository_Consume E oid now =
     andThen (liftE (uuidFromString E oid)) (\<lambda>pgID.
       andThen (wrapE ''identity: consume otp'' (query E (ConsumeOTP pgID now))) (\<lambda>_. ret ()))"

section \<open>API keys\<close>

definition APIKeyRepository_Create :: "env \<Rightarrow> api_key \<Rightarrow> (world, gerr, unit) act" where
  "APIKeyRepository_Create E k =
     andThen (liftE (uuidFromString E (k_id k))) (\<lambda>kid.
     andThen (liftE (uuidFromString E (k_userID k))) (\<lambda>uid.
       wrapE ''identity: create api key''
         (query E (CreateAPIKey \<lparr>kr_id = kid, kr_user_id = uid, kr_name = k_name k, kr_key_hash = k_keyHash k,
            kr_prefix = k_prefix k, kr_created_at = k_createdAt k, kr_revoked_at = None\<rparr>))))"

definition apiKeyFromRow :: "apikey_row \<Rightarrow> api_key" where
  "apiKeyFromRow row =
     APIKeyFromState (uuidToString (kr_id row)) (uuidToString (kr_user_id row)) (kr_name row)
       (kr_key_hash row) (kr_prefix row) (kr_created_at row) (kr_revoked_at row)"

definition APIKeyRepository_ListForUser :: "env \<Rightarrow> string \<Rightarrow> (world, gerr, api_key list) act" where
  "APIKeyRepository_ListForUser E userID =
     andThen (liftE (uuidFromString E userID)) (\<lambda>uid.
       andThen (wrapE ''identity: list api keys'' (select_rows E (ListAPIKeysForUser uid)))
         (\<lambda>rows. ret (map apiKeyFromRow rows)))"

definition APIKeyRepository_GetByHash :: "env \<Rightarrow> string \<Rightarrow> (world, gerr, api_key) act" where
  "APIKeyRepository_GetByHash E hash =
     orNotFound ErrAPIKeyNotFound ''identity: get api key''
       (select_one E (GetAPIKeyByHash hash)) (\<lambda>row. ret (apiKeyFromRow row))"

definition APIKeyRepository_Revoke :: "env \<Rightarrow> string \<Rightarrow> string \<Rightarrow> int \<Rightarrow> (world, gerr, unit) act" where
  "APIKeyRepository_Revoke E kid userID now =
     andThen (liftE (uuidFromString E kid)) (\<lambda>pgID.
     andThen (liftE (uuidFromString E userID)) (\<lambda>pgUserID.
       andThen (wrapE ''identity: revoke api key'' (query E (RevokeAPIKey pgID pgUserID now)))
         (\<lambda>affected. if affected = 0 then fail ErrAPIKeyNotFound else ret ())))"

section \<open>The outbox publisher\<close>

definition identity_publish_one :: "env \<Rightarrow> identity_event \<Rightarrow> (world, gerr, unit) act" where
  "identity_publish_one E ev =
     andThen (UUIDGenerator_NewID E) (\<lambda>raw.
     andThen (liftE (uuidFromString E raw)) (\<lambda>oid.
     andThen (clock_Now E) (\<lambda>t1.
     andThen (clock_Now E) (\<lambda>t2.
       wrapE ''identity: insert outbox event''
         (query E (InsertIdentityOutboxEvent oid (identity_Subject ev)
            (Envelope \<lparr>en_event = identity_Subject ev, en_occurred_at = t1, en_traceparent = e_trace E,
                       en_data = IdentityData ev\<rparr>) t2))))))"

definition IdentityOutbox_Publish :: "env \<Rightarrow> identity_event list \<Rightarrow> (world, gerr, unit) act" where
  "IdentityOutbox_Publish E events =
     (if events = [] then ret () else forEach events (identity_publish_one E))"

section \<open>Hashing and tokens\<close>

definition Hasher_Hash :: "env \<Rightarrow> string \<Rightarrow> (world, gerr, string) act" where
  "Hasher_Hash E password =
     andThen (rand_Read E argonSaltLen) (\<lambda>salt. liftE (from_password (sec_HashPassword (e_kdf E) salt password)))"

definition Hasher_Verify :: "env \<Rightarrow> string \<Rightarrow> string \<Rightarrow> (world, gerr, bool) act" where
  "Hasher_Verify E stored password =
     liftE (from_password (sec_VerifyPassword (e_kdf E) (e_bcrypt E) stored password))"

definition OpaqueTokens_Hash :: "env \<Rightarrow> string \<Rightarrow> string" where
  "OpaqueTokens_Hash E raw = sec_HashToken (e_sha256 E) raw"

definition OpaqueTokens_Generate :: "env \<Rightarrow> (world, gerr, string \<times> string) act" where
  "OpaqueTokens_Generate E =
     andThen (rand_Read E 32) (\<lambda>r.
     andThen (liftE (from_secure (sec_Token r))) (\<lambda>raw. ret (raw, OpaqueTokens_Hash E raw)))"

definition OTPCodes_Hash :: "env \<Rightarrow> string \<Rightarrow> string" where
  "OTPCodes_Hash E raw = sec_HashToken (e_sha256 E) raw"

definition OTPCodes_NewCode :: "env \<Rightarrow> (world, gerr, string \<times> string) act" where
  "OTPCodes_NewCode E =
     andThen (rand_Int E) (\<lambda>draw.
     andThen (liftE (from_secure (sec_NumericCode 6 draw))) (\<lambda>raw. ret (raw, OTPCodes_Hash E raw)))"

record access_token =
  at_Token :: string
  at_ID :: string
  at_ExpiresAt :: int

definition TokenTypeUser :: string where "TokenTypeUser = ''user''"

text \<open>JWT dates have a resolution of one second.\<close>

definition numeric_date :: "int \<Rightarrow> int" where
  "numeric_date t = t div 1000000 * 1000000"

definition Signer_IssueAccessToken :: "env \<Rightarrow> string \<Rightarrow> string \<Rightarrow> string \<Rightarrow> (world, gerr, access_token) act" where
  "Signer_IssueAccessToken E subject role tokenType =
     andThen (rand_Read E 16) (\<lambda>r.
     andThen (liftE (from_secure (sec_HexToken r))) (\<lambda>tokenID.
     andThen (clock_Now E) (\<lambda>now.
       let expiresAt = now + e_access_ttl E;
           c = \<lparr>c_subject = subject, c_issuer = e_issuer E, c_id = tokenID, c_issued_at = numeric_date now,
                c_expires_at = numeric_date expiresAt, c_not_before = numeric_date now, c_role = role,
                c_token_type = tokenType\<rparr>
       in case e_jwt_sign E c of
            None \<Rightarrow> fail (Wrapped ''jwt: sign'' (External ''''))
          | Some tok \<Rightarrow> ret \<lparr>at_Token = tok, at_ID = tokenID, at_ExpiresAt = expiresAt\<rparr>)))"

definition AccessTokenSigner_Issue :: "env \<Rightarrow> string \<Rightarrow> string \<Rightarrow> (world, gerr, access_token) act" where
  "AccessTokenSigner_Issue E userID role = Signer_IssueAccessToken E userID role TokenTypeUser"

section \<open>Redis adapters\<close>

definition blacklist_key :: "string \<Rightarrow> string" where
  "blacklist_key jti = ''jwt:blacklist:'' @ jti"

definition Blacklist_Revoke :: "env \<Rightarrow> string \<Rightarrow> int \<Rightarrow> (world, gerr, unit) act" where
  "Blacklist_Revoke E jti ttl =
     andThen (wrapE ''identity: blacklist token'' (redis_Set E (blacklist_key jti) (RStr ''1'') ttl))
       (\<lambda>_. ignore (redis_Publish E ''jwt:blacklist:events'' jti))"

text \<open>The development notifier logs the code; \<open>w_sent\<close> is that log.\<close>

definition Notifier_SendOTP :: "string \<Rightarrow> otp_purpose \<Rightarrow> string \<Rightarrow> (world, gerr, unit) act" where
  "Notifier_SendOTP email purpose code =
     modify (\<lambda>w. w\<lparr>w_sent := w_sent w @ [(email, purpose_string purpose, code)]\<rparr>)"

definition apiKeyCacheTTL :: int where "apiKeyCacheTTL = 600000000"

definition cache_key :: "string \<Rightarrow> string" where
  "cache_key hash = ''apikey:cache:'' @ hash"

definition byid_key :: "string \<Rightarrow> string" where
  "byid_key kid = ''apikey:byid:'' @ kid"

definition APIKeyCache_Lookup :: "env \<Rightarrow> string \<Rightarrow> (world, gerr, (string \<times> string) option) act" where
  "APIKeyCache_Lookup E hash =
     catchE (redis_Get E (cache_key hash)) (\<lambda>_. ret None)
       (\<lambda>v. ret (case v of RPrincipal u r \<Rightarrow> Some (u, r) | _ \<Rightarrow> None))"

definition APIKeyCache_Store :: "env \<Rightarrow> string \<Rightarrow> string \<Rightarrow> string \<Rightarrow> string \<Rightarrow> (world, gerr, unit) act" where
  "APIKeyCache_Store E hash kid userID role =
     ignore (redis_call E (\<lambda>t s.
       (Inr (), r_set t (byid_key kid) (RStr hash) apiKeyCacheTTL
                  (r_set t (cache_key hash) (RPrincipal userID role) apiKeyCacheTTL s))))"

definition APIKeyCache_Drop :: "env \<Rightarrow> string \<Rightarrow> (world, gerr, unit) act" where
  "APIKeyCache_Drop E kid =
     catchE (redis_Get E (byid_key kid)) (\<lambda>_. ret ())
       (\<lambda>v. case v of
          RStr hash \<Rightarrow> ignore (redis_call E (\<lambda>t s. (Inr (), r_del (byid_key kid) (r_del (cache_key hash) s))))
        | _ \<Rightarrow> ret ())"

definition throttleMaxFailures :: int where "throttleMaxFailures = 5"
definition throttleWindow :: int where "throttleWindow = 900000000"

definition throttleKey :: "env \<Rightarrow> string \<Rightarrow> string" where
  "throttleKey E identifier = ''login:fails:'' @ sec_HashToken (e_sha256 E) identifier"

definition Throttle_Allowed :: "env \<Rightarrow> string \<Rightarrow> (world, gerr, bool) act" where
  "Throttle_Allowed E identifier =
     catchE (redis_Get E (throttleKey E identifier)) (\<lambda>_. ret True)
       (\<lambda>v. ret (case v of RInt count \<Rightarrow> count < throttleMaxFailures | _ \<Rightarrow> True))"

definition Throttle_RecordFailure :: "env \<Rightarrow> string \<Rightarrow> (world, gerr, unit) act" where
  "Throttle_RecordFailure E identifier =
     (let key = throttleKey E identifier in
      ignore (redis_call E (\<lambda>t s.
        case r_incr t key s of (r, s') \<Rightarrow> (r, r_expire t key throttleWindow s'))))"

definition Throttle_Reset :: "env \<Rightarrow> string \<Rightarrow> (world, gerr, unit) act" where
  "Throttle_Reset E identifier =
     ignore (redis_call E (\<lambda>t s. (Inr (), r_del (throttleKey E identifier) s)))"

lemmas identity_repo = UserRepository_Create_def UserRepository_GetByEmail_def UserRepository_GetByID_def
  UserRepository_Update_def UserRepository_MarkEmailVerified_def RefreshTokenRepository_Create_def
  RefreshTokenRepository_GetByHash_def RefreshTokenRepository_Revoke_def
  RefreshTokenRepository_RevokeAllForUser_def OTPRepository_Create_def OTPRepository_GetActive_def
  OTPRepository_Consume_def APIKeyRepository_Create_def APIKeyRepository_ListForUser_def
  APIKeyRepository_GetByHash_def APIKeyRepository_Revoke_def IdentityOutbox_Publish_def
  identity_publish_one_def

lemmas identity_redis = Blacklist_Revoke_def APIKeyCache_Lookup_def APIKeyCache_Store_def
  APIKeyCache_Drop_def Throttle_Allowed_def Throttle_RecordFailure_def Throttle_Reset_def

lemmas identity_tokens = Hasher_Hash_def Hasher_Verify_def OpaqueTokens_Generate_def OTPCodes_NewCode_def
  Signer_IssueAccessToken_def AccessTokenSigner_Issue_def Notifier_SendOTP_def

end
