(* ===== verification/IdentityApp.thy ===== *)
theory IdentityApp
  imports IdentityRepo
begin

text \<open>
  The identity module's use cases (\<^verbatim>\<open>modules/identity/application\<close>), one definition per \<open>Execute\<close>
  method or flow, with the guards, early returns and calls in the order of the code.
\<close>

section \<open>Tokens\<close>

record token_pair =
  tp_Access :: access_token
  tp_RefreshRaw :: string

definition IssuePair :: "env \<Rightarrow> user \<Rightarrow> (world, gerr, token_pair) act" where
  "IssuePair E u =
     andThen (AccessTokenSigner_Issue E (u_id u) (u_role u)) (\<lambda>access.
     andThen (OpaqueTokens_Generate E) (\<lambda>(raw, hash).
     andThen (UUIDGenerator_NewID E) (\<lambda>sessionID.
     andThen (clock_Now E) (\<lambda>now.
     andThen (RefreshTokenRepository_Create E
                (NewRefreshToken sessionID (u_id u) hash (now + e_refresh_ttl E) now)) (\<lambda>_.
       ret \<lparr>tp_Access = access, tp_RefreshRaw = raw\<rparr>)))))"

section \<open>Registration, login and sessions\<close>

definition Register_Execute :: "env \<Rightarrow> string \<Rightarrow> string \<Rightarrow> string \<Rightarrow> (world, gerr, user) act" where
  "Register_Execute E email password fullName =
     andThen (liftE (NewEmail E email)) (\<lambda>address.
     andThen (UUIDGenerator_NewID E) (\<lambda>rawID.
     andThen (liftE (NewUserID rawID)) (\<lambda>userID.
     andThen (Hasher_Hash E password) (\<lambda>hash.
     andThen (clock_Now E) (\<lambda>now.
     andThen (liftE (NewUser userID address hash fullName now)) (\<lambda>user.
       WithinTransaction E
         (andThen (UserRepository_Create E user) (\<lambda>_.
          case User_PullEvents user of (events, user') \<Rightarrow>
            andThen (IdentityOutbox_Publish E events) (\<lambda>_. ret user')))))))))"

definition Login_Execute :: "env \<Rightarrow> string \<Rightarrow> string \<Rightarrow> (world, gerr, user \<times> token_pair) act" where
  "Login_Execute E email password =
     andThen (Throttle_Allowed E email) (\<lambda>allowed.
     if \<not> allowed then fail ErrAccountLocked
     else
       catchE (liftE (NewEmail E email))
         (\<lambda>_. andThen (Throttle_RecordFailure E email) (\<lambda>_. fail ErrInvalidCredentials))
         (\<lambda>address.
       catchE (UserRepository_GetByEmail E address)
         (\<lambda>_. andThen (Throttle_RecordFailure E email) (\<lambda>_. fail ErrInvalidCredentials))
         (\<lambda>user.
       catchE (Hasher_Verify E (u_passwordHash user) password)
         (\<lambda>_. andThen (Throttle_RecordFailure E email) (\<lambda>_. fail ErrInvalidCredentials))
         (\<lambda>ok.
       if \<not> ok then andThen (Throttle_RecordFailure E email) (\<lambda>_. fail ErrInvalidCredentials)
       else if \<not> CanSignIn user then fail ErrAccountDisabled
       else
         andThen (Throttle_Reset E email) (\<lambda>_.
         andThen (IssuePair E user) (\<lambda>pair. ret (user, pair)))))))"

text \<open>
  \<open>Refresh.Execute\<close> in its two phases: what it reads and checks before the transaction, and the
  rotation inside it. Between the two another request may run.
\<close>

definition Refresh_check :: "env \<Rightarrow> string \<Rightarrow> (world, gerr, refresh_token \<times> user) act" where
  "Refresh_check E refreshRaw =
     andThen (RefreshTokenRepository_GetByHash E (OpaqueTokens_Hash E refreshRaw)) (\<lambda>session.
     andThen (clock_Now E) (\<lambda>now.
     if \<not> RefreshToken_IsActive now session then fail ErrRefreshTokenInvalid
     else
       catchE (liftE (NewUserID (rt_userID session))) (\<lambda>_. fail ErrRefreshTokenInvalid) (\<lambda>userID.
       andThen (UserRepository_GetByID E userID) (\<lambda>user.
       if \<not> CanSignIn user then fail ErrAccountDisabled else ret (session, user)))))"

definition Refresh_rotate :: "env \<Rightarrow> refresh_token \<Rightarrow> user \<Rightarrow> (world, gerr, token_pair) act" where
  "Refresh_rotate E session user =
     WithinTransaction E
       (andThen (clock_Now E) (\<lambda>now.
        andThen (RefreshTokenRepository_Revoke E (rt_id session) now) (\<lambda>_. IssuePair E user)))"

definition Refresh_Execute :: "env \<Rightarrow> string \<Rightarrow> (world, gerr, token_pair) act" where
  "Refresh_Execute E refreshRaw =
     andThen (Refresh_check E refreshRaw) (\<lambda>(session, user). Refresh_rotate E session user)"

definition Logout_Execute :: "env \<Rightarrow> string \<Rightarrow> string \<Rightarrow> (world, gerr, unit) act" where
  "Logout_Execute E refreshRaw accessTokenID =
     andThen
       (catchE (RefreshTokenRepository_GetByHash E (OpaqueTokens_Hash E refreshRaw)) (\<lambda>_. ret ())
          (\<lambda>session. andThen (clock_Now E) (\<lambda>now. RefreshTokenRepository_Revoke E (rt_id session) now)))
       (\<lambda>_. if accessTokenID \<noteq> [] then Blacklist_Revoke E accessTokenID (e_access_ttl E) else ret ())"

section \<open>Profile, password and role\<close>

definition GetProfile_Execute :: "env \<Rightarrow> string \<Rightarrow> (world, gerr, user) act" where
  "GetProfile_Execute E userID =
     catchE (liftE (NewUserID userID)) (\<lambda>_. fail ErrUserNotFound) (\<lambda>uid. UserRepository_GetByID E uid)"

definition ChangePassword_Execute :: "env \<Rightarrow> string \<Rightarrow> string \<Rightarrow> string \<Rightarrow> (world, gerr, unit) act" where
  "ChangePassword_Execute E userID currentPassword newPassword =
     catchE (liftE (NewUserID userID)) (\<lambda>_. fail ErrUserNotFound) (\<lambda>uid.
     andThen (UserRepository_GetByID E uid) (\<lambda>user.
     catchE (Hasher_Verify E (u_passwordHash user) currentPassword) (\<lambda>_. fail ErrInvalidCredentials) (\<lambda>ok.
     if \<not> ok then fail ErrInvalidCredentials
     else
       andThen (Hasher_Hash E newPassword) (\<lambda>newHash.
       andThen (clock_Now E) (\<lambda>now.
       let user' = User_ChangePassword newHash now user in
       WithinTransaction E
         (andThen (UserRepository_Update E user') (\<lambda>_.
          andThen (clock_Now E) (\<lambda>t.
          andThen (RefreshTokenRepository_RevokeAllForUser E (u_id user') t) (\<lambda>_.
            IdentityOutbox_Publish E (fst (User_PullEvents user')))))))))))"

definition SetUserRole_Execute :: "env \<Rightarrow> string \<Rightarrow> string \<Rightarrow> (world, gerr, user) act" where
  "SetUserRole_Execute E userID role =
     catchE (liftE (NewUserID userID)) (\<lambda>_. fail ErrUserNotFound) (\<lambda>uid.
       WithinTransaction E
         (andThen (UserRepository_GetByID E uid) (\<lambda>user.
          andThen (clock_Now E) (\<lambda>now.
          andThen (liftE (User_ChangeRole role now user)) (\<lambda>user'.
          andThen (UserRepository_Update E user') (\<lambda>_.
          case User_PullEvents user' of (events, user'') \<Rightarrow>
            andThen (IdentityOutbox_Publish E events) (\<lambda>_. ret user'')))))))"

section \<open>One-time codes\<close>

definition otpTTL :: int where "otpTTL = 900000000"

definition OTP_issue :: "env \<Rightarrow> user \<Rightarrow> otp_purpose \<Rightarrow> (world, gerr, string) act" where
  "OTP_issue E user purpose =
     andThen (OTPCodes_NewCode E) (\<lambda>(raw, hash).
     andThen (UUIDGenerator_NewID E) (\<lambda>otpID.
     andThen (clock_Now E) (\<lambda>now.
     andThen (OTPRepository_Create E (NewOTP otpID (u_id user) purpose hash (now + otpTTL) now)) (\<lambda>_.
       ret raw))))"

definition OTP_verify :: "env \<Rightarrow> string \<Rightarrow> otp_purpose \<Rightarrow> string \<Rightarrow> (world, gerr, otp) act" where
  "OTP_verify E userID purpose code =
     andThen (clock_Now E) (\<lambda>now.
     catchE (OTPRepository_GetActive E userID purpose now) (\<lambda>_. fail ErrInvalidOTP) (\<lambda>c.
     if OTPCodes_Hash E code \<noteq> o_codeHash c then fail ErrInvalidOTP else ret c))"

definition RequestPasswordReset :: "env \<Rightarrow> string \<Rightarrow> (world, gerr, unit) act" where
  "RequestPasswordReset E email =
     catchE (liftE (NewEmail E email)) (\<lambda>_. ret ()) (\<lambda>address.
     catchE (UserRepository_GetByEmail E address) (\<lambda>_. ret ()) (\<lambda>user.
     andThen (OTP_issue E user OTPPasswordReset) (\<lambda>code.
     andThen (Notifier_SendOTP address OTPPasswordReset code) (\<lambda>_.
     andThen (clock_Now E) (\<lambda>now.
       IdentityOutbox_Publish E [PasswordResetRequested (u_id user) now])))))"

definition ResetPassword :: "env \<Rightarrow> string \<Rightarrow> string \<Rightarrow> string \<Rightarrow> (world, gerr, unit) act" where
  "ResetPassword E email code newPassword =
     (let key = ''otp:'' @ email in
      andThen (Throttle_Allowed E key) (\<lambda>allowed.
      if \<not> allowed then fail ErrAccountLocked
      else
        catchE (liftE (NewEmail E email))
          (\<lambda>_. andThen (Throttle_RecordFailure E key) (\<lambda>_. fail ErrInvalidOTP)) (\<lambda>address.
        catchE (UserRepository_GetByEmail E address)
          (\<lambda>_. andThen (Throttle_RecordFailure E key) (\<lambda>_. fail ErrInvalidOTP)) (\<lambda>user.
        catchE (OTP_verify E (u_id user) OTPPasswordReset code)
          (\<lambda>err. andThen (Throttle_RecordFailure E key) (\<lambda>_. fail err)) (\<lambda>c.
        andThen (Hasher_Hash E newPassword) (\<lambda>newHash.
        andThen (clock_Now E) (\<lambda>now.
        let user' = User_ChangePassword newHash now user in
        andThen
          (WithinTransaction E
             (andThen (clock_Now E) (\<lambda>t1.
              andThen (OTPRepository_Consume E (o_id c) t1) (\<lambda>_.
              andThen (UserRepository_Update E user') (\<lambda>_.
              andThen (clock_Now E) (\<lambda>t2.
              andThen (RefreshTokenRepository_RevokeAllForUser E (u_id user') t2) (\<lambda>_.
                IdentityOutbox_Publish E (fst (User_PullEvents user')))))))))
          (\<lambda>_. Throttle_Reset E key))))))))"

definition RequestEmailVerification :: "env \<Rightarrow> string \<Rightarrow> (world, gerr, unit) act" where
  "RequestEmailVerification E userID =
     catchE (liftE (NewUserID userID)) (\<lambda>_. fail ErrUserNotFound) (\<lambda>uid.
     andThen (UserRepository_GetByID E uid) (\<lambda>user.
     andThen (OTP_issue E user OTPEmailVerify) (\<lambda>code.
       Notifier_SendOTP (u_email user) OTPEmailVerify code)))"

definition VerifyEmail :: "env \<Rightarrow> string \<Rightarrow> string \<Rightarrow> (world, gerr, unit) act" where
  "VerifyEmail E userID code =
     catchE (liftE (NewUserID userID)) (\<lambda>_. fail ErrUserNotFound) (\<lambda>uid.
     andThen (UserRepository_GetByID E uid) (\<lambda>user.
     andThen (OTP_verify E (u_id user) OTPEmailVerify code) (\<lambda>c.
       WithinTransaction E
         (andThen (clock_Now E) (\<lambda>t1.
          andThen (OTPRepository_Consume E (o_id c) t1) (\<lambda>_.
          andThen (clock_Now E) (\<lambda>t2.
          andThen (UserRepository_MarkEmailVerified E (u_id user) t2) (\<lambda>_.
          andThen (clock_Now E) (\<lambda>t3.
            IdentityOutbox_Publish E [EmailVerified (u_id user) t3])))))))))"

section \<open>API keys\<close>

definition apiKeyPrefix :: string where "apiKeyPrefix = ''lynk_''"

definition APIKey_Create :: "env \<Rightarrow> string \<Rightarrow> string \<Rightarrow> (world, gerr, api_key \<times> string) act" where
  "APIKey_Create E userID name =
     andThen (OpaqueTokens_Generate E) (\<lambda>(raw, rawHash).
     let full = apiKeyPrefix @ raw; hash = OpaqueTokens_Hash E full;
         prefix = take (length apiKeyPrefix + 4) full in
     andThen (UUIDGenerator_NewID E) (\<lambda>keyID.
     andThen (clock_Now E) (\<lambda>now.
     let key = NewAPIKey keyID userID name hash prefix now in
     andThen
       (WithinTransaction E
          (andThen (APIKeyRepository_Create E key) (\<lambda>_.
             IdentityOutbox_Publish E [APIKeyCreated userID keyID name now])))
       (\<lambda>_. ret (key, full)))))"

definition APIKey_List :: "env \<Rightarrow> string \<Rightarrow> (world, gerr, api_key list) act" where
  "APIKey_List E userID = APIKeyRepository_ListForUser E userID"

definition APIKey_Revoke :: "env \<Rightarrow> string \<Rightarrow> string \<Rightarrow> (world, gerr, unit) act" where
  "APIKey_Revoke E userID keyID =
     andThen
       (WithinTransaction E
          (andThen (clock_Now E) (\<lambda>t1.
           andThen (APIKeyRepository_Revoke E keyID userID t1) (\<lambda>_.
           andThen (clock_Now E) (\<lambda>t2.
             IdentityOutbox_Publish E [APIKeyRevoked userID keyID t2])))))
       (\<lambda>_. APIKeyCache_Drop E keyID)"

text \<open>
  \<open>Validate\<close> answers from the cache, or from the database and then fills the cache. The lookup
  in the database and the filling are two steps between which a revocation may run.
\<close>

definition Validate_lookup :: "env \<Rightarrow> string \<Rightarrow> (world, gerr, api_key \<times> user) act" where
  "Validate_lookup E hash =
     catchE (APIKeyRepository_GetByHash E hash) (\<lambda>_. fail ErrAPIKeyNotFound) (\<lambda>key.
     if \<not> APIKey_IsActive key then fail ErrAPIKeyNotFound
     else
       catchE (liftE (NewUserID (k_userID key))) (\<lambda>_. fail ErrAPIKeyNotFound) (\<lambda>ownerID.
       catchE (UserRepository_GetByID E ownerID) (\<lambda>_. fail ErrAPIKeyNotFound) (\<lambda>owner.
       if \<not> CanSignIn owner then fail ErrAPIKeyNotFound else ret (key, owner))))"

definition Validate_store :: "env \<Rightarrow> string \<Rightarrow> api_key \<times> user \<Rightarrow> (world, gerr, string \<times> string) act" where
  "Validate_store E hash = (\<lambda>(key, owner).
     andThen (APIKeyCache_Store E hash (k_id key) (u_id owner) (u_role owner))
       (\<lambda>_. ret (u_id owner, u_role owner)))"

definition APIKey_Validate :: "env \<Rightarrow> string \<Rightarrow> (world, gerr, string \<times> string) act" where
  "APIKey_Validate E presented =
     (if \<not> has_prefix presented apiKeyPrefix then fail ErrAPIKeyNotFound
      else
        let hash = OpaqueTokens_Hash E presented in
        andThen (APIKeyCache_Lookup E hash) (\<lambda>hit.
        case hit of
          Some (cachedUser, cachedRole) \<Rightarrow> ret (cachedUser, cachedRole)
        | None \<Rightarrow> andThen (Validate_lookup E hash) (Validate_store E hash)))"

lemmas identity_app = IssuePair_def Register_Execute_def Login_Execute_def Refresh_check_def Refresh_rotate_def
  Refresh_Execute_def Logout_Execute_def GetProfile_Execute_def ChangePassword_Execute_def
  SetUserRole_Execute_def OTP_issue_def OTP_verify_def RequestPasswordReset_def ResetPassword_def
  RequestEmailVerification_def VerifyEmail_def APIKey_Create_def APIKey_List_def APIKey_Revoke_def
  Validate_lookup_def Validate_store_def APIKey_Validate_def

end
