(* ===== verification/IdentityFacts.thy ===== *)
theory IdentityFacts
  imports IdentityApp
begin

text \<open>
  Facts about the identity tables that no statement of the module undoes, carried through every
  repository and use case at once. The locale's laws are the statements; its lemmas are the use
  cases; it is interpreted on the schema's invariant and on the facts that only grow.
\<close>

locale identity_tables =
  fixes P :: "db \<Rightarrow> bool"
  assumes sql:
    "\<And>r. length (ur_id r) = 16 \<Longrightarrow> ur_role r = ''user'' \<Longrightarrow> db_keeps P (CreateUser r)"
    "\<And>uid at. db_keeps P (SetEmailVerified uid at)"
    "\<And>tid uid hash expires at. length tid = 16 \<Longrightarrow> db_keeps P (CreateRefreshToken tid uid hash expires at)"
    "\<And>tid at. db_keeps P (RevokeRefreshToken tid at)"
    "\<And>uid at. db_keeps P (RevokeAllRefreshTokensForUser uid at)"
    "\<And>r. length (or_id r) = 16 \<Longrightarrow> db_keeps P (CreateOTP r)"
    "\<And>oid at. db_keeps P (ConsumeOTP oid at)"
    "\<And>r. length (kr_id r) = 16 \<Longrightarrow> db_keeps P (CreateAPIKey r)"
    "\<And>kid uid at. db_keeps P (RevokeAPIKey kid uid at)"
    "\<And>oid subject pl at. db_keeps P (InsertIdentityOutboxEvent oid subject pl at)"
begin

lemma repo_keeps:
  "u_role u = ''user'' \<Longrightarrow> preserves (on_db P) (UserRepository_Create E u)"
  "preserves (on_db P) (UserRepository_GetByEmail E email)"
  "preserves (on_db P) (UserRepository_GetByID E uid)"
  "preserves (on_db P) (UserRepository_MarkEmailVerified E uid now)"
  "preserves (on_db P) (RefreshTokenRepository_Create E t)"
  "preserves (on_db P) (RefreshTokenRepository_GetByHash E hash)"
  "preserves (on_db P) (RefreshTokenRepository_Revoke E tid now)"
  "preserves (on_db P) (RefreshTokenRepository_RevokeAllForUser E uid now)"
  "preserves (on_db P) (OTPRepository_Create E c)"
  "preserves (on_db P) (OTPRepository_GetActive E uid purpose now)"
  "preserves (on_db P) (OTPRepository_Consume E oid now)"
  "preserves (on_db P) (APIKeyRepository_Create E k)"
  "preserves (on_db P) (APIKeyRepository_ListForUser E uid)"
  "preserves (on_db P) (APIKeyRepository_GetByHash E hash)"
  "preserves (on_db P) (APIKeyRepository_Revoke E kid uid now)"
  "preserves (on_db P) (IdentityOutbox_Publish E events)"
  unfolding identity_repo by (rule preserves_uuid | intro pres sql | simp add: user_row_of_def)+

lemma other_keeps:
  "preserves (on_db P) (Hasher_Hash E pw)"
  "preserves (on_db P) (Hasher_Verify E stored pw)"
  "preserves (on_db P) (OpaqueTokens_Generate E)"
  "preserves (on_db P) (OTPCodes_NewCode E)"
  "preserves (on_db P) (AccessTokenSigner_Issue E uid role)"
  "preserves (on_db P) (Blacklist_Revoke E jti ttl)"
  "preserves (on_db P) (APIKeyCache_Lookup E hash)"
  "preserves (on_db P) (APIKeyCache_Store E hash kid uid role)"
  "preserves (on_db P) (APIKeyCache_Drop E kid)"
  "preserves (on_db P) (Throttle_Allowed E key)"
  "preserves (on_db P) (Throttle_RecordFailure E key)"
  "preserves (on_db P) (Throttle_Reset E key)"
  unfolding identity_redis identity_tokens Let_def
  by (intro pres | simp split: rval.splits add: pres)+

lemma send_keeps: "preserves (on_db P) (Notifier_SendOTP email purpose code)"
  by (simp add: Notifier_SendOTP_def preserves_def on_db_def)

lemma new_user:
  "(\<And>u. u_role u = ''user'' \<Longrightarrow> preserves I (k u)) \<Longrightarrow>
   preserves I (andThen (liftE (NewUser uid email hash name now)) k)"
  by (simp add: NewUser_def preserves_def andThen_def)

lemmas parts = repo_keeps other_keeps send_keeps

lemma register_keeps: "preserves (on_db P) (Register_Execute E email pw name)"
  unfolding Register_Execute_def
  by (rule preserves_andThen, (intro pres)[1], rule preserves_andThen, (intro pres)[1], rule preserves_andThen, (intro pres)[1],
      rule preserves_andThen, (intro pres parts)[1], rule preserves_andThen, (intro pres)[1], rule new_user,
      (assumption | intro pres parts)+)

lemma use_cases_keep:
  "preserves (on_db P) (Register_Execute E email pw name)"
  "preserves (on_db P) (IssuePair E u)"
  "preserves (on_db P) (Login_Execute E email pw)"
  "preserves (on_db P) (Refresh_check E raw)"
  "preserves (on_db P) (Refresh_rotate E session u)"
  "preserves (on_db P) (Refresh_Execute E raw)"
  "preserves (on_db P) (Logout_Execute E raw jti)"
  "preserves (on_db P) (GetProfile_Execute E uid)"
  "preserves (on_db P) (RequestPasswordReset E email)"
  "preserves (on_db P) (RequestEmailVerification E uid)"
  "preserves (on_db P) (VerifyEmail E uid code)"
  "preserves (on_db P) (APIKey_Create E uid name)"
  "preserves (on_db P) (APIKey_List E uid)"
  "preserves (on_db P) (APIKey_Revoke E uid kid)"
  "preserves (on_db P) (APIKey_Validate E key)"
  "preserves (on_db P) (Validate_lookup E h)"
  "preserves (on_db P) (Validate_store E h x)"
proof -
  show "preserves (on_db P) (Register_Execute E email pw name)" by (rule register_keeps)
qed (unfold identity_app Let_def, (intro pres parts)+)

end

text \<open>The three flows that write a user's row keep a fact that any update of the row keeps.\<close>

locale identity_fact = identity_tables +
  assumes update: "\<And>uid hash name role status updated version. db_keeps P (UpdateUser uid hash name role status updated version)"
begin

lemma update_keeps: "preserves (on_db P) (UserRepository_Update E u)"
  unfolding UserRepository_Update_def by (intro pres update)

lemma row_flows_keep:
  "preserves (on_db P) (ChangePassword_Execute E uid pw pw')"
  "preserves (on_db P) (SetUserRole_Execute E uid role)"
  "preserves (on_db P) (ResetPassword E email code pw)"
  unfolding identity_app Let_def by (intro pres parts update_keeps)+

end

interpretation schema: identity_fact identity_ok
  by unfold_locales (simp_all add: identity_ok_statements)

interpretation revoked: identity_fact "session_revoked h" for h
  by unfold_locales (rule session_revoked_statements)+

interpretation consumed: identity_fact "otp_consumed oid" for oid
  by unfold_locales (rule otp_consumed_statements)+

interpretation key: identity_fact "key_revoked hash" for hash
  by unfold_locales (rule key_revoked_statements)+

end
