(* ===== verification/AuthCtx.thy ===== *)
theory AuthCtx
  imports Errors
begin

text \<open>
  Who is calling (\<^verbatim>\<open>platform/auth\<close>): the \<open>Principal\<close> of a request, how the core rebuilds it from the
  metadata the gateway sets, and how a bearer token is read at the edge. Incoming metadata is
  an association list of lower-cased keys and values in arrival order, as \<^verbatim>\<open>metadata.MD\<close> keeps it;
  \<open>None\<close> is a context without metadata.
\<close>

record principal =
  p_UserID :: string
  p_Role :: string
  p_TokenType :: string

definition headerUserID :: string where "headerUserID = ''x-user-id''"
definition headerRole :: string where "headerRole = ''x-role''"
definition headerTokenType :: string where "headerTokenType = ''x-token-type''"

type_synonym metadata = "(string \<times> string) list"

text \<open>\<open>md.Get(key)\<close> and its first value, the empty string when there is none.\<close>

definition md_Get :: "metadata \<Rightarrow> string \<Rightarrow> string list" where
  "md_Get md key = map snd (filter (\<lambda>(k, v). k = key) md)"

definition firstValue :: "metadata \<Rightarrow> string \<Rightarrow> string" where
  "firstValue md key = (case md_Get md key of [] \<Rightarrow> [] | v # vs \<Rightarrow> v)"

definition withPrincipalFromMetadata :: "metadata option \<Rightarrow> principal option" where
  "withPrincipalFromMetadata md =
     (case md of
        None \<Rightarrow> None
      | Some md \<Rightarrow>
          let userID = firstValue md headerUserID in
          if userID = [] then None
          else Some \<lparr>p_UserID = userID, p_Role = firstValue md headerRole,
                     p_TokenType = firstValue md headerTokenType\<rparr>)"

definition bearerToken :: "metadata option \<Rightarrow> string" where
  "bearerToken md =
     (case md of
        None \<Rightarrow> []
      | Some md \<Rightarrow>
          let header = firstValue md ''authorization'' in
          (case cut_prefix header ''Bearer '' of
             Some remainder \<Rightarrow> remainder
           | None \<Rightarrow> (case cut_prefix header ''bearer '' of Some remainder \<Rightarrow> remainder | None \<Rightarrow> [])))"

text \<open>\<open>requirePrincipal\<close>, the guard every module's handler carries.\<close>

definition requirePrincipal :: "principal option \<Rightarrow> gerr + principal" where
  "requirePrincipal ctx =
     (case ctx of
        None \<Rightarrow> Inl (apperror_New KindUnauthenticated ''unauthenticated'' ''authentication required'')
      | Some p \<Rightarrow> Inr p)"

lemma firstValue_append:
  "firstValue (xs @ ys) k = (if md_Get xs k = [] then firstValue ys k else firstValue xs k)"
  by (simp add: firstValue_def md_Get_def split: list.splits)

end
