(* ===== verification/IdentityHandler.thy ===== *)
theory IdentityHandler
  imports IdentityFacts AuthCtx
begin

text \<open>
  The identity module's gRPC handlers (\<^verbatim>\<open>modules/identity/adapter/grpc/handler.go\<close>): the guard, the use
  case, the classification of its errors, and the response. A request is one value of
  \<open>identity_request\<close>; \<open>identity_handle\<close> dispatches it as the service registration does.
\<close>

definition classify :: "gerr \<Rightarrow> gerr" where
  "classify err =
     (if errors_Is err ErrEmailTaken
        then apperror_Wrap err KindAlreadyExists ''email_taken'' ''email already registered''
      else if errors_Is err ErrInvalidCredentials \<or> errors_Is err ErrRefreshTokenInvalid
        then apperror_Wrap err KindUnauthenticated ''invalid_credentials'' ''invalid credentials''
      else if errors_Is err ErrInvalidOTP
        then apperror_Wrap err KindUnauthenticated ''invalid_code'' ''invalid or expired code''
      else if errors_Is err ErrAPIKeyNotFound
        then apperror_Wrap err KindUnauthenticated ''invalid_api_key'' ''invalid api key''
      else if errors_Is err ErrAccountLocked
        then apperror_Wrap err KindRateLimited ''account_locked'' ''too many attempts, try again later''
      else if errors_Is err ErrAccountDisabled
        then apperror_Wrap err KindPermissionDenied ''account_disabled'' ''account disabled''
      else if errors_Is err ErrUserNotFound
        then apperror_Wrap err KindNotFound ''user_not_found'' ''user not found''
      else if errors_Is err ErrConcurrentUpdate
        then apperror_Wrap err KindConflict ''user_conflict'' ''account was modified concurrently, retry''
      else if errors_Is err ErrInvalidEmail \<or> errors_Is err ErrInvalidUserID \<or> errors_Is err ErrMissingName
          \<or> errors_Is err ErrInvalidRole
        then apperror_Wrap err KindInvalidInput ''invalid_input'' (err_Error err)
      else apperror_Wrap err KindInternal ''internal'' ''internal error'')"

record proto_user =
  pu_Id :: string
  pu_Email :: string
  pu_FullName :: string
  pu_Role :: string

record proto_api_key =
  pk_Id :: string
  pk_Name :: string
  pk_Prefix :: string
  pk_CreatedAt :: int
  pk_Revoked :: bool

definition unix_seconds :: "int \<Rightarrow> int" where
  "unix_seconds t = t div 1000000"

definition toProtoUser :: "user \<Rightarrow> proto_user" where
  "toProtoUser u = \<lparr>pu_Id = u_id u, pu_Email = u_email u, pu_FullName = u_fullName u, pu_Role = u_role u\<rparr>"

definition toProtoAPIKey :: "api_key \<Rightarrow> proto_api_key" where
  "toProtoAPIKey k = \<lparr>pk_Id = k_id k, pk_Name = k_name k, pk_Prefix = k_prefix k,
     pk_CreatedAt = unix_seconds (k_createdAt k), pk_Revoked = APIKey_Revoked k\<rparr>"

datatype identity_request =
  RegisterRequest string string string
| LoginRequest string string
| RefreshRequest string
| LogoutRequest string string
| GetProfileRequest
| ChangePasswordRequest string string
| SetUserRoleRequest string string
| RequestPasswordResetRequest string
| ResetPasswordRequest string string string
| RequestEmailVerificationRequest
| VerifyEmailRequest string
| CreateAPIKeyRequest string
| ListAPIKeysRequest
| RevokeAPIKeyRequest string
| ValidateAPIKeyRequest string

datatype identity_response =
  UserResponse proto_user
| TokensResponse string int string "proto_user option"
| APIKeyResponse proto_api_key string
| APIKeysResponse "proto_api_key list"
| PrincipalResponse string string
| EmptyResponse

text \<open>\<open>if err != nil { return nil, classify(err) }\<close>\<close>

definition classified :: "(gerr \<Rightarrow> gerr) \<Rightarrow> (world, gerr, 'a) act \<Rightarrow> ('a \<Rightarrow> 'b) \<Rightarrow> (world, gerr, 'b) act" where
  "classified cl m k = catchE m (\<lambda>err. fail (cl err)) (\<lambda>x. ret (k x))"

definition Handler_Register :: "env \<Rightarrow> string \<Rightarrow> string \<Rightarrow> string \<Rightarrow> (world, gerr, identity_response) act" where
  "Handler_Register E email pw name =
     classified classify (Register_Execute E email pw name) (\<lambda>u. UserResponse (toProtoUser u))"

definition Handler_Login :: "env \<Rightarrow> string \<Rightarrow> string \<Rightarrow> (world, gerr, identity_response) act" where
  "Handler_Login E email pw =
     classified classify (Login_Execute E email pw) (\<lambda>(u, pair).
       TokensResponse (at_Token (tp_Access pair)) (unix_seconds (at_ExpiresAt (tp_Access pair)))
         (tp_RefreshRaw pair) (Some (toProtoUser u)))"

definition Handler_Refresh :: "env \<Rightarrow> string \<Rightarrow> (world, gerr, identity_response) act" where
  "Handler_Refresh E raw =
     classified classify (Refresh_Execute E raw) (\<lambda>pair.
       TokensResponse (at_Token (tp_Access pair)) (unix_seconds (at_ExpiresAt (tp_Access pair)))
         (tp_RefreshRaw pair) None)"

definition Handler_Logout :: "env \<Rightarrow> string \<Rightarrow> string \<Rightarrow> (world, gerr, identity_response) act" where
  "Handler_Logout E raw jti = classified classify (Logout_Execute E raw jti) (\<lambda>_. EmptyResponse)"

definition Handler_GetProfile :: "env \<Rightarrow> principal option \<Rightarrow> (world, gerr, identity_response) act" where
  "Handler_GetProfile E ctx =
     andThen (liftE (requirePrincipal ctx)) (\<lambda>p.
       classified classify (GetProfile_Execute E (p_UserID p)) (\<lambda>u. UserResponse (toProtoUser u)))"

definition Handler_ChangePassword ::
  "env \<Rightarrow> principal option \<Rightarrow> string \<Rightarrow> string \<Rightarrow> (world, gerr, identity_response) act" where
  "Handler_ChangePassword E ctx current new =
     andThen (liftE (requirePrincipal ctx)) (\<lambda>p.
       classified classify (ChangePassword_Execute E (p_UserID p) current new) (\<lambda>_. EmptyResponse))"

definition Handler_SetUserRole ::
  "env \<Rightarrow> principal option \<Rightarrow> string \<Rightarrow> string \<Rightarrow> (world, gerr, identity_response) act" where
  "Handler_SetUserRole E ctx userID role =
     andThen (liftE (requirePrincipal ctx)) (\<lambda>p.
       if p_Role p \<noteq> ''admin'' \<and> p_TokenType p \<noteq> ''admin''
       then fail (apperror_New KindPermissionDenied ''admin_required'' ''admin access required'')
       else classified classify (SetUserRole_Execute E userID role) (\<lambda>u. UserResponse (toProtoUser u)))"

definition Handler_RequestPasswordReset :: "env \<Rightarrow> string \<Rightarrow> (world, gerr, identity_response) act" where
  "Handler_RequestPasswordReset E email = classified classify (RequestPasswordReset E email) (\<lambda>_. EmptyResponse)"

definition Handler_ResetPassword :: "env \<Rightarrow> string \<Rightarrow> string \<Rightarrow> string \<Rightarrow> (world, gerr, identity_response) act" where
  "Handler_ResetPassword E email code pw = classified classify (ResetPassword E email code pw) (\<lambda>_. EmptyResponse)"

definition Handler_RequestEmailVerification :: "env \<Rightarrow> principal option \<Rightarrow> (world, gerr, identity_response) act" where
  "Handler_RequestEmailVerification E ctx =
     andThen (liftE (requirePrincipal ctx)) (\<lambda>p.
       classified classify (RequestEmailVerification E (p_UserID p)) (\<lambda>_. EmptyResponse))"

definition Handler_VerifyEmail :: "env \<Rightarrow> principal option \<Rightarrow> string \<Rightarrow> (world, gerr, identity_response) act" where
  "Handler_VerifyEmail E ctx code =
     andThen (liftE (requirePrincipal ctx)) (\<lambda>p.
       classified classify (VerifyEmail E (p_UserID p) code) (\<lambda>_. EmptyResponse))"

definition Handler_CreateAPIKey :: "env \<Rightarrow> principal option \<Rightarrow> string \<Rightarrow> (world, gerr, identity_response) act" where
  "Handler_CreateAPIKey E ctx name =
     andThen (liftE (requirePrincipal ctx)) (\<lambda>p.
       classified classify (APIKey_Create E (p_UserID p) name) (\<lambda>(k, secret). APIKeyResponse (toProtoAPIKey k) secret))"

definition Handler_ListAPIKeys :: "env \<Rightarrow> principal option \<Rightarrow> (world, gerr, identity_response) act" where
  "Handler_ListAPIKeys E ctx =
     andThen (liftE (requirePrincipal ctx)) (\<lambda>p.
       classified classify (APIKey_List E (p_UserID p)) (\<lambda>ks. APIKeysResponse (map toProtoAPIKey ks)))"

definition Handler_RevokeAPIKey :: "env \<Rightarrow> principal option \<Rightarrow> string \<Rightarrow> (world, gerr, identity_response) act" where
  "Handler_RevokeAPIKey E ctx kid =
     andThen (liftE (requirePrincipal ctx)) (\<lambda>p.
       classified classify (APIKey_Revoke E (p_UserID p) kid) (\<lambda>_. EmptyResponse))"

definition Handler_ValidateAPIKey :: "env \<Rightarrow> string \<Rightarrow> (world, gerr, identity_response) act" where
  "Handler_ValidateAPIKey E key =
     classified classify (APIKey_Validate E key) (\<lambda>(u, r). PrincipalResponse u r)"

fun identity_handle :: "env \<Rightarrow> principal option \<Rightarrow> identity_request \<Rightarrow> (world, gerr, identity_response) act" where
  "identity_handle E ctx (RegisterRequest email pw name) = Handler_Register E email pw name"
| "identity_handle E ctx (LoginRequest email pw) = Handler_Login E email pw"
| "identity_handle E ctx (RefreshRequest raw) = Handler_Refresh E raw"
| "identity_handle E ctx (LogoutRequest raw jti) = Handler_Logout E raw jti"
| "identity_handle E ctx GetProfileRequest = Handler_GetProfile E ctx"
| "identity_handle E ctx (ChangePasswordRequest current new) = Handler_ChangePassword E ctx current new"
| "identity_handle E ctx (SetUserRoleRequest uid role) = Handler_SetUserRole E ctx uid role"
| "identity_handle E ctx (RequestPasswordResetRequest email) = Handler_RequestPasswordReset E email"
| "identity_handle E ctx (ResetPasswordRequest email code pw) = Handler_ResetPassword E email code pw"
| "identity_handle E ctx RequestEmailVerificationRequest = Handler_RequestEmailVerification E ctx"
| "identity_handle E ctx (VerifyEmailRequest code) = Handler_VerifyEmail E ctx code"
| "identity_handle E ctx (CreateAPIKeyRequest name) = Handler_CreateAPIKey E ctx name"
| "identity_handle E ctx ListAPIKeysRequest = Handler_ListAPIKeys E ctx"
| "identity_handle E ctx (RevokeAPIKeyRequest kid) = Handler_RevokeAPIKey E ctx kid"
| "identity_handle E ctx (ValidateAPIKeyRequest key) = Handler_ValidateAPIKey E key"

lemmas identity_handlers = Handler_Register_def Handler_Login_def Handler_Refresh_def Handler_Logout_def
  Handler_GetProfile_def Handler_ChangePassword_def Handler_SetUserRole_def Handler_RequestPasswordReset_def
  Handler_ResetPassword_def Handler_RequestEmailVerification_def Handler_VerifyEmail_def
  Handler_CreateAPIKey_def Handler_ListAPIKeys_def Handler_RevokeAPIKey_def Handler_ValidateAPIKey_def

lemma preserves_classified [pres]: "preserves I m \<Longrightarrow> preserves I (classified cl m k)"
  unfolding classified_def by (intro pres)

text \<open>A history: requests of any callers served one after the other.\<close>

definition identity_serve :: "env \<Rightarrow> (principal option \<times> identity_request) list \<Rightarrow> world \<Rightarrow> world" where
  "identity_serve E reqs w = fold (\<lambda>(ctx, req) w. snd (identity_handle E ctx req w)) reqs w"

context identity_fact begin

lemma handler_keeps: "preserves (on_db P) (identity_handle E ctx req)"
  by (cases req) (simp_all add: identity_handlers, (intro pres use_cases_keep row_flows_keep)+)

lemma history_keeps: "P (w_db w) \<Longrightarrow> P (w_db (identity_serve E reqs w))"
proof (induction reqs arbitrary: w)
  case (Cons r reqs)
  obtain ctx req where "r = (ctx, req)" by (cases r)
  with Cons preservesD [OF handler_keeps, of w E ctx req] show ?case
    by (simp add: identity_serve_def on_db_def)
qed (simp add: identity_serve_def)

end

end
