(* ===== verification/Demo.thy ===== *)
theory Demo
  imports IdentityDomain
begin

text \<open>
  A concrete environment in which the properties' hypotheses hold, used by their witnesses: a
  network without faults, a clock that advances one microsecond per call, a random source that
  depends on the call, collision-free hashes, and parsers that do what the documentation of
  the libraries says.
\<close>

definition unhex_digit :: "char \<Rightarrow> nat option" where
  "unhex_digit c = find (\<lambda>n. hex_digit n = c) [0..<16]"

fun unhex :: "string \<Rightarrow> byte list option" where
  "unhex [] = Some []"
| "unhex [c] = None"
| "unhex (c # d # s) =
     (case (unhex_digit c, unhex_digit d, unhex s) of
        (Some a, Some b, Some r) \<Rightarrow> Some (of_nat (16 * a + b) # r)
      | _ \<Rightarrow> None)"

definition demo_scan :: "string \<Rightarrow> (nat \<Rightarrow> byte) option" where
  "demo_scan s =
     (case unhex (filter (\<lambda>c. c \<noteq> CHR ''-'') s) of
        None \<Rightarrow> None
      | Some bs \<Rightarrow> if length bs = 16 then Some (nth bs) else None)"

lemma unhex_hex_digit: "n < 16 \<Longrightarrow> unhex_digit (hex_digit n) = Some n"
proof -
  assume "n < 16"
  then have "n \<in> set [0..<16]" by simp
  moreover have "distinct (map hex_digit [0..<16])" by code_simp
  ultimately show ?thesis unfolding unhex_digit_def by (rule find_distinct [rotated])
qed

lemma unhex_hex_byte: "unhex (hex_byte b @ s) = map_option (Cons b) (unhex s)"
proof -
  have "unat b < 256" using unsigned_less [of b, where 'a = nat] by simp
  then have "unat b div 16 < 16" by simp
  moreover have "word_of_nat (16 * (unat b div 16) + unat b mod 16) = b" by simp
  ultimately show ?thesis
    by (cases "unhex s") (simp_all add: hex_byte_def unhex_hex_digit)
qed

lemma unhex_hex_encode: "unhex (hex_encode bs) = Some bs"
  by (induction bs) (simp_all add: hex_encode_Cons unhex_hex_byte)

lemma hex_digit_no_dash: "n < 16 \<Longrightarrow> hex_digit n \<noteq> CHR ''-''"
proof -
  have "\<forall>n \<in> set [0..<16]. hex_digit n \<noteq> CHR ''-''" by code_simp
  then show "n < 16 \<Longrightarrow> hex_digit n \<noteq> CHR ''-''" by auto
qed

lemma hex_encode_no_dash: "filter (\<lambda>c. c \<noteq> CHR ''-'') (hex_encode bs) = hex_encode bs"
proof (induction bs)
  case (Cons b bs)
  have "unat b < 256" using unsigned_less [of b, where 'a = nat] by simp
  then have "unat b div 16 < 16" by simp
  with Cons show ?case by (simp add: hex_encode_Cons hex_byte_def hex_digit_no_dash)
qed simp

lemma hex_encode_append: "hex_encode (a @ b) = hex_encode a @ hex_encode b"
  by (simp add: hex_encode_def)

lemma uuid_text_dashes_off: "filter (\<lambda>c. c \<noteq> CHR ''-'') (uuid_text u) = hex_encode u"
proof -
  have "take 2 (drop 4 u) @ drop 6 u = drop 4 u" "take 2 (drop 6 u) @ drop 8 u = drop 6 u"
    "take 2 (drop 8 u) @ drop 10 u = drop 8 u" "take 4 u @ drop 4 u = u"
    using append_take_drop_id [of 2 "drop 4 u"] append_take_drop_id [of 2 "drop 6 u"]
      append_take_drop_id [of 2 "drop 8 u"] by simp_all
  then have "u = take 4 u @ take 2 (drop 4 u) @ take 2 (drop 6 u) @ take 2 (drop 8 u) @ drop 10 u"
    by simp
  then have "hex_encode u = hex_encode (take 4 u) @ hex_encode (take 2 (drop 4 u)) @
      hex_encode (take 2 (drop 6 u)) @ hex_encode (take 2 (drop 8 u)) @ hex_encode (drop 10 u)"
    by (metis hex_encode_append)
  then show ?thesis by (simp add: uuid_text_def hex_encode_no_dash)
qed

definition demo_env :: env where
  "demo_env =
     \<lparr>e_now = (\<lambda>n. 1700000000000000 + int n), e_rand = (\<lambda>n. Some (\<lambda>i. of_nat (n + i))), e_rand_int = Some,
      e_db = (\<lambda>_. None), e_commit = (\<lambda>_. Committed), e_redis = (\<lambda>_. None), e_bus = (\<lambda>_. Acked), e_trace = [],
      e_sha256 = map (\<lambda>c. of_nat (byte_of c)), e_kdf = demo_kdf,
      e_bcrypt = (\<lambda>stored pw. Some (stored = ''$2a$'' @ pw)), e_ulower = (\<lambda>s. s),
      e_parse_address = (\<lambda>s. if s = [] then None else Some s), e_uuid_scan = demo_scan,
      e_jwt_sign = (\<lambda>c. Some (c_id c)), e_issuer = ''lynk'', e_access_ttl = 900000000,
      e_refresh_ttl = 2592000000000\<rparr>"

lemma demo_reads_text: "scan_reads_text demo_env"
proof -
  have "map ((!) u) [0..<16] = u" if "length u = 16" for u :: "byte list"
    using that map_nth [of u] by simp
  then show ?thesis
    by (simp add: scan_reads_text_def uuidFromString_def demo_env_def demo_scan_def uuid_text_dashes_off
        unhex_hex_encode)
qed

definition empty_db :: db where
  "empty_db = \<lparr>d_users = [], d_refresh = [], d_otps = [], d_api_keys = [], d_identity_outbox = [],
     d_notes = [], d_example_outbox = [], d_policies = [], d_audit = []\<rparr>"

text \<open>The id \<open>n\<close> of a demo row.\<close>

definition demo_id :: "nat \<Rightarrow> uuid" where
  "demo_id n = replicate 15 0 @ [of_nat n]"

definition demo_world :: "db \<Rightarrow> world" where
  "demo_world d = \<lparr>w_step = 0, w_db = d, w_tx = NoTx, w_replicas = [], w_next = 0, w_redis = Map.empty,
     w_pubsub = [], w_bus = [], w_sent = []\<rparr>"

text \<open>Ann has an account (with an imported bcrypt hash of her password) and one session.\<close>

definition ann :: user_row where
  "ann = \<lparr>ur_id = demo_id 1, ur_email = ''ann@x.io'', ur_password_hash = ''$2a$hunter2'', ur_full_name = ''Ann'',
     ur_role = ''user'', ur_status = ''active'', ur_version = 1, ur_created_at = 0, ur_updated_at = 0,
     ur_email_verified_at = None\<rparr>"

definition ann_db :: db where
  "ann_db = empty_db\<lparr>d_users := [ann],
     d_refresh := [\<lparr>rr_id = demo_id 2, rr_user_id = demo_id 1, rr_token_hash = hex_encode (map (\<lambda>c. of_nat (byte_of c)) ''r''),
        rr_expires_at = 1800000000000000, rr_revoked_at = None, rr_created_at = 0\<rparr>]\<rparr>"

lemmas demo = demo_env_def demo_world_def ann_db_def ann_def empty_db_def demo_id_def

lemma uuid7_version: "length r = 10 \<Longrightarrow> uuid7_bytes ms r ! 6 \<noteq> 0"
proof
  assume "length r = 10" and "uuid7_bytes ms r ! 6 = 0"
  then have "((r ! 0) AND 0x0f) OR 0x70 = (0 :: byte)"
    by (simp add: uuid7_bytes_def Let_def be64_def nth_append)
  then have "bit (((r ! 0) AND 0x0f) OR 0x70 :: byte) 4 = bit (0 :: byte) 4" by simp
  then show False by (simp add: bit_simps)
qed

lemma demo_id_not_uuid7: "length r = 10 \<Longrightarrow> demo_id n \<noteq> uuid7_bytes ms r"
proof
  assume r: "length r = 10" and "demo_id n = uuid7_bytes ms r"
  then have "uuid7_bytes ms r ! 6 = demo_id n ! 6" by simp
  also have "\<dots> = 0" by (simp add: demo_id_def nth_append)
  finally show False using uuid7_version [OF r] by simp
qed

lemma length_b64: "3 \<le> length bs \<Longrightarrow> 4 \<le> length (b64_encode a bs)"
proof -
  assume "3 \<le> length bs"
  then obtain x y z r where "bs = x # y # z # r"
    by (metis One_nat_def Suc_le_length_iff numeral_3_eq_3)
  then show ?thesis by (simp add: b64_encode_def)
qed

lemma ann_email: "NewEmail demo_env ''ann@x.io'' = Inr ''ann@x.io''"
proof -
  have "to_lower f ''ann@x.io'' = ''ann@x.io''" for f
    by (simp add: to_lower_def is_ascii_def ascii_lower_def byte_of_def)
  moreover have "trim_space ''ann@x.io'' = ''ann@x.io''"
    by (simp add: trim_space_def trim_left_stop trim_right_stop decode_rune.simps(2) decode_last_rune_def
        byte_of_def is_space_def Let_def)
  ultimately show ?thesis by (simp add: NewEmail_def demo_env_def)
qed

lemma email_canonical_fixed_witness:
  "\<exists>e. NewEmail demo_env ''Ann@x.io'' = Inr e \<and> NewEmail demo_env e = Inr e"
proof -
  have "ascii_lower CHR ''A'' = CHR ''a''" "ascii_lower CHR ''a'' = CHR ''a''"
    by code_simp+
  then have "to_lower f ''Ann@x.io'' = to_lower f ''ann@x.io''" for f
    by (simp add: to_lower_def is_ascii_def byte_of_def)
  then have "NewEmail demo_env ''Ann@x.io'' = Inr ''ann@x.io''" using ann_email by (simp add: NewEmail_def)
  moreover have "is_ascii ''Ann@x.io''" by (simp add: is_ascii_def byte_of_def)
  ultimately show ?thesis using email_canonical_fixed by blast
qed

end
