(* ===== verification/IdentitySessions.thy ===== *)
theory IdentitySessions
  imports IdentityHandler Demo
begin

text \<open>
  What the identity use cases guarantee: atomic registration, login and its lockout, rotation and
  revocation of sessions, single use of one-time codes, revocation of API keys. The first
  section says what a successful call of each adapter did; the properties are read off these.
\<close>

section \<open>Successful calls\<close>

lemma liftE_Inr: "liftE r w = (Inr x, w') \<Longrightarrow> r = Inr x \<and> w' = w"
  by simp

lemma GetByEmail_Inr:
  assumes "UserRepository_GetByEmail E email w = (Inr u, w')"
  obtains row where "GetUserByEmail email (w_db w) = Some row" and "userFromRow E row = Inr u"
    and "w' = w\<lparr>w_step := Suc (w_step w)\<rparr>"
  using assms unfolding UserRepository_GetByEmail_def
  by (auto elim!: orNotFound_InrE dest!: select_one_Inr)

lemma GetByID_Inr:
  assumes "UserRepository_GetByID E uid w = (Inr u, w')"
  obtains pgID row where "uuidFromString E uid = Inr pgID" and "GetUserByID pgID (w_db w) = Some row"
    and "userFromRow E row = Inr u" and "w' = w\<lparr>w_step := Suc (w_step w)\<rparr>"
  using assms unfolding UserRepository_GetByID_def
  by (auto elim!: orNotFound_InrE andThen_InrE dest!: select_one_Inr)

lemma User_Update_Inr:
  assumes "UserRepository_Update E u w = (Inr (), w')"
  obtains uid d n where "uuidFromString E (u_id u) = Inr uid"
    and "UpdateUser uid (u_passwordHash u) (u_fullName u) (u_role u) (u_status u) (u_updatedAt u) (u_version u) (w_db w) = (Inr n, d)"
    and "0 < n" and "w' = w\<lparr>w_step := Suc (w_step w), w_db := d\<rparr>"
  using assms unfolding UserRepository_Update_def
  by (fastforce elim!: andThen_InrE wrapE_InrE query_Inr split: if_splits)

lemma User_Create_Inr:
  assumes "UserRepository_Create E u w = (Inr (), w')"
  obtains uid d where "uuidFromString E (u_id u) = Inr uid"
    and "CreateUser (user_row_of uid u) (w_db w) = (Inr (), d)" and "w' = w\<lparr>w_step := Suc (w_step w), w_db := d\<rparr>"
  using assms unfolding UserRepository_Create_def
  by (fastforce elim!: andThen_InrE catchE_InrE query_Inr split: if_splits)

lemma Refresh_Create_Inr:
  assumes "RefreshTokenRepository_Create E t w = (Inr (), w')"
  obtains tid uid d where "uuidFromString E (rt_id t) = Inr tid" and "uuidFromString E (rt_userID t) = Inr uid"
    and "CreateRefreshToken tid uid (rt_tokenHash t) (rt_expiresAt t) (rt_createdAt t) (w_db w) = (Inr (), d)"
    and "w' = w\<lparr>w_step := Suc (w_step w), w_db := d\<rparr>"
  using assms unfolding RefreshTokenRepository_Create_def
  by (auto elim!: andThen_InrE wrapE_InrE query_Inr)

lemma Refresh_GetByHash_Inr:
  assumes "RefreshTokenRepository_GetByHash E hash w = (Inr t, w')"
  obtains row where "GetRefreshTokenByHash hash (w_db w) = Some row" and "t = refreshFromRow row"
    and "w' = w\<lparr>w_step := Suc (w_step w)\<rparr>"
  using assms unfolding RefreshTokenRepository_GetByHash_def
  by (auto elim!: orNotFound_InrE dest!: select_one_Inr)

lemma Refresh_Revoke_Inr:
  assumes "RefreshTokenRepository_Revoke E tid now w = (Inr (), w')"
  obtains pgID where "uuidFromString E tid = Inr pgID"
    and "w' = w\<lparr>w_step := Suc (w_step w), w_db := snd (RevokeRefreshToken pgID now (w_db w))\<rparr>"
  using assms unfolding RefreshTokenRepository_Revoke_def
  by (auto elim!: andThen_InrE wrapE_InrE query_Inr)

lemma RevokeAll_Inr:
  assumes "RefreshTokenRepository_RevokeAllForUser E uid now w = (Inr (), w')"
  obtains pgID where "uuidFromString E uid = Inr pgID"
    and "w' = w\<lparr>w_step := Suc (w_step w), w_db := snd (RevokeAllRefreshTokensForUser pgID now (w_db w))\<rparr>"
  using assms unfolding RefreshTokenRepository_RevokeAllForUser_def
  by (auto elim!: andThen_InrE wrapE_InrE query_Inr)

lemma GetActive_Inr:
  assumes "OTPRepository_GetActive E userID purpose now w = (Inr c, w')"
  obtains uid row where "uuidFromString E userID = Inr uid"
    and "GetActiveOTP uid (purpose_string purpose) now (w_db w) = Some row" and "c = otpFromRow row"
    and "w' = w\<lparr>w_step := Suc (w_step w)\<rparr>"
  using assms unfolding OTPRepository_GetActive_def
  by (auto elim!: andThen_InrE orNotFound_InrE dest!: select_one_Inr)

lemma Consume_Inr:
  assumes "OTPRepository_Consume E oid now w = (Inr (), w')"
  obtains pgID where "uuidFromString E oid = Inr pgID"
    and "w' = w\<lparr>w_step := Suc (w_step w), w_db := snd (ConsumeOTP pgID now (w_db w))\<rparr>"
  using assms unfolding OTPRepository_Consume_def
  by (fastforce elim!: andThen_InrE wrapE_InrE query_Inr)

lemma Key_Revoke_Inr:
  assumes "APIKeyRepository_Revoke E kid userID now w = (Inr (), w')"
  obtains pgID uid n where "uuidFromString E kid = Inr pgID" and "uuidFromString E userID = Inr uid"
    and "fst (RevokeAPIKey pgID uid now (w_db w)) = Inr n" and "0 < n"
    and "w' = w\<lparr>w_step := Suc (w_step w), w_db := snd (RevokeAPIKey pgID uid now (w_db w))\<rparr>"
  using assms unfolding APIKeyRepository_Revoke_def
  by (fastforce elim!: andThen_InrE wrapE_InrE query_Inr split: if_splits)

lemma Key_GetByHash_Inr:
  assumes "APIKeyRepository_GetByHash E hash w = (Inr k, w')"
  obtains row where "GetAPIKeyByHash hash (w_db w) = Some row" and "k = apiKeyFromRow row"
    and "w' = w\<lparr>w_step := Suc (w_step w)\<rparr>"
  using assms unfolding APIKeyRepository_GetByHash_def
  by (auto elim!: orNotFound_InrE dest!: select_one_Inr)

text \<open>A single event published.\<close>

lemma Publish_one_Inr:
  assumes "identity_publish_one E ev w = (Inr (), w')"
  obtains row where "d_identity_outbox (w_db w') = d_identity_outbox (w_db w) @ [row]"
    and "ob_subject row = identity_Subject ev" and "ob_published_at row = None"
    and "\<exists>t. ob_payload row = Envelope \<lparr>en_event = identity_Subject ev, en_occurred_at = t,
           en_traceparent = e_trace E, en_data = IdentityData ev\<rparr>"
    and "w_db w' = (w_db w)\<lparr>d_identity_outbox := d_identity_outbox (w_db w) @ [row]\<rparr>"
    and "w_redis w' = w_redis w" and "w_tx w' = w_tx w"
proof -
  from assms obtain x w1 x1 w2 oid d t1 t2 where 1: "UUIDGenerator_NewID E w = (Inr x, w1)"
    and 2: "InsertIdentityOutboxEvent oid (identity_Subject ev)
       (Envelope \<lparr>en_event = identity_Subject ev, en_occurred_at = t1, en_traceparent = e_trace E,
                  en_data = IdentityData ev\<rparr>) t2 (w_db w1) = (Inr (), d)"
    and 3: "w' = w1\<lparr>w_step := Suc (Suc (Suc (w_step w1))), w_db := d\<rparr>"
    unfolding identity_publish_one_def
    by (auto elim!: andThen_InrE wrapE_InrE query_Inr)
  from 1 have "w_db w1 = w_db w" "w_redis w1 = w_redis w" "w_tx w1 = w_tx w"
    by (auto dest: NewID_Inr)
  with 2 3 show thesis
    by (intro that [of "\<lparr>ob_id = oid, ob_subject = identity_Subject ev,
        ob_payload = Envelope \<lparr>en_event = identity_Subject ev, en_occurred_at = t1,
          en_traceparent = e_trace E, en_data = IdentityData ev\<rparr>,
        ob_occurred_at = t2, ob_published_at = None\<rparr>"])
      (auto simp: InsertIdentityOutboxEvent_def split: if_splits)
qed

lemma Publish_single [simp]: "IdentityOutbox_Publish E [ev] = identity_publish_one E ev"
  by (simp add: IdentityOutbox_Publish_def fun_eq_iff andThen_def split: prod.splits sum.splits)

lemma Transaction_Inr:
  assumes "WithinTransaction E m w = (Inr x, w')"
  obtains v v' where "w_db v = w_db w" and "w_redis v = w_redis w" and "m v = (Inr x, v')"
    and "w_db w' = w_db v'" and "w_redis w' = w_redis v'"
proof (cases "w_tx w = NoTx")
  case True
  with assms show thesis
    by (auto simp: WithinTransaction_def Let_def split: option.splits prod.splits sum.splits if_splits
        commit_outcome.splits intro: that [of "w\<lparr>w_step := Suc (w_step w), w_tx := TxOpen\<rparr>"])
next
  case False
  with assms that [of w] show thesis by (simp add: WithinTransaction_def)
qed

lemma IssuePair_Inr:
  assumes "IssuePair E u w = (Inr pair, w')"
  obtains sid uid tid now where "uuidFromString E sid = Inr tid" and "uuidFromString E (u_id u) = Inr uid"
    and "fst (CreateRefreshToken tid uid (OpaqueTokens_Hash E (tp_RefreshRaw pair)) (now + e_refresh_ttl E) now (w_db w)) = Inr ()"
    and "w_db w' = snd (CreateRefreshToken tid uid (OpaqueTokens_Hash E (tp_RefreshRaw pair)) (now + e_refresh_ttl E) now (w_db w))"
    and "\<exists>n. now = e_now E n"
proof -
  have db: "w_db w1 = w_db w" if "AccessTokenSigner_Issue E a b w = (Inr x, w1)" for a b x w w1
    using that by (auto simp: identity_tokens Let_def elim!: andThen_InrE split: option.splits)
  have gen: "w_db w1 = w_db w \<and> hash = OpaqueTokens_Hash E raw"
    if "OpaqueTokens_Generate E w = (Inr (raw, hash), w1)" for raw hash w w1
    using that by (auto simp: identity_tokens elim!: andThen_InrE)
  from assms obtain access w1 raw hash w2 sid w3 where 1: "AccessTokenSigner_Issue E (u_id u) (u_role u) w = (Inr access, w1)"
    and 2: "OpaqueTokens_Generate E w1 = (Inr (raw, hash), w2)"
    and 3: "UUIDGenerator_NewID E w2 = (Inr sid, w3)"
    and 4: "RefreshTokenRepository_Create E
       (NewRefreshToken sid (u_id u) hash (e_now E (w_step w3) + e_refresh_ttl E) (e_now E (w_step w3)))
       (w3\<lparr>w_step := Suc (w_step w3)\<rparr>) = (Inr (), w')"
    and 5: "pair = \<lparr>tp_Access = access, tp_RefreshRaw = raw\<rparr>"
    unfolding IssuePair_def by (auto elim!: andThen_InrE)
  from 4 obtain tid uid d where "uuidFromString E sid = Inr tid" "uuidFromString E (u_id u) = Inr uid"
    and "CreateRefreshToken tid uid hash (e_now E (w_step w3) + e_refresh_ttl E) (e_now E (w_step w3)) (w_db w3) = (Inr (), d)"
    and "w_db w' = d"
    by (auto elim!: Refresh_Create_Inr simp: NewRefreshToken_def)
  moreover have "w_db w3 = w_db w" "hash = OpaqueTokens_Hash E raw"
    using db [OF 1] gen [OF 2] NewID_Inr [OF 3] by auto
  ultimately show thesis using 5 by (intro that [of sid tid uid "e_now E (w_step w3)"]) auto
qed

section \<open>Sessions\<close>

lemma Refresh_check_Inr:
  assumes "Refresh_check E raw w = (Inr (session, u), w')"
  obtains row now where "row \<in> set (d_refresh (w_db w))" and "rr_token_hash row = OpaqueTokens_Hash E raw"
    and "session = refreshFromRow row" and "rr_revoked_at row = None" and "now < rr_expires_at row"
    and "\<exists>n. now = e_now E n" and "w_db w' = w_db w" and "w_redis w' = w_redis w" and "w_tx w' = w_tx w"
    and "CanSignIn u"
  using assms unfolding Refresh_check_def
  by (fastforce elim!: andThen_InrE catchE_InrE Refresh_GetByHash_Inr GetByID_Inr split: if_splits
      simp: RefreshToken_IsActive_def refreshFromRow_def RefreshTokenFromState_def GetRefreshTokenByHash_def
      dest!: find_Some_set)

lemma revoked_not_active:
  "session_revoked (OpaqueTokens_Hash E raw) (w_db w) \<Longrightarrow> Refresh_check E raw w \<noteq> (Inr x, w')"
  by (cases x) (auto simp: session_revoked_def elim!: Refresh_check_Inr)

lemma session_revoked_by_id:
  assumes "identity_ok d" and "row \<in> set (d_refresh d)" and "pgID = rr_id row"
  shows "session_revoked (rr_token_hash row) (snd (RevokeRefreshToken pgID now d))"
proof -
  have uniq: "x = row" if "x \<in> set (d_refresh d)" "rr_token_hash x = rr_token_hash row" for x
  proof -
    have "distinct (map rr_token_hash (d_refresh d))" using assms(1) by (simp add: identity_ok_def)
    then show ?thesis using that assms(2) by (auto dest: distinct_map_eq)
  qed
  have "rr_token_hash row \<in> rr_token_hash ` set (d_refresh d)" using assms(2) by simp
  then show ?thesis
    using assms(3)
    by (auto simp: session_revoked_def RevokeRefreshToken_def ball_update_rows image_update_rows dest: uniq)
qed

lemma scan_own_id:
  "scan_reads_text E \<Longrightarrow> length i = 16 \<Longrightarrow> uuidFromString E (uuidToString i) = Inr j \<Longrightarrow> j = i"
  by (auto simp: scan_reads_text_def uuidToString_text)

lemma Revoke_own:
  assumes "identity_ok (w_db w)" and "scan_reads_text E" and "row \<in> set (d_refresh (w_db w))"
    and "RefreshTokenRepository_Revoke E (rt_id (refreshFromRow row)) now w = (Inr (), w')"
  shows "session_revoked (rr_token_hash row) (w_db w')"
proof -
  have "length (rr_id row) = 16" using assms(1,3) by (auto simp: identity_ok_def)
  with assms show ?thesis
    by (auto elim!: Refresh_Revoke_Inr simp: refreshFromRow_def RefreshTokenFromState_def
        dest!: scan_own_id intro: session_revoked_by_id)
qed

lemma Refresh_revokes:
  assumes ok: "identity_ok (w_db w)" "scan_reads_text E" and run: "Refresh_Execute E raw w = (Inr pair, w')"
  shows "session_revoked (OpaqueTokens_Hash E raw) (w_db w')"
proof -
  from run obtain session u w1 where check: "Refresh_check E raw w = (Inr (session, u), w1)"
    and rot: "Refresh_rotate E session u w1 = (Inr pair, w')"
    unfolding Refresh_Execute_def by (auto elim!: andThen_InrE)
  from check obtain row where row: "row \<in> set (d_refresh (w_db w))" "rr_token_hash row = OpaqueTokens_Hash E raw"
    "session = refreshFromRow row" "w_db w1 = w_db w"
    by (rule Refresh_check_Inr)
  from rot obtain v v' where "w_db v = w_db w1" and db': "w_db w' = w_db v'"
    and body: "andThen (clock_Now E) (\<lambda>now. andThen (RefreshTokenRepository_Revoke E (rt_id session) now)
      (\<lambda>_. IssuePair E u)) v = (Inr pair, v')"
    unfolding Refresh_rotate_def by (auto elim!: Transaction_Inr)
  from body obtain now v1 where v1: "RefreshTokenRepository_Revoke E (rt_id session) now (v\<lparr>w_step := Suc (w_step v)\<rparr>) = (Inr (), v1)"
    and issue: "IssuePair E u v1 = (Inr pair, v')"
    by (auto elim!: andThen_InrE)
  have "session_revoked (rr_token_hash row) (w_db v1)"
    by (rule Revoke_own [OF _ ok(2) _ v1 [unfolded row(3)]]) (use \<open>w_db v = w_db w1\<close> row ok in simp_all)
  with preserves_run [OF revoked.use_cases_keep(2) _ issue] have "session_revoked (rr_token_hash row) (w_db v')"
    by (simp add: on_db_def)
  with row db' show ?thesis by simp
qed

text \<open>
  C7. Rotation works. A refresh token that was exchanged once is refused for ever after,
  whatever requests any callers make in between: once \<open>Refresh\<close> returned a pair, no history of
  requests leads to a state in which the same token refreshes again.
\<close>

theorem refresh_reuse_rejected:
  assumes "identity_ok (w_db w)" and "scan_reads_text E"
    and "Refresh_Execute E raw w = (Inr pair, w1)"
  shows "fst (Refresh_Execute E raw (identity_serve E reqs w1)) \<noteq> Inr pair'"
proof
  let ?v = "identity_serve E reqs w1"
  assume "fst (Refresh_Execute E raw ?v) = Inr pair'"
  then obtain v' where "Refresh_Execute E raw ?v = (Inr pair', v')" by (metis prod.collapse)
  then obtain x v1 where "Refresh_check E raw ?v = (Inr x, v1)"
    unfolding Refresh_Execute_def by (auto elim!: andThen_InrE)
  moreover have "session_revoked (OpaqueTokens_Hash E raw) (w_db ?v)"
    using Refresh_revokes [OF assms] by (rule revoked.history_keeps)
  ultimately show False using revoked_not_active by blast
qed

text \<open>
  Logout ends both halves of a session. When the session can be read, a successful logout
  leaves its refresh token revoked, and the access token's id is on the blacklist the gateway
  consults from the moment of the call until a full access lifetime has passed.
\<close>

theorem logout_ends_session:
  assumes "identity_ok (w_db w)" and "scan_reads_text E" and "w_tx w = NoTx"
    and "e_db E (w_step w) = None" and "jti \<noteq> []" and "0 < e_access_ttl E"
    and "Logout_Execute E raw jti w = (Inr (), w')"
  shows "(OpaqueTokens_Hash E raw \<in> rr_token_hash ` set (d_refresh (w_db w)) \<longrightarrow>
            session_revoked (OpaqueTokens_Hash E raw) (w_db w')) \<and>
         (\<exists>n. \<forall>t < e_now E n + e_access_ttl E. r_get t (blacklist_key jti) (w_redis w') = Some (RStr ''1''))"
proof -
  let ?h = "OpaqueTokens_Hash E raw"
  let ?m = "catchE (RefreshTokenRepository_GetByHash E ?h) (\<lambda>_. ret ())
          (\<lambda>session. andThen (clock_Now E) (\<lambda>now. RefreshTokenRepository_Revoke E (rt_id session) now))"
  from assms(7) obtain w1 where m: "?m w = (Inr (), w1)" and b: "Blacklist_Revoke E jti (e_access_ttl E) w1 = (Inr (), w')"
    unfolding Logout_Execute_def using assms(5) by (auto elim!: andThen_InrE)
  have db: "w_db w' = w_db w1"
    using b unfolding Blacklist_Revoke_def
    by (auto elim!: andThen_InrE wrapE_InrE simp: redis_Set_def dest!: redis_call_Inr)
  have "session_revoked ?h (w_db w1)" if "?h \<in> rr_token_hash ` set (d_refresh (w_db w))"
  proof -
    from that obtain row where row: "row \<in> set (d_refresh (w_db w))" "rr_token_hash row = ?h"
      by (metis (no_types, lifting) image_iff)
    moreover have "distinct (map rr_token_hash (d_refresh (w_db w)))" using assms(1) by (simp add: identity_ok_def)
    ultimately have "GetRefreshTokenByHash ?h (w_db w) = Some row"
      by (simp add: GetRefreshTokenByHash_def find_distinct flip: row(2))
    then have "RefreshTokenRepository_GetByHash E ?h w = (Inr (refreshFromRow row), w\<lparr>w_step := Suc (w_step w)\<rparr>)"
      using assms(3,4)
      by (simp add: RefreshTokenRepository_GetByHash_def select_one_def select_rows_def query_ok one_row_def)
    with m have "RefreshTokenRepository_Revoke E (rt_id (refreshFromRow row)) (e_now E (Suc (w_step w)))
        (w\<lparr>w_step := Suc (Suc (w_step w))\<rparr>) = (Inr (), w1)"
      by simp
    from Revoke_own [OF _ assms(2) _ this] row assms(1) show ?thesis by simp
  qed
  moreover have "\<exists>n. \<forall>t < e_now E n + e_access_ttl E. r_get t (blacklist_key jti) (w_redis w') = Some (RStr ''1'')"
    using b assms(6) unfolding Blacklist_Revoke_def
    by (auto elim!: andThen_InrE wrapE_InrE simp: redis_Set_def rs.get_put dest!: redis_call_Inr
        intro!: exI [of _ "w_step w1"])
  ultimately show ?thesis by (simp add: db)
qed

section \<open>Calls that succeed\<close>

text \<open>No call of the environment fails.\<close>

definition faultless :: "env \<Rightarrow> bool" where
  "faultless E \<longleftrightarrow> (\<forall>n. e_db E n = None) \<and> (\<forall>n. e_commit E n = Committed) \<and> (\<forall>n. e_redis E n = None) \<and>
     (\<forall>n. e_rand E n \<noteq> None) \<and> (\<forall>n. e_rand_int E n \<noteq> None) \<and> (\<forall>c. e_jwt_sign E c \<noteq> None)"

definition drawn :: "env \<Rightarrow> nat \<Rightarrow> nat \<Rightarrow> byte list" where
  "drawn E n k = map (the (e_rand E n)) [0..<k]"

definition drawn_id :: "env \<Rightarrow> nat \<Rightarrow> uuid" where
  "drawn_id E n = uuid7_bytes (of_int (e_now E (Suc n) div 1000)) (drawn E n 10)"

definition drawn_hash :: "env \<Rightarrow> nat \<Rightarrow> string" where
  "drawn_hash E n = OpaqueTokens_Hash E (b64_encode b64_url (drawn E n 32))"

text \<open>The session a pair issued at step \<open>n\<close> stores collides with none in the table.\<close>

definition fresh_session :: "env \<Rightarrow> nat \<Rightarrow> db \<Rightarrow> bool" where
  "fresh_session E n d \<longleftrightarrow>
     (\<forall>r \<in> set (d_refresh d). rr_id r \<noteq> drawn_id E (n + 3) \<and> rr_token_hash r \<noteq> drawn_hash E (n + 2))"

text \<open>Step counts as successors, the form symbolic execution produces.\<close>

lemma steps:
  "(n::nat) + 2 = Suc (Suc n)"
  "(n::nat) + 3 = Suc (Suc (Suc n))"
  "(n::nat) + 4 = Suc (Suc (Suc (Suc n)))"
  "(n::nat) + 5 = Suc (Suc (Suc (Suc (Suc n))))"
  "(n::nat) + 6 = Suc (Suc (Suc (Suc (Suc (Suc n)))))"
  "(n::nat) + 7 = Suc (Suc (Suc (Suc (Suc (Suc (Suc n))))))"
  "(n::nat) + 8 = Suc (Suc (Suc (Suc (Suc (Suc (Suc (Suc n)))))))"
  "(n::nat) + 9 = Suc (Suc (Suc (Suc (Suc (Suc (Suc (Suc (Suc n))))))))"
  "(n::nat) + 10 = Suc (Suc (Suc (Suc (Suc (Suc (Suc (Suc (Suc (Suc n)))))))))"
  "(n::nat) + 11 = Suc (Suc (Suc (Suc (Suc (Suc (Suc (Suc (Suc (Suc (Suc n))))))))))"
  "(n::nat) + 12 = Suc (Suc (Suc (Suc (Suc (Suc (Suc (Suc (Suc (Suc (Suc (Suc n)))))))))))"
  "(n::nat) + 13 = Suc (Suc (Suc (Suc (Suc (Suc (Suc (Suc (Suc (Suc (Suc (Suc (Suc n))))))))))))"
  "(n::nat) + 14 = Suc (Suc (Suc (Suc (Suc (Suc (Suc (Suc (Suc (Suc (Suc (Suc (Suc (Suc n)))))))))))))"
  "(n::nat) + 15 = Suc (Suc (Suc (Suc (Suc (Suc (Suc (Suc (Suc (Suc (Suc (Suc (Suc (Suc (Suc n))))))))))))))"
  "(n::nat) + 16 = Suc (Suc (Suc (Suc (Suc (Suc (Suc (Suc (Suc (Suc (Suc (Suc (Suc (Suc (Suc (Suc n)))))))))))))))"
  "(n::nat) + 17 = Suc (Suc (Suc (Suc (Suc (Suc (Suc (Suc (Suc (Suc (Suc (Suc (Suc (Suc (Suc (Suc (Suc n))))))))))))))))"
  "(n::nat) + 18 = Suc (Suc (Suc (Suc (Suc (Suc (Suc (Suc (Suc (Suc (Suc (Suc (Suc (Suc (Suc (Suc (Suc (Suc n)))))))))))))))))"
  by simp_all

lemma signs: "faultless E \<Longrightarrow> \<exists>tok. e_jwt_sign E c = Some tok"
  by (simp add: faultless_def)

lemma drawn_Some: "faultless E \<Longrightarrow> e_rand E n = Some (the (e_rand E n))"
  by (simp add: faultless_def)

lemma length_drawn_id [simp]: "length (drawn_id E n) = 16"
  by (simp add: drawn_id_def length_uuid7 drawn_def)

lemma rand_Read_drawn: "faultless E \<Longrightarrow> rand_Read E k w = (Inr (Some (drawn E (w_step w) k)), w\<lparr>w_step := Suc (w_step w)\<rparr>)"
  using drawn_Some [of E "w_step w"] by (auto simp: drawn_def)

lemma NewID_drawn:
  "faultless E \<Longrightarrow> UUIDGenerator_NewID E w = (Inr (uuid_text (drawn_id E (w_step w))), w\<lparr>w_step := Suc (Suc (w_step w))\<rparr>)"
  using NewID_ok [OF drawn_Some, of E w] by (simp add: drawn_id_def drawn_def)

lemma query_faultless:
  "faultless E \<Longrightarrow> w_tx w \<noteq> TxAborted \<Longrightarrow> f (w_db w) = (Inr x, d) \<Longrightarrow>
   query E f w = (Inr x, w\<lparr>w_step := Suc (w_step w), w_db := d\<rparr>)"
  by (rule query_ok) (simp_all add: faultless_def)

lemma select_one_faultless:
  "faultless E \<Longrightarrow> w_tx w \<noteq> TxAborted \<Longrightarrow> f (w_db w) = Some x \<Longrightarrow>
   select_one E f w = (Inr x, w\<lparr>w_step := Suc (w_step w)\<rparr>)"
  by (simp add: select_one_def select_rows_def query_faultless one_row_def)

lemma scan_text: "scan_reads_text E \<Longrightarrow> length u = 16 \<Longrightarrow> uuidFromString E (uuid_text u) = Inr u"
  by (simp add: scan_reads_text_def)

lemma uuid_shape_text: "length u = 16 \<Longrightarrow> uuid_shape (uuid_text u)"
  using uuid_text_dashes [of u] by (simp add: uuid_shape_def length_uuid_text)

lemma IssuePair_ok:
  assumes "faultless E" and "scan_reads_text E" and "w_tx w \<noteq> TxAborted"
    and "uuidFromString E (u_id u) = Inr uid" and "known_user uid (w_db w)" and "fresh_session E (w_step w) (w_db w)"
  shows "\<exists>pair d. IssuePair E u w = (Inr pair, w\<lparr>w_step := w_step w + 7, w_db := d\<rparr>) \<and> d_users d = d_users (w_db w) \<and>
    d_refresh d = d_refresh (w_db w) @ [\<lparr>rr_id = drawn_id E (w_step w + 3), rr_user_id = uid,
      rr_token_hash = drawn_hash E (w_step w + 2), rr_expires_at = e_now E (w_step w + 5) + e_refresh_ttl E,
      rr_revoked_at = None, rr_created_at = e_now E (w_step w + 5)\<rparr>]"
proof -
  obtain tok where tok: "e_jwt_sign E \<lparr>c_subject = u_id u, c_issuer = e_issuer E, c_id = hex_encode (drawn E (w_step w) 16),
      c_issued_at = numeric_date (e_now E (Suc (w_step w))),
      c_expires_at = numeric_date (e_now E (Suc (w_step w)) + e_access_ttl E),
      c_not_before = numeric_date (e_now E (Suc (w_step w))), c_role = u_role u, c_token_type = TokenTypeUser\<rparr> = Some tok"
    using signs [OF assms(1)] by blast
  have "CreateRefreshToken (drawn_id E (w_step w + 3)) uid (drawn_hash E (w_step w + 2)) x y (w_db w) =
    (Inr (), (w_db w)\<lparr>d_refresh := d_refresh (w_db w) @ [\<lparr>rr_id = drawn_id E (w_step w + 3), rr_user_id = uid,
      rr_token_hash = drawn_hash E (w_step w + 2), rr_expires_at = x, rr_revoked_at = None, rr_created_at = y\<rparr>]\<rparr>)" for x y
    using assms(5,6) by (auto simp: CreateRefreshToken_def fresh_session_def)
  note create = this [unfolded drawn_hash_def, simplified steps]
  show ?thesis
    using assms(1,3) tok
    by (simp add: IssuePair_def identity_tokens Let_def rand_Read_drawn NewID_drawn
        sec_HexToken_def sec_Token_def from_secure_def NewRefreshToken_def RefreshTokenRepository_Create_def
        scan_text [OF assms(2)] assms(4) query_faultless create wrapE_def catchE_def drawn_hash_def
        steps del: rand_Read_simp)
      (rule exI, rule conjI, rule refl, simp)
qed

lemma userFromRow_ok:
  "length (ur_id row) = 16 \<Longrightarrow> NewEmail E (ur_email row) = Inr (ur_email row) \<Longrightarrow>
   userFromRow E row = Inr (UserFromState (uuid_text (ur_id row)) (ur_email row) (ur_password_hash row)
     (ur_full_name row) (ur_role row) (ur_status row) (ur_version row) (ur_created_at row) (ur_updated_at row))"
  by (simp add: userFromRow_def NewUserID_def uuidToString_text uuid_shape_text)

lemma Refresh_ok:
  assumes E: "faultless E" "scan_reads_text E" and w: "identity_ok (w_db w)" "w_tx w = NoTx"
    and row: "row \<in> set (d_refresh (w_db w))" "rr_token_hash row = OpaqueTokens_Hash E raw"
    and live: "rr_revoked_at row = None" "e_now E (w_step w + 1) < rr_expires_at row"
    and u: "urow \<in> set (d_users (w_db w))" "ur_id urow = rr_user_id row" "ur_status urow = StatusActive"
      "NewEmail E (ur_email urow) = Inr (ur_email urow)"
    and fresh: "fresh_session E (w_step w + 6) (w_db w)"
  shows "\<exists>pair w' new. Refresh_Execute E raw w = (Inr pair, w') \<and>
    rr_user_id new = rr_user_id row \<and> rr_revoked_at new = None \<and>
    d_refresh (w_db w') =
      update_rows (\<lambda>r. rr_id r = rr_id row \<and> rr_revoked_at r = None)
        (\<lambda>r. r\<lparr>rr_revoked_at := Some (e_now E (w_step w + 4))\<rparr>) (d_refresh (w_db w)) @ [new]"
proof -
  let ?n = "w_step w"
  have len: "length (rr_id row) = 16" "length (rr_user_id row) = 16"
    using w(1) row(1) u(1,2) by (auto simp: identity_ok_def)
  have find1: "GetRefreshTokenByHash (OpaqueTokens_Hash E raw) (w_db w) = Some row"
    using w(1) row by (auto simp: GetRefreshTokenByHash_def identity_ok_def find_distinct simp flip: row(2))
  have find2: "GetUserByID (rr_user_id row) (w_db w) = Some urow"
    using w(1) u(1,2) by (auto simp: GetUserByID_def identity_ok_def find_distinct simp flip: u(2))
  let ?u = "UserFromState (uuid_text (ur_id urow)) (ur_email urow) (ur_password_hash urow)
     (ur_full_name urow) (ur_role urow) (ur_status urow) (ur_version urow) (ur_created_at urow) (ur_updated_at urow)"
  have check: "Refresh_check E raw w = (Inr (refreshFromRow row, ?u), w\<lparr>w_step := ?n + 3\<rparr>)"
    using E(1) w(2) live u(3) len(2) userFromRow_ok [OF _ u(4)]
    by (simp add: Refresh_check_def RefreshTokenRepository_GetByHash_def orNotFound_def select_one_faultless find1
        find2 RefreshToken_IsActive_def refreshFromRow_def RefreshTokenFromState_def NewUserID_def uuidToString_text
        uuid_shape_text UserRepository_GetByID_def scan_text [OF E(2)] u(2) CanSignIn_def UserFromState_def
        steps)
  let ?v = "tx_enter (w\<lparr>w_step := ?n + 3\<rparr>)"
  let ?d = "snd (RevokeRefreshToken (rr_id row) (e_now E (?n + 4)) (w_db w))"
  let ?v1 = "?v\<lparr>w_step := ?n + 6, w_db := ?d\<rparr>"
  have rev: "RefreshTokenRepository_Revoke E (rt_id (refreshFromRow row)) (e_now E (?n + 4)) (?v\<lparr>w_step := ?n + 5\<rparr>)
      = (Inr (), ?v1)"
    using E(1) len(1)
    by (simp add: RefreshTokenRepository_Revoke_def refreshFromRow_def RefreshTokenFromState_def uuidToString_text
        scan_text [OF E(2)] query_faultless RevokeRefreshToken_def tx_enter_def steps)
  have "fresh_session E (?n + 6) ?d"
    using fresh by (auto simp: fresh_session_def RevokeRefreshToken_def ball_update_rows)
  moreover have "known_user (rr_user_id row) ?d"
    using u(1) by (simp add: known_user_def RevokeRefreshToken_def flip: u(2))
  ultimately obtain pair d new where issue: "IssuePair E ?u ?v1 = (Inr pair, ?v1\<lparr>w_step := ?n + 13, w_db := d\<rparr>)"
    and d: "d_refresh d = d_refresh ?d @ [new]" "rr_user_id new = rr_user_id row" "rr_revoked_at new = None"
    using IssuePair_ok [OF E, of ?v1 ?u "rr_user_id row"] u(2) len(2)
    by (fastforce simp: UserFromState_def scan_text [OF E(2)] tx_enter_def add.assoc)
  let ?m = "andThen (clock_Now E) (\<lambda>now. andThen (RefreshTokenRepository_Revoke E (rt_id (refreshFromRow row)) now)
      (\<lambda>_. IssuePair E ?u))"
  have body: "?m ?v = (Inr pair, ?v1\<lparr>w_step := ?n + 13, w_db := d\<rparr>)"
    using rev issue by (simp add: tx_enter_def steps)
  have rot: "Refresh_rotate E (refreshFromRow row) ?u (w\<lparr>w_step := ?n + 3\<rparr>) =
      (Inr pair, ?v1\<lparr>w_step := ?n + 14, w_db := d, w_tx := NoTx\<rparr>)"
    unfolding Refresh_rotate_def
    using WithinTransaction_ok [where m = ?m and w = "w\<lparr>w_step := ?n + 3\<rparr>", OF _ _ body] E(1) w(2) by (simp add: faultless_def tx_enter_def steps)
  have "Refresh_Execute E raw w = (Inr pair, ?v1\<lparr>w_step := ?n + 14, w_db := d, w_tx := NoTx\<rparr>)"
    by (simp add: Refresh_Execute_def check rot)
  with d show ?thesis
    by (intro exI [of _ pair] exI [of _ "?v1\<lparr>w_step := ?n + 14, w_db := d, w_tx := NoTx\<rparr>"]
        exI [of _ new]) (simp add: RevokeRefreshToken_def)
qed

section \<open>Witnesses\<close>

lemma demo_faultless: "faultless demo_env"
  by (simp add: faultless_def demo_env_def)

lemma ann_db_ok: "identity_ok ann_db"
  by (simp add: identity_ok_def demo)

lemma ann_fresh: "fresh_session demo_env n ann_db"
proof -
  have h: "hex_encode [x] \<noteq> drawn_hash demo_env m" for m x
  proof
    assume "hex_encode [x] = drawn_hash demo_env m"
    then have "length (hex_encode [x]) = length (drawn_hash demo_env m)" by simp
    also have "\<dots> = 2 * length (b64_encode b64_url (drawn demo_env m 32))"
      unfolding drawn_hash_def OpaqueTokens_Hash_def sec_HashToken_def length_hex_encode
      by (simp only: demo_env_def env.simps length_map)
    finally have "length (b64_encode b64_url (drawn demo_env m 32)) = 1" by simp
    moreover have "4 \<le> length (b64_encode b64_url (drawn demo_env m 32))"
      by (rule length_b64) (simp add: drawn_def)
    ultimately show False by simp
  qed
  have i: "demo_id k \<noteq> drawn_id demo_env m" for k m
    unfolding drawn_id_def by (rule demo_id_not_uuid7) (simp add: drawn_def)
  show ?thesis
    by (simp add: fresh_session_def ann_db_def h i)
qed

lemma demo_row:
  "hd (d_refresh ann_db) \<in> set (d_refresh ann_db)" "rr_token_hash (hd (d_refresh ann_db)) = OpaqueTokens_Hash demo_env ''r''"
  "rr_revoked_at (hd (d_refresh ann_db)) = None" "1700000000000001 < rr_expires_at (hd (d_refresh ann_db))"
  "ann \<in> set (d_users ann_db)" "ur_id ann = rr_user_id (hd (d_refresh ann_db))" "ur_status ann = StatusActive"
  "NewEmail demo_env (ur_email ann) = Inr (ur_email ann)"
  using ann_email by (simp_all add: demo OpaqueTokens_Hash_def sec_HashToken_def StatusActive_def)

lemma demo_refresh: "\<exists>pair w'. Refresh_Execute demo_env ''r'' (demo_world ann_db) = (Inr pair, w')"
  using Refresh_ok [of demo_env "demo_world ann_db", OF demo_faultless demo_reads_text _ _ _ demo_row(2,3) _ _ demo_row(6-8)]
    demo_row ann_db_ok ann_fresh by (fastforce simp: demo_world_def demo_env_def)

text \<open>
  Refresh serves every live session. In an environment without faults, a session that is
  neither revoked nor expired and belongs to an active account is exchanged for a new pair,
  its own row is revoked, and exactly one new session of the same user is stored, provided the
  drawn id and token collide with none in the table.
\<close>

theorem refresh_succeeds:
  assumes E: "faultless E" "scan_reads_text E" and w: "identity_ok (w_db w)" "w_tx w = NoTx"
    and row: "row \<in> set (d_refresh (w_db w))" "rr_token_hash row = OpaqueTokens_Hash E raw"
    and live: "rr_revoked_at row = None" "e_now E (w_step w + 1) < rr_expires_at row"
    and u: "urow \<in> set (d_users (w_db w))" "ur_id urow = rr_user_id row" "ur_status urow = StatusActive"
      "NewEmail E (ur_email urow) = Inr (ur_email urow)"
    and fresh: "fresh_session E (w_step w + 6) (w_db w)"
  shows "\<exists>pair w' new. Refresh_Execute E raw w = (Inr pair, w') \<and>
    rr_user_id new = rr_user_id row \<and> rr_revoked_at new = None \<and>
    d_refresh (w_db w') =
      update_rows (\<lambda>r. rr_id r = rr_id row \<and> rr_revoked_at r = None)
        (\<lambda>r. r\<lparr>rr_revoked_at := Some (e_now E (w_step w + 4))\<rparr>) (d_refresh (w_db w)) @ [new]"
  using assms by (rule Refresh_ok)

lemma refresh_succeeds_witness:
  "\<exists>pair w' new. Refresh_Execute demo_env ''r'' (demo_world ann_db) = (Inr pair, w') \<and> rr_revoked_at new = None \<and>
     d_refresh (w_db w') = map (\<lambda>r. r\<lparr>rr_revoked_at := Some 1700000000000004\<rparr>) (d_refresh ann_db) @ [new]"
  using refresh_succeeds [of demo_env "demo_world ann_db", OF demo_faultless demo_reads_text _ _ _ demo_row(2,3) _ _ demo_row(6-8)]
    demo_row ann_db_ok ann_fresh by (fastforce simp: demo update_rows_def)

lemma refresh_reuse_rejected_witness:
  "\<exists>pair w1. Refresh_Execute demo_env ''r'' (demo_world ann_db) = (Inr pair, w1) \<and>
     (\<forall>reqs pair'. fst (Refresh_Execute demo_env ''r'' (identity_serve demo_env reqs w1)) \<noteq> Inr pair')"
  using demo_refresh refresh_reuse_rejected [of "demo_world ann_db" demo_env "''r''"]
    ann_db_ok demo_reads_text by (fastforce simp: demo_world_def)

lemma redis_Set_faultless:
  "faultless E \<Longrightarrow> redis_Set E k v ttl w =
     (Inr (), w\<lparr>w_step := Suc (w_step w), w_redis := r_set (e_now E (w_step w)) k v ttl (w_redis w)\<rparr>)"
  by (simp add: redis_Set_def redis_call_def Let_def faultless_def)

lemma demo_step: "w_step (demo_world d) = 0"
  by (simp add: demo_world_def)

lemma demo_logout: "\<exists>w'. Logout_Execute demo_env ''r'' ''id1'' (demo_world ann_db) = (Inr (), w')"
proof -
  let ?row = "hd (d_refresh ann_db)"
  let ?w = "demo_world ann_db"
  have f: "GetRefreshTokenByHash (OpaqueTokens_Hash demo_env ''r'') (w_db ?w) = Some ?row"
    using demo_row by (simp add: GetRefreshTokenByHash_def demo_world_def ann_db_def)
  have l: "length (rr_id ?row) = 16" by (simp add: demo)
  have g: "RefreshTokenRepository_GetByHash demo_env (OpaqueTokens_Hash demo_env ''r'') ?w =
      (Inr (refreshFromRow ?row), ?w\<lparr>w_step := Suc (w_step ?w)\<rparr>)"
  proof -
    have "w_tx ?w \<noteq> TxAborted" by (simp add: demo_world_def)
    from select_one_faultless [where f = "GetRefreshTokenByHash (OpaqueTokens_Hash demo_env ''r'')", OF demo_faultless this f]
    show ?thesis by (simp add: RefreshTokenRepository_GetByHash_def)
  qed
  have r: "\<exists>w'. RefreshTokenRepository_Revoke demo_env (rt_id (refreshFromRow ?row)) t (?w\<lparr>w_step := k\<rparr>) = (Inr (), w')" for t k
    using l by (simp add: RefreshTokenRepository_Revoke_def refreshFromRow_def RefreshTokenFromState_def uuidToString_text
        scan_text [OF demo_reads_text] query_faultless [OF demo_faultless] RevokeRefreshToken_def demo_world_def)
  from r [of "e_now demo_env 1" 2] show ?thesis
    by (auto simp: Logout_Execute_def g demo_step Blacklist_Revoke_def redis_Set_faultless [OF demo_faultless] numeral_2_eq_2)
qed

lemma logout_ends_session_witness:
  "\<exists>w' n. Logout_Execute demo_env ''r'' ''id1'' (demo_world ann_db) = (Inr (), w') \<and>
     session_revoked (OpaqueTokens_Hash demo_env ''r'') (w_db w') \<and>
     r_get (e_now demo_env n) (blacklist_key ''id1'') (w_redis w') = Some (RStr ''1'')"
proof -
  obtain w' where run: "Logout_Execute demo_env ''r'' ''id1'' (demo_world ann_db) = (Inr (), w')"
    using demo_logout by blast
  have "OpaqueTokens_Hash demo_env ''r'' \<in> rr_token_hash ` set (d_refresh ann_db)"
    using demo_row(1,2) by (metis imageI)
  with logout_ends_session [OF _ demo_reads_text _ _ _ _ run] ann_db_ok
  obtain n where "session_revoked (OpaqueTokens_Hash demo_env ''r'') (w_db w')"
    and "\<forall>t < e_now demo_env n + e_access_ttl demo_env. r_get t (blacklist_key ''id1'') (w_redis w') = Some (RStr ''1'')"
    by (auto simp: demo_world_def demo_env_def)
  moreover from this have "r_get (e_now demo_env n) (blacklist_key ''id1'') (w_redis w') = Some (RStr ''1'')"
    by (simp add: demo_env_def)
  ultimately show ?thesis using run by blast
qed

end
