(* ===== verification/IdentityLogin.thy ===== *)
theory IdentityLogin
  imports IdentitySessions
begin

text \<open>
  Registration and login: atomicity of the account's creation, what a successful login proves,
  why failures tell nothing about accounts, and the lockout.
\<close>

section \<open>The throttle in closed form\<close>

definition throttle_open :: "env \<Rightarrow> string \<Rightarrow> nat \<Rightarrow> redis \<Rightarrow> bool" where
  "throttle_open E identifier n s \<longleftrightarrow>
     (case e_redis E n of
        Some t \<Rightarrow> True
      | None \<Rightarrow> (case r_get (e_now E n) (throttleKey E identifier) s of
                   Some (RInt count) \<Rightarrow> count < throttleMaxFailures
                 | _ \<Rightarrow> True))"

definition with_failure :: "env \<Rightarrow> string \<Rightarrow> nat \<Rightarrow> redis \<Rightarrow> redis" where
  "with_failure E identifier n s =
     (case e_redis E n of
        Some t \<Rightarrow> s
      | None \<Rightarrow> r_expire (e_now E n) (throttleKey E identifier) throttleWindow
                  (snd (r_incr (e_now E n) (throttleKey E identifier) s)))"

lemma Throttle_Allowed_simp:
  "Throttle_Allowed E i w = (Inr (throttle_open E i (w_step w) (w_redis w)), w\<lparr>w_step := Suc (w_step w)\<rparr>)"
  by (simp add: Throttle_Allowed_def redis_Get_def redis_call_def Let_def catchE_def throttle_open_def redis_Nil_def
      split: option.splits rval.splits)

lemma Throttle_RecordFailure_simp:
  "Throttle_RecordFailure E i w =
     (Inr (), w\<lparr>w_step := Suc (w_step w), w_redis := with_failure E i (w_step w) (w_redis w)\<rparr>)"
  by (simp add: Throttle_RecordFailure_def Let_def redis_call_def with_failure_def split: option.splits prod.splits)

lemma Throttle_Reset_simp:
  "Throttle_Reset E i w =
     (Inr (), w\<lparr>w_step := Suc (w_step w),
        w_redis := (case e_redis E (w_step w) of None \<Rightarrow> r_del (throttleKey E i) (w_redis w) | Some t \<Rightarrow> w_redis w)\<rparr>)"
  by (simp add: Throttle_Reset_def redis_call_def Let_def split: option.splits)

text \<open>
  Every failed attempt renews the lockout: whatever window is running, the counter's entry
  afterwards expires a full window after this failure, not after the first one.
\<close>

theorem throttle_window_renewed:
  assumes "e_redis E (w_step w) = None"
    and "r_get (e_now E (w_step w)) (throttleKey E i) (w_redis w) = Some (RInt c)"
  shows "w_redis (snd (Throttle_RecordFailure E i w)) (throttleKey E i) =
    Some (RInt (c + 1), Some (e_now E (w_step w) + throttleWindow))"
proof -
  from assms(2) obtain x where "w_redis w (throttleKey E i) = Some (RInt c, x)"
    and "x = None \<or> (\<exists>y. x = Some y \<and> e_now E (w_step w) < y)"
    by (auto simp: r_get_def split: option.splits if_splits)
  with assms show ?thesis
    by (auto simp: Throttle_RecordFailure_simp with_failure_def r_incr_def r_expire_def r_get_def)
qed

lemma throttle_window_renewed_witness:
  "w_redis (snd (Throttle_RecordFailure demo_env ''a'' ((demo_world ann_db)\<lparr>w_redis :=
       Map.empty(throttleKey demo_env ''a'' \<mapsto> (RInt 1, Some 1700000000000009))\<rparr>))) (throttleKey demo_env ''a'') =
     Some (RInt 2, Some (1700000000000000 + throttleWindow))"
  using throttle_window_renewed [of demo_env "(demo_world ann_db)\<lparr>w_redis :=
       Map.empty(throttleKey demo_env ''a'' \<mapsto> (RInt 1, Some 1700000000000009))\<rparr>" "''a''" 1]
  by (simp add: demo_env_def demo_world_def r_get_def)

section \<open>No panic outside the password hash\<close>

lemma select_one_no_panic: "select_one E f w \<noteq> (Inl Panicked, w')"
  by (auto simp: select_one_def select_rows_def query_def Let_def andThen_def one_row_def
      split: option.splits if_splits prod.splits sum.splits)

lemma userFromRow_no_panic: "userFromRow E row \<noteq> Inl Panicked"
  by (auto simp: userFromRow_def split: sum.splits)

lemma GetByEmail_no_panic: "UserRepository_GetByEmail E a w \<noteq> (Inl Panicked, w')"
  by (auto simp: UserRepository_GetByEmail_def orNotFound_def catchE_def userFromRow_no_panic select_one_no_panic
      split: prod.splits sum.splits if_splits dest: sym)

lemma GetByEmail_frame:
  "UserRepository_GetByEmail E a w = (r, w') \<Longrightarrow>
   w_db w' = w_db w \<and> w_redis w' = w_redis w \<and> w_step w' = Suc (w_step w)"
  by (auto simp: UserRepository_GetByEmail_def orNotFound_def catchE_def select_one_def select_rows_def query_def
      Let_def andThen_def one_row_def abort_def split: prod.splits sum.splits if_splits option.splits)

section \<open>What a login proves\<close>

definition verified :: "env \<Rightarrow> string \<Rightarrow> string \<Rightarrow> bool" where
  "verified E stored pw \<longleftrightarrow> sec_VerifyPassword (e_kdf E) (e_bcrypt E) stored pw = Inr True"

lemma Hasher_Verify_Inr: "Hasher_Verify E stored pw w = (Inr ok, w') \<Longrightarrow> w' = w \<and> (ok \<longleftrightarrow> verified E stored pw)"
  by (auto simp: Hasher_Verify_def verified_def from_password_def split: sum.splits password_error.splits)

lemma rejected_password:
  "v \<noteq> Inr True \<Longrightarrow> v \<noteq> Inl PanicKdf \<Longrightarrow>
   from_password v = Inr False \<or> (\<exists>e. from_password v = Inl e \<and> e \<noteq> Panicked)"
  by (auto simp: from_password_def split: sum.splits password_error.splits)

lemma userFromRow_Inr:
  "userFromRow E row = Inr u \<Longrightarrow>
   u_id u = uuidToString (ur_id row) \<and> u_passwordHash u = ur_password_hash row \<and> u_status u = ur_status row \<and>
   u_role u = ur_role row \<and> u_version u = ur_version row \<and> NewEmail E (ur_email row) = Inr (u_email u) \<and>
   u_fullName u = ur_full_name row \<and> u_events u = []"
  by (auto simp: userFromRow_def UserFromState_def NewUserID_def split: sum.splits if_splits)

text \<open>
  C11. A login that succeeds proves everything it should. The throttle admitted the submitted
  spelling; the row with its canonical email carries a hash the password verifies against; the
  account is active; and exactly one session was stored, for that user, under the hash of the
  refresh token handed out, so the token itself is nowhere in the database.
\<close>

theorem login_sound:
  assumes "identity_ok (w_db w)" and "scan_reads_text E"
    and "Login_Execute E email pw w = (Inr (u, pair), w')"
  shows "\<exists>row new. row \<in> set (d_users (w_db w)) \<and> NewEmail E email = Inr (ur_email row) \<and>
    throttle_open E email (w_step w) (w_redis w) \<and> verified E (ur_password_hash row) pw \<and> ur_status row = ''active'' \<and>
    u_id u = uuidToString (ur_id row) \<and>
    d_users (w_db w') = d_users (w_db w) \<and> d_refresh (w_db w') = d_refresh (w_db w) @ [new] \<and>
    rr_user_id new = ur_id row \<and> rr_token_hash new = OpaqueTokens_Hash E (tp_RefreshRaw pair) \<and> rr_revoked_at new = None"
proof -
  from assms(3) obtain address w1 w2 where email: "NewEmail E email = Inr address"
    and opn: "throttle_open E email (w_step w) (w_redis w)"
    and get: "UserRepository_GetByEmail E address (w\<lparr>w_step := Suc (w_step w)\<rparr>) = (Inr u, w1)"
    and ver: "verified E (u_passwordHash u) pw"
    and act: "CanSignIn u" and issue: "IssuePair E u w2 = (Inr pair, w')" and reset: "w_db w2 = w_db w1"
    unfolding Login_Execute_def
    by (fastforce elim!: andThen_InrE catchE_InrE simp: Throttle_Allowed_simp Throttle_Reset_simp split: if_splits
        dest!: Hasher_Verify_Inr)
  from get obtain row where row: "GetUserByEmail address (w_db w) = Some row" "userFromRow E row = Inr u"
    and w1: "w_db w1 = w_db w"
    by (auto elim!: GetByEmail_Inr)
  from row(1) have mem: "row \<in> set (d_users (w_db w))" "ur_email row = address"
    by (auto simp: GetUserByEmail_def dest!: find_Some_set)
  then have len: "length (ur_id row) = 16" using assms(1) by (auto simp: identity_ok_def)
  note u = userFromRow_Inr [OF row(2)]
  from issue obtain sid uid tid now where uid: "uuidFromString E (u_id u) = Inr uid"
    and cr: "fst (CreateRefreshToken tid uid (OpaqueTokens_Hash E (tp_RefreshRaw pair)) (now + e_refresh_ttl E) now (w_db w2)) = Inr ()"
      "w_db w' = snd (CreateRefreshToken tid uid (OpaqueTokens_Hash E (tp_RefreshRaw pair)) (now + e_refresh_ttl E) now (w_db w2))"
    by (rule IssuePair_Inr)
  have "uid = ur_id row" using uid u by (auto dest!: scan_own_id [OF assms(2) len])
  with cr reset w1 have new: "d_users (w_db w') = d_users (w_db w) \<and> (\<exists>new. d_refresh (w_db w') = d_refresh (w_db w) @ [new] \<and>
    rr_user_id new = ur_id row \<and> rr_token_hash new = OpaqueTokens_Hash E (tp_RefreshRaw pair) \<and> rr_revoked_at new = None)"
    by (auto simp: CreateRefreshToken_def split: if_splits)
  show ?thesis
    using mem email opn u act new ver by (auto simp: CanSignIn_def StatusActive_def)
qed

lemma known_ann: "GetUserByEmail ''ann@x.io'' ann_db = Some ann" "userFromRow demo_env ann = Inr
    (UserFromState (uuid_text (ur_id ann)) (ur_email ann) (ur_password_hash ann) (ur_full_name ann) (ur_role ann)
      (ur_status ann) (ur_version ann) (ur_created_at ann) (ur_updated_at ann))"
  using demo_row(8) by (simp_all add: GetUserByEmail_def userFromRow_ok demo)

lemma demo_get: "UserRepository_GetByEmail demo_env ''ann@x.io'' (w\<lparr>w_db := ann_db, w_tx := NoTx\<rparr>) =
  (Inr (UserFromState (uuid_text (ur_id ann)) (ur_email ann) (ur_password_hash ann) (ur_full_name ann) (ur_role ann)
      (ur_status ann) (ur_version ann) (ur_created_at ann) (ur_updated_at ann)),
   w\<lparr>w_db := ann_db, w_tx := NoTx, w_step := Suc (w_step w)\<rparr>)"
  by (simp add: UserRepository_GetByEmail_def select_one_faultless [OF demo_faultless] known_ann)

lemma demo_verified: "verified demo_env (ur_password_hash ann) pw \<longleftrightarrow> pw = ''hunter2''"
  by (auto simp: verified_def sec_VerifyPassword_def demo)

lemma demo_login: "\<exists>u pair w'. Login_Execute demo_env ''ann@x.io'' ''hunter2'' (demo_world ann_db) = (Inr (u, pair), w')"
proof -
  let ?u = "UserFromState (uuid_text (ur_id ann)) (ur_email ann) (ur_password_hash ann) (ur_full_name ann) (ur_role ann)
      (ur_status ann) (ur_version ann) (ur_created_at ann) (ur_updated_at ann)"
  let ?w = "(demo_world ann_db)\<lparr>w_step := 3, w_redis := r_del (throttleKey demo_env ''ann@x.io'') Map.empty\<rparr>"
  have g: "UserRepository_GetByEmail demo_env ''ann@x.io'' ((demo_world ann_db)\<lparr>w_step := Suc 0\<rparr>) =
      (Inr ?u, (demo_world ann_db)\<lparr>w_step := 2\<rparr>)"
    using demo_get [of "(demo_world ann_db)\<lparr>w_step := Suc 0\<rparr>"] by (simp add: demo_world_def)
  have v: "Hasher_Verify demo_env (u_passwordHash ?u) ''hunter2'' x = (Inr True, x)" for x
    using demo_verified [of "''hunter2''"] by (simp add: Hasher_Verify_def verified_def UserFromState_def from_password_def)
  have "uuidFromString demo_env (u_id ?u) = Inr (demo_id 1)"
    by (simp add: UserFromState_def scan_text [OF demo_reads_text] ann_def demo_id_def)
  moreover have "known_user (demo_id 1) (w_db ?w)"
    by (simp add: known_user_def demo_world_def ann_db_def ann_def)
  moreover have "fresh_session demo_env (w_step ?w) (w_db ?w)"
    using ann_fresh by (simp add: demo_world_def)
  ultimately obtain pair d where "IssuePair demo_env ?u ?w = (Inr pair, ?w\<lparr>w_step := w_step ?w + 7, w_db := d\<rparr>)"
    using IssuePair_ok [OF demo_faultless demo_reads_text, of ?w ?u "demo_id 1"] by (auto simp: demo_world_def)
  moreover have "CanSignIn ?u" by (simp add: CanSignIn_def UserFromState_def ann_def StatusActive_def)
  moreover have "throttle_open demo_env ''ann@x.io'' 0 Map.empty"
    by (simp add: throttle_open_def demo_env_def r_get_def)
  moreover have "w_redis (demo_world ann_db) = Map.empty" "e_redis demo_env n = None" for n
    by (simp_all add: demo_world_def demo_env_def)
  ultimately show ?thesis
    by (simp add: Login_Execute_def Throttle_Allowed_simp Throttle_Reset_simp demo_step ann_email g v numeral_2_eq_2 numeral_3_eq_3)
qed

lemma login_sound_witness:
  "\<exists>u pair w' new. Login_Execute demo_env ''ann@x.io'' ''hunter2'' (demo_world ann_db) = (Inr (u, pair), w') \<and>
     d_refresh (w_db w') = d_refresh ann_db @ [new] \<and> rr_user_id new = demo_id 1"
proof -
  obtain u pair w' where run: "Login_Execute demo_env ''ann@x.io'' ''hunter2'' (demo_world ann_db) = (Inr (u, pair), w')"
    using demo_login by blast
  have db: "w_db (demo_world ann_db) = ann_db" by (simp add: demo_world_def)
  from login_sound [OF _ demo_reads_text run] obtain row new where
    "row \<in> set (d_users ann_db)" "d_refresh (w_db w') = d_refresh ann_db @ [new]" "rr_user_id new = ur_id row"
    unfolding db using ann_db_ok by blast
  moreover from this have "ur_id row = demo_id 1" by (simp add: ann_db_def ann_def)
  ultimately show ?thesis using run by metis
qed

section \<open>Failures tell nothing\<close>



section \<open>The lockout\<close>

definition attempts :: "env \<Rightarrow> string \<Rightarrow> string list \<Rightarrow> world \<Rightarrow> world" where
  "attempts E email pws w = fold (\<lambda>pw w. snd (Login_Execute E email pw w)) pws w"

text \<open>A password that verifies against no account's hash.\<close>

definition wrong_everywhere :: "env \<Rightarrow> db \<Rightarrow> string \<Rightarrow> bool" where
  "wrong_everywhere E d pw \<longleftrightarrow>
     (\<forall>row \<in> set (d_users d). sec_VerifyPassword (e_kdf E) (e_bcrypt E) (ur_password_hash row) pw \<notin> {Inr True, Inl PanicKdf})"

lemma wrong_password_login:
  assumes "wrong_everywhere E (w_db w) pw" and "throttle_open E email (w_step w) (w_redis w)"
  shows "\<exists>k w'. Login_Execute E email pw w = (Inl ErrInvalidCredentials, w') \<and> w_db w' = w_db w \<and>
    w_redis w' = with_failure E email k (w_redis w)"
proof -
  let ?w = "w\<lparr>w_step := Suc (w_step w)\<rparr>"
  show ?thesis
  proof (cases "NewEmail E email")
    case (Inl e)
    then have "e \<noteq> Panicked" by (auto simp: NewEmail_def Let_def split: option.splits if_splits)
    with Inl assms(2) show ?thesis
      by (simp add: Login_Execute_def Throttle_Allowed_simp Throttle_RecordFailure_simp) (rule exI, rule refl)
  next
    case (Inr address)
    obtain r w1 where get: "UserRepository_GetByEmail E address ?w = (r, w1)" by (meson surj_pair)
    note fr = GetByEmail_frame [OF get]
    show ?thesis
    proof (cases r)
      case (Inl e)
      then have "e \<noteq> Panicked" using get GetByEmail_no_panic by metis
      with Inl Inr get fr assms(2) show ?thesis
        by (auto simp: Login_Execute_def Throttle_Allowed_simp Throttle_RecordFailure_simp)
    next
      case (Inr u)
      then obtain row where row: "GetUserByEmail address (w_db w) = Some row" "userFromRow E row = Inr u"
        using get by (auto elim!: GetByEmail_Inr)
      then have "row \<in> set (d_users (w_db w))" by (auto simp: GetUserByEmail_def dest!: find_Some_set)
      with assms(1) have "sec_VerifyPassword (e_kdf E) (e_bcrypt E) (u_passwordHash u) pw \<notin> {Inr True, Inl PanicKdf}"
        using userFromRow_Inr [OF row(2)] by (auto simp: wrong_everywhere_def)
      then have "from_password (sec_VerifyPassword (e_kdf E) (e_bcrypt E) (u_passwordHash u) pw) = Inr False \<or>
          (\<exists>e. from_password (sec_VerifyPassword (e_kdf E) (e_bcrypt E) (u_passwordHash u) pw) = Inl e \<and> e \<noteq> Panicked)"
        by (intro rejected_password) auto
      then obtain v where v: "\<And>x. Hasher_Verify E (u_passwordHash u) pw x = (v, x)"
          "v = Inr False \<or> (\<exists>e. v = Inl e \<and> e \<noteq> Panicked)"
        by (auto simp: Hasher_Verify_def)
      have "Login_Execute E email pw w = (Inl ErrInvalidCredentials,
          w1\<lparr>w_step := Suc (w_step w1), w_redis := with_failure E email (w_step w1) (w_redis w1)\<rparr>)"
        using Inr get \<open>NewEmail E email = Inr address\<close> assms(2) v(2)
        by (auto simp: v(1) catchE_def Login_Execute_def Throttle_Allowed_simp Throttle_RecordFailure_simp andThen_def)
      with fr show ?thesis by auto
    qed
  qed
qed

lemma closed_login:
  "\<not> throttle_open E email (w_step w) (w_redis w) \<Longrightarrow>
   Login_Execute E email pw w = (Inl ErrAccountLocked, w\<lparr>w_step := Suc (w_step w)\<rparr>)"
  by (simp add: Login_Execute_def Throttle_Allowed_simp)

text \<open>The counter after \<open>c\<close> failures inside one window that starts at \<open>T\<close>.\<close>

definition counted :: "env \<Rightarrow> string \<Rightarrow> int \<Rightarrow> int \<Rightarrow> redis \<Rightarrow> bool" where
  "counted E email T c s \<longleftrightarrow>
     (if c = 0 then s (throttleKey E email) = None
      else \<exists>x \<ge> T + throttleWindow. s (throttleKey E email) = Some (RInt c, Some x))"

lemma counted_open:
  assumes "e_redis E n = None" and "e_now E n < T + throttleWindow" and "counted E email T c s" and "0 \<le> c"
  shows "throttle_open E email n s \<longleftrightarrow> c < throttleMaxFailures"
proof -
  have "r_get (e_now E n) (throttleKey E email) s = (if c = 0 then None else Some (RInt c))"
    using assms(2,3) by (auto simp: counted_def r_get_def)
  with assms(1) show ?thesis by (auto simp: throttle_open_def throttleMaxFailures_def)
qed

lemma counted_failure:
  assumes "e_redis E n = None" and "T \<le> e_now E n" "e_now E n < T + throttleWindow" and "counted E email T c s" and "0 \<le> c"
  shows "counted E email T (c + 1) (with_failure E email n s)"
proof -
  have "r_get (e_now E n) (throttleKey E email) s = (if c = 0 then None else Some (RInt c))"
    using assms(3,4) by (auto simp: counted_def r_get_def)
  then show ?thesis
    using assms(1,2,5) assms(4)
    by (auto simp: with_failure_def r_incr_def r_expire_def r_get_def counted_def throttleWindow_def split: if_splits)
qed

lemma attempts_counted:
  assumes "\<And>n. e_redis E n = None" and "\<And>n. T \<le> e_now E n \<and> e_now E n < T + throttleWindow"
    and "\<And>pw. pw \<in> set pws \<Longrightarrow> wrong_everywhere E (w_db w) pw"
    and "counted E email T c (w_redis w)" and "0 \<le> c" and "c \<le> throttleMaxFailures"
  shows "counted E email T (min throttleMaxFailures (c + int (length pws))) (w_redis (attempts E email pws w))"
  using assms(3-6)
proof (induction pws arbitrary: w c)
  case (Cons pw pws)
  show ?case
  proof (cases "c < throttleMaxFailures")
    case True
    then have "throttle_open E email (w_step w) (w_redis w)"
      using counted_open [OF assms(1) _ Cons.prems(2,3)] assms(2) by simp
    then obtain k w' where l: "Login_Execute E email pw w = (Inl ErrInvalidCredentials, w')" "w_db w' = w_db w"
      and r: "w_redis w' = with_failure E email k (w_redis w)"
      using wrong_password_login Cons.prems(1) by (metis list.set_intros(1))
    have "counted E email T (c + 1) (w_redis w')"
      unfolding r using counted_failure [OF assms(1) _ _ Cons.prems(2,3)] assms(2) by simp
    from Cons.IH [OF _ this] Cons.prems(1,3) True l have
      "counted E email T (min throttleMaxFailures (c + 1 + int (length pws))) (w_redis (attempts E email pws w'))"
      by simp
    then show ?thesis using l by (simp add: attempts_def ac_simps)
  next
    case False
    then have "\<not> throttle_open E email (w_step w) (w_redis w)"
      using counted_open [OF assms(1) _ Cons.prems(2,3)] assms(2) by simp
    then have l: "Login_Execute E email pw w = (Inl ErrAccountLocked, w\<lparr>w_step := Suc (w_step w)\<rparr>)"
      by (rule closed_login)
    have "c = throttleMaxFailures" using False Cons.prems(4) by simp
    with Cons.IH [of "w\<lparr>w_step := Suc (w_step w)\<rparr>" c] Cons.prems l show ?thesis
      by (simp add: attempts_def min_def)
  qed
qed (simp add: attempts_def min_absorb2)


lemma ann_guess: "wrong_everywhere (demo_env\<lparr>e_now := f\<rparr>) ann_db ''guess''"
  by (simp add: wrong_everywhere_def sec_VerifyPassword_def demo)


lemma with_failure_other:
  "throttleKey E a \<noteq> key \<Longrightarrow> with_failure E a k s key = s key"
  by (auto simp: with_failure_def r_expire_def r_incr_def split: option.splits rval.splits)

text \<open>
  The lockout is kept per submitted spelling. Two spellings whose throttle keys differ do
  not share a counter, even when they canonicalize to the same account: any number of failed
  attempts under one leaves the other exactly as open as it was.
\<close>

theorem lockout_per_spelling:
  assumes "throttleKey E a \<noteq> throttleKey E b" and "\<forall>pw \<in> set pws. wrong_everywhere E (w_db w) pw"
  shows "throttle_open E b n (w_redis (attempts E a pws w)) = throttle_open E b n (w_redis w)"
proof -
  have "w_redis (attempts E a pws w) (throttleKey E b) = w_redis w (throttleKey E b)"
    using assms(2)
  proof (induction pws arbitrary: w)
    case (Cons pw pws)
    obtain e w' where "Login_Execute E a pw w = (Inl e, w')" "w_db w' = w_db w"
      "w_redis w' (throttleKey E b) = w_redis w (throttleKey E b)"
    proof (cases "throttle_open E a (w_step w) (w_redis w)")
      case True
      then show thesis
        using wrong_password_login [of E w pw a] Cons.prems that with_failure_other [OF assms(1)]
        by (metis list.set_intros(1))
    qed (use closed_login that in fastforce)
    with Cons.IH [of w'] Cons.prems show ?case by (simp add: attempts_def)
  qed (simp add: attempts_def)
  then have eq: "r_get t (throttleKey E b) (w_redis (attempts E a pws w)) = r_get t (throttleKey E b) (w_redis w)" for t
    by (simp add: r_get_def)
  show ?thesis unfolding throttle_open_def eq ..
qed

lemma lockout_per_spelling_witness:
  "NewEmail demo_env ''Ann@x.io'' = NewEmail demo_env ''ann@x.io'' \<and>
   throttle_open demo_env ''Ann@x.io'' 7 (w_redis (attempts demo_env ''ann@x.io'' (replicate 5 ''guess'') (demo_world ann_db)))"
proof -
  have "byte_of CHR ''a'' \<noteq> byte_of CHR ''A''" by (simp add: byte_of_def)
  then have "(of_nat (byte_of CHR ''a'') :: byte) \<noteq> of_nat (byte_of CHR ''A'')" by (simp add: byte_of_def)
  then have k: "throttleKey demo_env ''ann@x.io'' \<noteq> throttleKey demo_env ''Ann@x.io''"
    by (simp add: throttleKey_def sec_HashToken_def hex_encode_inj demo_env_def)
  have "ascii_lower CHR ''A'' = CHR ''a''" "ascii_lower CHR ''a'' = CHR ''a''"
    by code_simp+
  then have "to_lower f ''Ann@x.io'' = to_lower f ''ann@x.io''" for f
    by (simp add: to_lower_def is_ascii_def byte_of_def)
  then have "NewEmail demo_env ''Ann@x.io'' = NewEmail demo_env ''ann@x.io''" by (simp add: NewEmail_def)
  moreover have "throttle_open demo_env ''Ann@x.io'' 7 (w_redis (demo_world ann_db))"
    by (simp add: throttle_open_def demo_world_def demo_env_def r_get_def)
  moreover have "\<forall>pw \<in> set (replicate 5 ''guess''). wrong_everywhere demo_env (w_db (demo_world ann_db)) pw"
    by (simp add: wrong_everywhere_def sec_VerifyPassword_def demo)
  ultimately show ?thesis using lockout_per_spelling [OF k] by blast
qed

section \<open>Registration\<close>

text \<open>Calls that read the clock or the random source and change nothing else.\<close>

definition pure_call :: "(world, gerr, 'a) act \<Rightarrow> bool" where
  "pure_call m \<longleftrightarrow> (\<forall>w. \<exists>k. snd (m w) = w\<lparr>w_step := k\<rparr>)"

named_theorems pure_calls \<open>calls that only consume steps\<close>

lemma step_self: "\<exists>k. w = w\<lparr>w_step := k\<rparr>" for w :: world
  by (rule exI [of _ "w_step w"]) simp

lemma pure_call_basic [pure_calls]:
  "pure_call (ret x)" "pure_call (fail e)" "pure_call (liftE r)" "pure_call (clock_Now E)" "pure_call (rand_Read E n)"
  by (auto simp: pure_call_def step_self)

lemma pure_call_andThen [pure_calls]:
  assumes "pure_call m" and "\<And>x. pure_call (f x)"
  shows "pure_call (andThen m f)"
  unfolding pure_call_def
proof
  fix w
  obtain r k where m: "m w = (r, w\<lparr>w_step := k\<rparr>)"
    using assms(1) unfolding pure_call_def by (metis prod.collapse)
  show "\<exists>k. snd (andThen m f w) = w\<lparr>w_step := k\<rparr>"
  proof (cases r)
    case (Inr x)
    from assms(2) [of x] obtain j where "snd (f x (w\<lparr>w_step := k\<rparr>)) = w\<lparr>w_step := k\<rparr>\<lparr>w_step := j\<rparr>"
      unfolding pure_call_def by blast
    with Inr m show ?thesis by auto
  qed (use m in auto)
qed

lemma pure_call_case [pure_calls]:
  "pure_call a \<Longrightarrow> (\<And>x. pure_call (f x)) \<Longrightarrow> pure_call (case z of None \<Rightarrow> a | Some x \<Rightarrow> f x)"
  by (cases z) simp_all

lemma pure_NewID [pure_calls]: "pure_call (UUIDGenerator_NewID E)"
  and pure_Hash [pure_calls]: "pure_call (Hasher_Hash E pw)"
  unfolding UUIDGenerator_NewID_def Hasher_Hash_def by (intro pure_calls)+

lemma pure_callE:
  assumes "andThen m f w = (r, w')" and "pure_call m"
  obtains (stop) e k where "r = Inl e" and "w' = w\<lparr>w_step := k\<rparr>"
  | (go) x k where "m w = (Inr x, w\<lparr>w_step := k\<rparr>)" and "f x (w\<lparr>w_step := k\<rparr>) = (r, w')"
proof -
  obtain q k where m: "m w = (q, w\<lparr>w_step := k\<rparr>)"
    using assms(2) unfolding pure_call_def by (metis prod.collapse)
  then show thesis using assms(1) that by (cases q) auto
qed

text \<open>One account and the event that announces it, both or neither.\<close>

definition account_created :: "env \<Rightarrow> string \<Rightarrow> string \<Rightarrow> db \<Rightarrow> db \<Rightarrow> bool" where
  "account_created E email name d d' \<longleftrightarrow>
     (\<exists>row ob env t.
        d' = d\<lparr>d_users := d_users d @ [row], d_identity_outbox := d_identity_outbox d @ [ob]\<rparr> \<and>
        NewEmail E email = Inr (ur_email row) \<and> ur_email row \<notin> ur_email ` set (d_users d) \<and>
        ur_full_name row = name \<and> ur_role row = ''user'' \<and> ur_status row = ''active'' \<and> ur_version row = 1 \<and>
        ob_published_at ob = None \<and> ob_subject ob = ''identity.user.registered'' \<and> ob_payload ob = Envelope env \<and>
        en_data env = IdentityData (UserRegistered (uuidToString (ur_id row)) (ur_email row) name ''user'' t))"

lemma register_body:
  assumes "scan_reads_text E" and "NewEmail E email = Inr address" and "UUIDGenerator_NewID E v = (Inr rawID, v')"
    and "NewUser rawID address hash name now = Inr u"
    and "andThen (UserRepository_Create E u) (\<lambda>_. case User_PullEvents u of (events, u') \<Rightarrow>
            andThen (IdentityOutbox_Publish E events) (\<lambda>_. ret u')) w = (Inr x, w')"
  shows "account_created E email name (w_db w) (w_db w')"
proof -
  from assms(4) have u: "u_id u = rawID" "u_email u = address" "u_fullName u = name" "u_role u = ''user''"
    "u_status u = ''active''" "u_version u = 1" "u_events u = [UserRegistered rawID address name ''user'' now]"
    by (auto simp: NewUser_def StatusActive_def split: if_splits)
  from assms(5) obtain w1 where c: "UserRepository_Create E u w = (Inr (), w1)"
    and p: "identity_publish_one E (UserRegistered rawID address name ''user'' now) w1 = (Inr (), w')"
    by (auto elim!: andThen_InrE simp: User_PullEvents_def u(7))
  from c obtain uid d where uid: "uuidFromString E rawID = Inr uid" and d: "CreateUser (user_row_of uid u) (w_db w) = (Inr (), d)"
    and w1: "w_db w1 = d"
    by (auto elim!: User_Create_Inr simp: u(1))
  from NewID_Inr [OF assms(3)] obtain b where b: "rawID = uuid_text b" "length b = 16"
    by (auto simp: length_uuid7)
  then have "uid = b" using uid assms(1) by (simp add: scan_reads_text_def)
  from p obtain ob where ob: "ob_subject ob = ''identity.user.registered''" "ob_published_at ob = None"
      "\<exists>t. ob_payload ob = Envelope \<lparr>en_event = ''identity.user.registered'', en_occurred_at = t, en_traceparent = e_trace E,
         en_data = IdentityData (UserRegistered rawID address name ''user'' now)\<rparr>"
      "w_db w' = (w_db w1)\<lparr>d_identity_outbox := d_identity_outbox (w_db w1) @ [ob]\<rparr>"
    by (auto elim!: Publish_one_Inr)
  let ?row = "(user_row_of uid u)\<lparr>ur_email_verified_at := None\<rparr>"
  have d': "w_db w1 = (w_db w)\<lparr>d_users := d_users (w_db w) @ [?row]\<rparr>" and "address \<notin> ur_email ` set (d_users (w_db w))"
    using d w1 u(2) by (auto simp: CreateUser_def user_row_of_def split: if_splits)
  moreover have "w_db w' = (w_db w)\<lparr>d_users := d_users (w_db w) @ [?row], d_identity_outbox := d_identity_outbox (w_db w) @ [ob]\<rparr>"
    unfolding ob(4) d' by simp
  moreover obtain t where "ob_payload ob = Envelope \<lparr>en_event = ''identity.user.registered'', en_occurred_at = t, en_traceparent = e_trace E,
         en_data = IdentityData (UserRegistered rawID address name ''user'' now)\<rparr>" using ob(3) by blast
  moreover have "uuidToString uid = rawID" by (simp add: uuidToString_text \<open>uid = b\<close> b(1))
  ultimately show ?thesis
    unfolding account_created_def using assms(2) ob(1,2) u
    by (intro exI [of _ ?row] exI [of _ ob] exI conjI) (assumption | simp add: user_row_of_def)+
qed

text \<open>
  C32. Registration is atomic and unique. Whatever fails, on the way in, inside the transaction
  or at its commit, the database is either unchanged and the call failed, or it holds exactly
  one more user, under a canonical email no other row has, together with the one unpublished
  outbox event that announces that user. In particular a success always stores both.
\<close>

theorem register_atomic:
  assumes "scan_reads_text E" and "w_tx w = NoTx" and "Register_Execute E email pw name w = (r, w')"
  shows "(w_db w' = w_db w \<and> (\<exists>e. r = Inl e)) \<or> account_created E email name (w_db w) (w_db w')"
proof -
  from assms(3) consider (stop) k e where "r = Inl e" "w' = w\<lparr>w_step := k\<rparr>"
    | (go) address rawID hash now u k v v' where "NewEmail E email = Inr address"
        "UUIDGenerator_NewID E v = (Inr rawID, v')" "NewUser rawID address hash name now = Inr u"
        "WithinTransaction E (andThen (UserRepository_Create E u) (\<lambda>_. case User_PullEvents u of (events, u') \<Rightarrow>
            andThen (IdentityOutbox_Publish E events) (\<lambda>_. ret u'))) (w\<lparr>w_step := k\<rparr>) = (r, w')"
    unfolding Register_Execute_def
    by (elim pure_callE pure_calls) (auto simp: NewUserID_def intro: pure_calls split: if_splits)
  then show ?thesis
  proof cases
    case stop
    then show ?thesis by simp
  next
    case go
    let ?m = "andThen (UserRepository_Create E u) (\<lambda>_. case User_PullEvents u of (events, u') \<Rightarrow>
            andThen (IdentityOutbox_Publish E events) (\<lambda>_. ret u'))"
    have idle: "tx_idle (w\<lparr>w_step := k\<rparr>)" using assms(2) by (simp add: tx_idle_def)
    have body: "account_created E email name (w_db w) (w_db t)" if "?m (tx_enter (w\<lparr>w_step := k\<rparr>)) = (Inr x, t)" for x t
      using register_body [OF assms(1) go(1-3) that] by (simp add: tx_enter_def)
    show ?thesis
    proof (cases r)
      case (Inl e)
      with tx.undo [OF idle, of E ?m e w'] go(4) body show ?thesis by fastforce
    next
      case (Inr x)
      with tx.commit [OF idle, of E ?m x w'] go(4) body show ?thesis by fastforce
    qed
  qed
qed

lemma register_atomic_witness:
  "\<exists>r w'. Register_Execute demo_env ''bob@x.io'' ''pw'' ''Bob'' (demo_world ann_db) = (r, w') \<and>
     ((w_db w' = ann_db \<and> (\<exists>e. r = Inl e)) \<or> account_created demo_env ''bob@x.io'' ''Bob'' ann_db (w_db w'))"
proof -
  obtain r w' where run: "Register_Execute demo_env ''bob@x.io'' ''pw'' ''Bob'' (demo_world ann_db) = (r, w')"
    by (meson surj_pair)
  from register_atomic [OF demo_reads_text _ run] show ?thesis using run by (auto simp: demo_world_def)
qed

end
