(* ===== verification/IdentityKeys.thy ===== *)
theory IdentityKeys
  imports IdentityLogin
begin

text \<open>
  Password changes, one-time codes and API keys: what a successful change leaves behind, why a
  code works once and for one purpose, and when a revoked key stops working.
\<close>

section \<open>Changing the password\<close>

text \<open>Every session of the user is revoked.\<close>

definition sessions_dead :: "uuid \<Rightarrow> db \<Rightarrow> bool" where
  "sessions_dead uid d \<longleftrightarrow> (\<forall>s \<in> set (d_refresh d). rr_user_id s = uid \<longrightarrow> rr_revoked_at s \<noteq> None)"

text \<open>The user's row carries this hash, and \<open>ev\<close> was appended to the outbox.\<close>

definition password_swapped :: "user_row \<Rightarrow> string \<Rightarrow> db \<Rightarrow> db \<Rightarrow> bool" where
  "password_swapped row hash d d' \<longleftrightarrow>
     (\<exists>row' \<in> set (d_users d'). ur_id row' = ur_id row \<and> ur_email row' = ur_email row \<and>
        ur_password_hash row' = hash \<and> ur_version row' = ur_version row + 1) \<and>
     (\<exists>ob env t. d_identity_outbox d' = d_identity_outbox d @ [ob] \<and> ob_payload ob = Envelope env \<and>
        en_data env = IdentityData (PasswordChanged (uuidToString (ur_id row)) t))"

lemma UpdateUser_row:
  assumes "row \<in> set (d_users d)" and "ur_version row = version"
    and "UpdateUser (ur_id row) hash name role status at version d = (Inr n, d')"
  shows "(\<exists>row' \<in> set (d_users d'). ur_id row' = ur_id row \<and> ur_email row' = ur_email row \<and>
      ur_password_hash row' = hash \<and> ur_version row' = ur_version row + 1)"
    and "d_identity_outbox d' = d_identity_outbox d" and "d_refresh d' = d_refresh d" and "d_otps d' = d_otps d"
proof -
  let ?f = "\<lambda>r. r\<lparr>ur_password_hash := hash, ur_full_name := name, ur_role := role, ur_status := status,
                   ur_version := ur_version r + 1, ur_updated_at := at\<rparr>"
  from assms have d': "d' = d\<lparr>d_users := update_rows (\<lambda>r. ur_id r = ur_id row \<and> ur_version r = version) ?f (d_users d)\<rparr>"
    by (simp add: UpdateUser_def Let_def)
  have "?f row \<in> set (d_users d')" using assms(1,2) by (auto simp: d' set_update_rows)
  then show "(\<exists>row' \<in> set (d_users d'). ur_id row' = ur_id row \<and> ur_email row' = ur_email row \<and>
      ur_password_hash row' = hash \<and> ur_version row' = ur_version row + 1)"
    by (rule rev_bexI) simp
  show "d_identity_outbox d' = d_identity_outbox d" "d_refresh d' = d_refresh d" "d_otps d' = d_otps d"
    by (simp_all add: d')
qed

lemma RevokeAll_dead: "sessions_dead uid (snd (RevokeAllRefreshTokensForUser uid at d))"
  by (simp add: sessions_dead_def RevokeAllRefreshTokensForUser_def ball_update_rows)

text \<open>The three writes both flows share: the row, the sessions, the event.\<close>

lemma swap_body:
  assumes "scan_reads_text E" and "length (ur_id row) = 16" and "row \<in> set (d_users (w_db w))"
    and "userFromRow E row = Inr u" and "u' = User_ChangePassword hash now u"
    and "UserRepository_Update E u' w = (Inr (), w1)"
    and "RefreshTokenRepository_RevokeAllForUser E (u_id u') t (w1\<lparr>w_step := k\<rparr>) = (Inr (), w2)"
    and "IdentityOutbox_Publish E (fst (User_PullEvents u')) w2 = (Inr (), w3)"
  shows "password_swapped row hash (w_db w) (w_db w3)" and "sessions_dead (ur_id row) (w_db w3)"
    and "d_otps (w_db w3) = d_otps (w_db w)"
proof -
  note u = userFromRow_Inr [OF assms(4)]
  have u': "u_id u' = uuidToString (ur_id row)" "u_passwordHash u' = hash" "u_version u' = ur_version row"
    "u_events u' = [PasswordChanged (uuidToString (ur_id row)) now]"
    using u assms(5) by (simp_all add: User_ChangePassword_def)
  have own: "uid = ur_id row" if "uuidFromString E (u_id u') = Inr uid" for uid
    using that scan_own_id [OF assms(1,2)] by (simp add: u'(1))
  from assms(6) obtain d1 n where up: "UpdateUser (ur_id row) hash (u_fullName u') (u_role u') (u_status u')
      (u_updatedAt u') (ur_version row) (w_db w) = (Inr n, d1)" and w1: "w_db w1 = d1"
    by (auto elim!: User_Update_Inr dest!: own simp: u')
  note row = UpdateUser_row [OF assms(3) refl up]
  from assms(7) have w2: "w_db w2 = snd (RevokeAllRefreshTokensForUser (ur_id row) t d1)"
    by (auto elim!: RevokeAll_Inr dest!: own simp: w1)
  from assms(8) obtain ob env where w3: "w_db w3 = (w_db w2)\<lparr>d_identity_outbox := d_identity_outbox (w_db w2) @ [ob]\<rparr>"
    and ob: "ob_payload ob = Envelope env" "en_data env = IdentityData (PasswordChanged (uuidToString (ur_id row)) now)"
    by (auto simp: User_PullEvents_def u'(4) elim!: Publish_one_Inr)
  have "d_users (w_db w3) = d_users d1" "d_identity_outbox (w_db w3) = d_identity_outbox (w_db w) @ [ob]"
    by (simp_all add: w3 w2 RevokeAllRefreshTokensForUser_def row(2))
  with row(1) ob show "password_swapped row hash (w_db w) (w_db w3)"
    unfolding password_swapped_def by auto
  show "sessions_dead (ur_id row) (w_db w3)"
    using RevokeAll_dead [of "ur_id row" t d1] by (simp add: w3 w2 sessions_dead_def)
  show "d_otps (w_db w3) = d_otps (w_db w)"
    by (simp add: w3 w2 RevokeAllRefreshTokensForUser_def row(4))
qed

lemma row_of_id:
  assumes "identity_ok d" and "scan_reads_text E" and "GetUserByID uid d = Some row"
  shows "row \<in> set (d_users d)" and "ur_id row = uid" and "length (ur_id row) = 16"
  using assms by (auto simp: GetUserByID_def identity_ok_def dest!: find_Some_set)

text \<open>
  Changing the password needs the old one and ends every session. When the call succeeds,
  the current password verified against the stored hash, the user's row carries the hash made
  from the new one under the next version, not one session of the user is left alive, and the
  security event is in the outbox.
\<close>

theorem change_password_ends_sessions:
  assumes "identity_ok (w_db w)" and "scan_reads_text E"
    and "ChangePassword_Execute E userID current new w = (Inr (), w')"
  shows "\<exists>row salt hash. row \<in> set (d_users (w_db w)) \<and> uuidFromString E userID = Inr (ur_id row) \<and>
    verified E (ur_password_hash row) current \<and> sec_HashPassword (e_kdf E) salt new = Inr hash \<and>
    password_swapped row hash (w_db w) (w_db w') \<and> sessions_dead (ur_id row) (w_db w')"
proof -
  from assms(3) obtain u w1 hash now w2 where get: "UserRepository_GetByID E userID w = (Inr u, w1)"
    and ver: "verified E (u_passwordHash u) current" and hash: "Hasher_Hash E new w1 = (Inr hash, w2)"
    and tx: "WithinTransaction E (andThen (UserRepository_Update E (User_ChangePassword hash now u)) (\<lambda>_.
          andThen (clock_Now E) (\<lambda>t. andThen (RefreshTokenRepository_RevokeAllForUser E (u_id (User_ChangePassword hash now u)) t) (\<lambda>_.
            IdentityOutbox_Publish E (fst (User_PullEvents (User_ChangePassword hash now u)))))))
          (w2\<lparr>w_step := Suc (w_step w2)\<rparr>) = (Inr (), w')"
    unfolding ChangePassword_Execute_def Let_def
    by (fastforce elim!: andThen_InrE catchE_InrE simp: NewUserID_def split: if_splits dest!: Hasher_Verify_Inr)
  from get obtain pgID row where row: "GetUserByID pgID (w_db w) = Some row" "userFromRow E row = Inr u"
    and pg: "uuidFromString E userID = Inr pgID" and w1: "w_db w1 = w_db w"
    by (auto elim!: GetByID_Inr)
  note mem = row_of_id [OF assms(1,2) row(1)]
  have uid: "uuidFromString E userID = Inr (ur_id row)" using pg mem(2) by simp
  from hash obtain salt where salt: "sec_HashPassword (e_kdf E) salt new = Inr hash" and w2: "w_db w2 = w_db w1"
    by (auto simp: Hasher_Hash_def from_password_def elim!: andThen_InrE split: sum.splits password_error.splits)
  from tx obtain v v' where v: "w_db v = w_db w" and v': "w_db w' = w_db v'" and body: "andThen (UserRepository_Update E (User_ChangePassword hash now u)) (\<lambda>_.
          andThen (clock_Now E) (\<lambda>t. andThen (RefreshTokenRepository_RevokeAllForUser E (u_id (User_ChangePassword hash now u)) t) (\<lambda>_.
            IdentityOutbox_Publish E (fst (User_PullEvents (User_ChangePassword hash now u)))))) v = (Inr (), v')"
    using w1 w2 by (auto elim!: Transaction_Inr)
  from body obtain x1 x2 t where
    "UserRepository_Update E (User_ChangePassword hash now u) v = (Inr (), x1)"
    "RefreshTokenRepository_RevokeAllForUser E (u_id (User_ChangePassword hash now u)) t (x1\<lparr>w_step := Suc (w_step x1)\<rparr>) = (Inr (), x2)"
    "IdentityOutbox_Publish E (fst (User_PullEvents (User_ChangePassword hash now u))) x2 = (Inr (), v')"
    by (auto elim!: andThen_InrE)
  from swap_body [OF assms(2) mem(3) _ row(2) refl this] have
    "password_swapped row hash (w_db w) (w_db w')" "sessions_dead (ur_id row) (w_db w')"
    using mem(1) v v' by simp_all
  with mem uid ver salt userFromRow_Inr [OF row(2)] show ?thesis by auto
qed

section \<open>Calls that succeed\<close>

lemma GetByID_ok:
  assumes "faultless E" and "scan_reads_text E" and "length uid = 16" and "w_tx w \<noteq> TxAborted"
    and "GetUserByID uid (w_db w) = Some row" and "userFromRow E row = Inr u"
  shows "UserRepository_GetByID E (uuid_text uid) w = (Inr u, w\<lparr>w_step := Suc (w_step w)\<rparr>)"
  using assms by (simp add: UserRepository_GetByID_def scan_text select_one_faultless)

lemma Update_ok:
  assumes "faultless E" and "scan_reads_text E" and "length uid = 16" and "w_tx w \<noteq> TxAborted"
    and "u_id u = uuid_text uid" and "UpdateUser uid (u_passwordHash u) (u_fullName u) (u_role u) (u_status u) (u_updatedAt u) (u_version u) (w_db w) = (Inr n, d)"
    and "0 < n"
  shows "UserRepository_Update E u w = (Inr (), w\<lparr>w_step := Suc (w_step w), w_db := d\<rparr>)"
  using assms by (simp add: UserRepository_Update_def scan_text query_faultless)

lemma RevokeAll_ok:
  assumes "faultless E" and "scan_reads_text E" and "length uid = 16" and "w_tx w \<noteq> TxAborted"
  shows "RefreshTokenRepository_RevokeAllForUser E (uuid_text uid) now w =
    (Inr (), w\<lparr>w_step := Suc (w_step w), w_db := snd (RevokeAllRefreshTokensForUser uid now (w_db w))\<rparr>)"
  using assms
  by (simp add: RefreshTokenRepository_RevokeAllForUser_def scan_text query_faultless RevokeAllRefreshTokensForUser_def)

lemma Publish_ok:
  assumes "faultless E" and "scan_reads_text E" and "w_tx w \<noteq> TxAborted"
    and "drawn_id E (w_step w) \<notin> ob_id ` set (d_identity_outbox (w_db w))"
  shows "\<exists>d. identity_publish_one E ev w = (Inr (), w\<lparr>w_step := w_step w + 5, w_db := d\<rparr>)"
  using assms
  by (simp add: identity_publish_one_def NewID_drawn scan_text query_faultless InsertIdentityOutboxEvent_def steps)
    (rule exI, rule refl)

lemma Transaction_ok:
  assumes "faultless E" and "w_tx w = NoTx" and "m (tx_enter w) = (Inr x, (tx_enter w)\<lparr>w_step := k, w_db := d\<rparr>)"
  shows "\<exists>w'. WithinTransaction E m w = (Inr x, w') \<and> w_step w' = Suc k"
proof -
  have "e_db E (w_step w) = None" "e_commit E k = Committed" using assms(1) by (simp_all add: faultless_def)
  then show ?thesis
    using WithinTransaction_ok [where m = m and E = E, OF assms(2) _ assms(3)] by (simp add: tx_enter_def)
qed

text \<open>Ann, as the repository rehydrates her, and the calls of both flows on her.\<close>

definition ann_user :: user where
  "ann_user = UserFromState (uuid_text (demo_id 1)) ''ann@x.io'' (ur_password_hash ann) ''Ann'' ''user'' StatusActive 1 0 0"

lemma ann_user: "userFromRow demo_env ann = Inr ann_user" "u_id ann_user = uuid_text (demo_id 1)" "ur_id ann = demo_id 1"
    "length (demo_id 1) = 16" "NewUserID (uuid_text (demo_id 1)) = Inr (uuid_text (demo_id 1))"
  using known_ann(2) uuid_shape_text [of "demo_id 1"]
  by (simp_all add: ann_user_def UserFromState_def ann_def StatusActive_def demo_id_def NewUserID_def)

lemma demo_hash: "\<exists>hash. Hasher_Hash demo_env pw w = (Inr hash, w\<lparr>w_step := Suc (w_step w)\<rparr>)"
proof -
  obtain hash where "sec_HashPassword (e_kdf demo_env) (Some (drawn demo_env (w_step w) argonSaltLen)) pw = Inr hash"
    by (simp add: sec_HashPassword_def demo_env_def demo_kdf_def)
  then show ?thesis
    by (simp add: Hasher_Hash_def rand_Read_drawn [OF demo_faultless] from_password_def del: rand_Read_simp)
qed

lemma demo_swap:
  fixes hash :: string and t0 :: int
  defines "u' \<equiv> User_ChangePassword hash t0 ann_user"
  assumes "w_tx w = TxOpen" and "d_users (w_db w) = [ann]" and "d_identity_outbox (w_db w) = []"
  shows "\<exists>d. andThen (UserRepository_Update demo_env u') (\<lambda>_. andThen (clock_Now demo_env)
      (\<lambda>t. andThen (RefreshTokenRepository_RevokeAllForUser demo_env (u_id u') t) (\<lambda>_.
        IdentityOutbox_Publish demo_env (fst (User_PullEvents u'))))) w = (Inr (), w\<lparr>w_step := w_step w + 8, w_db := d\<rparr>)"
proof -
  note E = demo_faultless demo_reads_text and id = ann_user(4,3)
  have u': "u_id u' = uuid_text (demo_id 1)" "fst (User_PullEvents u') = [PasswordChanged (uuid_text (demo_id 1)) t0]"
    using ann_user(2) by (simp_all add: u'_def User_ChangePassword_def User_PullEvents_def ann_user_def UserFromState_def)
  obtain d1 where up: "UserRepository_Update demo_env u' w = (Inr (), w\<lparr>w_step := Suc (w_step w), w_db := d1\<rparr>)"
    and d1: "d_identity_outbox d1 = []"
    using Update_ok [OF E id(1), of w u'] u'(1) assms(2-)
    by (simp add: UpdateUser_def Let_def User_ChangePassword_def UserFromState_def count_rows_def id(2) u'_def ann_user_def)
      (simp add: ann_def)
  let ?n = "w_step w"
  obtain d2 where rv: "RefreshTokenRepository_RevokeAllForUser demo_env (uuid_text (demo_id 1)) (e_now demo_env (Suc ?n))
      (w\<lparr>w_db := d1, w_step := Suc (Suc ?n)\<rparr>) = (Inr (), w\<lparr>w_step := Suc (Suc (Suc ?n)), w_db := d2\<rparr>)"
    and d2: "d_identity_outbox d2 = []"
    using RevokeAll_ok [OF E id(1), of "w\<lparr>w_db := d1, w_step := Suc (Suc ?n)\<rparr>" "e_now demo_env (Suc ?n)"] d1 assms(2)
    by (simp add: RevokeAllRefreshTokensForUser_def)
  obtain d3 where "identity_publish_one demo_env (PasswordChanged (uuid_text (demo_id 1)) t0)
      (w\<lparr>w_step := Suc (Suc (Suc ?n)), w_db := d2\<rparr>) = (Inr (), w\<lparr>w_step := ?n + 8, w_db := d3\<rparr>)"
    using Publish_ok [OF E, of "w\<lparr>w_step := Suc (Suc (Suc ?n)), w_db := d2\<rparr>"] d2 assms(2) by (fastforce simp: steps)
  with up rv show ?thesis by (simp add: u') (rule exI, rule refl)
qed

lemma demo_change: "\<exists>w'. ChangePassword_Execute demo_env (uuid_text (demo_id 1)) ''hunter2'' ''new'' (demo_world ann_db) = (Inr (), w')"
proof -
  note E = demo_faultless demo_reads_text
  have g: "UserRepository_GetByID demo_env (uuid_text (demo_id 1)) (demo_world ann_db) = (Inr ann_user, (demo_world ann_db)\<lparr>w_step := 1\<rparr>)"
    using GetByID_ok [OF E ann_user(4), of "demo_world ann_db" ann ann_user] ann_user(1,3)
    by (simp add: GetUserByID_def demo_world_def ann_db_def)
  have v: "Hasher_Verify demo_env (u_passwordHash ann_user) ''hunter2'' x = (Inr True, x)" for x
    using demo_verified [of "''hunter2''"] by (simp add: Hasher_Verify_def verified_def UserFromState_def from_password_def ann_user_def)
  obtain hash where h: "Hasher_Hash demo_env ''new'' ((demo_world ann_db)\<lparr>w_step := 1\<rparr>) = (Inr hash, (demo_world ann_db)\<lparr>w_step := 2\<rparr>)"
    using demo_hash [of "''new''" "(demo_world ann_db)\<lparr>w_step := 1\<rparr>"] by (auto simp: numeral_2_eq_2)
  let ?v = "(demo_world ann_db)\<lparr>w_step := 3\<rparr>" and ?u' = "User_ChangePassword hash (e_now demo_env 2) ann_user"
  let ?m = "andThen (UserRepository_Update demo_env ?u') (\<lambda>_. andThen (clock_Now demo_env)
      (\<lambda>t. andThen (RefreshTokenRepository_RevokeAllForUser demo_env (u_id ?u') t) (\<lambda>_.
        IdentityOutbox_Publish demo_env (fst (User_PullEvents ?u')))))"
  have "\<exists>d. ?m (tx_enter ?v) = (Inr (), (tx_enter ?v)\<lparr>w_step := w_step (tx_enter ?v) + 8, w_db := d\<rparr>)"
    by (rule demo_swap) (simp_all add: tx_enter_def demo)
  then obtain d where body: "?m (tx_enter ?v) = (Inr (), (tx_enter ?v)\<lparr>w_step := w_step (tx_enter ?v) + 8, w_db := d\<rparr>)" by blast
  from Transaction_ok [where m = ?m, OF demo_faultless _ body] show ?thesis
    using g v h by (auto simp: ChangePassword_Execute_def Let_def ann_user(5) [simplified] demo_world_def)
qed

lemma change_password_ends_sessions_witness:
  "\<exists>w'. ChangePassword_Execute demo_env (uuid_text (demo_id 1)) ''hunter2'' ''new'' (demo_world ann_db) = (Inr (), w') \<and>
     sessions_dead (demo_id 1) (w_db w')"
proof -
  obtain w' where run: "ChangePassword_Execute demo_env (uuid_text (demo_id 1)) ''hunter2'' ''new'' (demo_world ann_db) = (Inr (), w')"
    using demo_change by blast
  from change_password_ends_sessions [OF _ demo_reads_text run] obtain row where
    "row \<in> set (d_users ann_db)" "sessions_dead (ur_id row) (w_db w')"
    using ann_db_ok by (auto simp: demo_world_def)
  moreover from this have "ur_id row = demo_id 1" by (simp add: ann_db_def ann_def)
  ultimately show ?thesis using run by metis
qed

section \<open>One-time codes\<close>

lemma OTP_verify_row:
  assumes "OTP_verify E userID purpose code w = (Inr c, w')"
  obtains uid row where "uuidFromString E userID = Inr uid" and "row \<in> set (d_otps (w_db w))"
    and "or_user_id row = uid" and "or_purpose row = purpose_string purpose" and "or_consumed_at row = None"
    and "e_now E (w_step w) < or_expires_at row" and "or_code_hash row = OTPCodes_Hash E code" and "c = otpFromRow row"
    and "\<forall>x \<in> set (d_otps (w_db w)). or_user_id x = uid \<and> or_purpose x = purpose_string purpose \<and>
           or_consumed_at x = None \<and> e_now E (w_step w) < or_expires_at x \<longrightarrow> or_created_at x \<le> or_created_at row"
    and "w_db w' = w_db w"
proof -
  from assms obtain w1 where "OTPRepository_GetActive E userID purpose (e_now E (w_step w)) (w\<lparr>w_step := Suc (w_step w)\<rparr>) = (Inr c, w1)"
    and h: "OTPCodes_Hash E code = o_codeHash c" and w': "w' = w1"
    unfolding OTP_verify_def by (auto elim!: andThen_InrE catchE_InrE split: if_splits)
  then obtain uid row where "uuidFromString E userID = Inr uid"
    and row: "GetActiveOTP uid (purpose_string purpose) (e_now E (w_step w)) (w_db w) = Some row"
    and "c = otpFromRow row" "w_db w' = w_db w"
    by (auto elim!: GetActive_Inr)
  with GetActiveOTP_Some [OF row] h show thesis
    by (intro that [of uid row]) (simp_all add: otpFromRow_def OTPFromState_def)
qed

text \<open>
  A code is accepted only in its own flow, by its own user, while it lives, and only the
  newest one: whenever \<open>verify\<close> accepts, the table holds a row of that user and that purpose with
  the hash of the presented code, unconsumed and unexpired, and no other live code of the same
  user and purpose is newer. A reset code never verifies an email, nor the reverse.
\<close>

theorem otp_verify_sound:
  assumes "OTP_verify E userID purpose code w = (Inr c, w')"
  shows "\<exists>row \<in> set (d_otps (w_db w)). uuidFromString E userID = Inr (or_user_id row) \<and>
    or_code_hash row = OTPCodes_Hash E code \<and> or_consumed_at row = None \<and> e_now E (w_step w) < or_expires_at row \<and>
    or_purpose row = purpose_string purpose \<and>
    (\<forall>other. other \<noteq> purpose \<longrightarrow> or_purpose row \<noteq> purpose_string other) \<and>
    (\<forall>x \<in> set (d_otps (w_db w)). or_user_id x = or_user_id row \<and> or_purpose x = or_purpose row \<and>
       or_consumed_at x = None \<and> e_now E (w_step w) < or_expires_at x \<longrightarrow> or_created_at x \<le> or_created_at row)"
  using assms
proof (rule OTP_verify_row)
  fix uid row
  assume a: "uuidFromString E userID = Inr uid" "row \<in> set (d_otps (w_db w))" "or_user_id row = uid"
    "or_purpose row = purpose_string purpose" "or_consumed_at row = None" "e_now E (w_step w) < or_expires_at row"
    "or_code_hash row = OTPCodes_Hash E code"
    "\<forall>x \<in> set (d_otps (w_db w)). or_user_id x = uid \<and> or_purpose x = purpose_string purpose \<and>
       or_consumed_at x = None \<and> e_now E (w_step w) < or_expires_at x \<longrightarrow> or_created_at x \<le> or_created_at row"
  then show ?thesis
    by (intro bexI [of _ row]) (simp_all add: purpose_string_inj)
qed

text \<open>Ann asked for a reset; the code is 123456.\<close>

definition otp_db :: db where
  "otp_db = ann_db\<lparr>d_otps := [\<lparr>or_id = demo_id 3, or_user_id = demo_id 1, or_purpose = ''password_reset'',
     or_code_hash = OTPCodes_Hash demo_env ''123456'', or_expires_at = 1800000000000000, or_consumed_at = None,
     or_created_at = 0\<rparr>]\<rparr>"

lemma otp_db_ok: "identity_ok otp_db"
  using ann_db_ok by (simp add: identity_ok_def otp_db_def) (simp add: demo)

lemma demo_verify:
  assumes "w_db w = otp_db" and "w_tx w = NoTx" and "w_step w < 1000"
  shows "OTP_verify demo_env (uuid_text (demo_id 1)) OTPPasswordReset ''123456'' w =
    (Inr (otpFromRow (hd (d_otps otp_db))), w\<lparr>w_step := Suc (Suc (w_step w))\<rparr>)"
proof -
  have "e_now demo_env (w_step w) < 1800000000000000" using assms(3) by (simp add: demo_env_def)
  then have "GetActiveOTP (demo_id 1) ''password_reset'' (e_now demo_env (w_step w)) otp_db = Some (hd (d_otps otp_db))"
    by (simp add: GetActiveOTP_def otp_db_def)
  then show ?thesis
    using assms scan_text [OF demo_reads_text ann_user(4)]
    by (simp add: OTP_verify_def OTPRepository_GetActive_def select_one_faultless [OF demo_faultless] otpFromRow_def
        OTPFromState_def) (simp add: otp_db_def)
qed

lemma otp_verify_sound_witness:
  "\<exists>c w'. OTP_verify demo_env (uuid_text (demo_id 1)) OTPPasswordReset ''123456'' (demo_world otp_db) = (Inr c, w') \<and>
     (\<exists>row \<in> set (d_otps otp_db). or_code_hash row = OTPCodes_Hash demo_env ''123456'')"
proof -
  have run: "OTP_verify demo_env (uuid_text (demo_id 1)) OTPPasswordReset ''123456'' (demo_world otp_db) =
      (Inr (otpFromRow (hd (d_otps otp_db))), (demo_world otp_db)\<lparr>w_step := Suc (Suc (w_step (demo_world otp_db)))\<rparr>)"
    by (rule demo_verify) (simp_all add: demo_world_def)
  with otp_verify_sound [OF run] show ?thesis by (auto simp: demo_world_def)
qed

lemma ConsumeOTP_consumed:
  assumes "identity_ok d" and "row \<in> set (d_otps d)"
  shows "otp_consumed (or_id row) (snd (ConsumeOTP (or_id row) at d))"
proof -
  have uniq: "x = row" if "x \<in> set (d_otps d)" "or_id x = or_id row" for x
    using that assms by (auto simp: identity_ok_def dest: distinct_map_eq)
  have "or_id row \<in> or_id ` set (d_otps d)" using assms(2) by simp
  then show ?thesis
    by (auto simp: otp_consumed_def ConsumeOTP_def Let_def ball_update_rows image_update_rows dest: uniq)
qed


lemma demo_reset: "\<exists>w'. ResetPassword demo_env ''ann@x.io'' ''123456'' ''new'' (demo_world otp_db) = (Inr (), w')"
proof -
  note E = demo_faultless demo_reads_text
  let ?w = "demo_world otp_db" and ?c = "otpFromRow (hd (d_otps otp_db))"
  have g: "UserRepository_GetByEmail demo_env ''ann@x.io'' (?w\<lparr>w_step := Suc 0\<rparr>) = (Inr ann_user, ?w\<lparr>w_step := 2\<rparr>)"
    using known_ann(1) ann_user(1)
    by (simp add: UserRepository_GetByEmail_def select_one_faultless [OF E(1)] demo_world_def otp_db_def GetUserByEmail_def
        numeral_2_eq_2)
  have v: "OTP_verify demo_env (u_id ann_user) OTPPasswordReset ''123456'' (?w\<lparr>w_step := 2\<rparr>) = (Inr ?c, ?w\<lparr>w_step := 4\<rparr>)"
    using demo_verify [of "?w\<lparr>w_step := 2\<rparr>"] by (simp add: ann_user(2) demo_world_def)
  obtain hash where h: "Hasher_Hash demo_env ''new'' (?w\<lparr>w_step := 4\<rparr>) = (Inr hash, ?w\<lparr>w_step := 5\<rparr>)"
    using demo_hash [of "''new''" "?w\<lparr>w_step := 4\<rparr>"] by auto
  let ?v = "?w\<lparr>w_step := 6\<rparr>" and ?u' = "User_ChangePassword hash (e_now demo_env 5) ann_user"
  let ?n = "andThen (UserRepository_Update demo_env ?u') (\<lambda>_. andThen (clock_Now demo_env)
      (\<lambda>t. andThen (RefreshTokenRepository_RevokeAllForUser demo_env (u_id ?u') t) (\<lambda>_.
        IdentityOutbox_Publish demo_env (fst (User_PullEvents ?u')))))"
  let ?m = "andThen (clock_Now demo_env) (\<lambda>t1. andThen (OTPRepository_Consume demo_env (o_id ?c) t1) (\<lambda>_. ?n))"
  let ?d0 = "snd (ConsumeOTP (demo_id 3) (e_now demo_env 7) otp_db)"
  have c: "OTPRepository_Consume demo_env (o_id ?c) (e_now demo_env 7) ((tx_enter ?v)\<lparr>w_step := 8\<rparr>) =
      (Inr (), (tx_enter ?v)\<lparr>w_step := 9, w_db := ?d0\<rparr>)"
    using scan_text [OF E(2), of "demo_id 3"]
    by (simp add: OTPRepository_Consume_def query_faultless [OF E(1)] otpFromRow_def OTPFromState_def otp_db_def
        uuidToString_text demo_id_def ConsumeOTP_def tx_enter_def demo_world_def Let_def)
  have "\<exists>d. ?n ((tx_enter ?v)\<lparr>w_step := 9, w_db := ?d0\<rparr>) =
      (Inr (), ((tx_enter ?v)\<lparr>w_step := 9, w_db := ?d0\<rparr>)\<lparr>w_step := w_step ((tx_enter ?v)\<lparr>w_step := 9, w_db := ?d0\<rparr>) + 8, w_db := d\<rparr>)"
    by (rule demo_swap) (simp_all add: tx_enter_def demo otp_db_def ConsumeOTP_def Let_def)
  then obtain d where "?n ((tx_enter ?v)\<lparr>w_step := 9, w_db := ?d0\<rparr>) = (Inr (), (tx_enter ?v)\<lparr>w_step := 17, w_db := d\<rparr>)"
    by auto
  with c have "?m (tx_enter ?v) = (Inr (), (tx_enter ?v)\<lparr>w_step := 17, w_db := d\<rparr>)"
    by (simp add: tx_enter_def demo_world_def)
  from Transaction_ok [where m = ?m, OF E(1) _ this] obtain w' where "WithinTransaction demo_env ?m ?v = (Inr (), w')"
    by (auto simp: demo_world_def)
  moreover have "throttle_open demo_env (''otp:'' @ ''ann@x.io'') 0 Map.empty"
    by (simp add: throttle_open_def demo_env_def r_get_def)
  moreover have "w_redis ?w = Map.empty" "e_redis demo_env n = None" for n
    by (simp_all add: demo_world_def demo_env_def)
  ultimately show ?thesis
    using g v h by (simp add: ResetPassword_def Let_def Throttle_Allowed_simp Throttle_Reset_simp demo_step ann_email)
qed


section \<open>API keys\<close>

text \<open>
  Predicates on Redis that hold for good once they hold, carried through the identity module's
  calls: \<open>Q n s\<close> may mention the step \<open>n\<close>, and steps only advance.
\<close>

definition on_redis :: "(nat \<Rightarrow> redis \<Rightarrow> bool) \<Rightarrow> world \<Rightarrow> bool" where
  "on_redis Q w \<longleftrightarrow> Q (w_step w) (w_redis w)"

locale redis_fact =
  fixes Q :: "nat \<Rightarrow> redis \<Rightarrow> bool" and E :: env
  assumes later: "Q n s \<Longrightarrow> Q (Suc n) s"
    and blacklisted: "Q n s \<Longrightarrow> Q n (r_set t (blacklist_key j) v ttl s)"
    and failed: "Q n s \<Longrightarrow> Q n (r_expire t (throttleKey E i) ttl (snd (r_incr t (throttleKey E i) s)))"
    and reset: "Q n s \<Longrightarrow> Q n (r_del (throttleKey E i) s)"
    and dropped: "Q n s \<Longrightarrow> Q n (r_del (byid_key kid) (r_del (cache_key hash) s))"
begin

lemma basic:
  "preserves (on_redis Q) (clock_Now E')" "preserves (on_redis Q) (rand_Read E' k)" "preserves (on_redis Q) (rand_Int E')"
  by (simp_all add: preserves_def on_redis_def later)

lemma statement: "preserves (on_redis Q) (query E' f)"
  by (rule preservesI) (auto simp: on_redis_def query_def Let_def abort_def later
      split: option.splits prod.splits sum.splits)

lemma selects: "preserves (on_redis Q) (select_rows E' f)" "preserves (on_redis Q) (select_one E' g)"
  unfolding select_one_def select_rows_def by (intro pres statement)+

lemma transaction:
  assumes "preserves (on_redis Q) m"
  shows "preserves (on_redis Q) (WithinTransaction E' m)"
proof (rule preservesI)
  fix w assume q: "on_redis Q w"
  have "on_redis Q (w\<lparr>w_step := Suc (w_step w), w_tx := TxOpen\<rparr>)" using q by (simp add: on_redis_def later)
  with assms have "on_redis Q (snd (m (w\<lparr>w_step := Suc (w_step w), w_tx := TxOpen\<rparr>)))" "on_redis Q (snd (m w))"
    using q by (auto dest: preservesD)
  with q show "on_redis Q (snd (WithinTransaction E' m w))"
    by (auto simp: WithinTransaction_def Let_def on_redis_def later
        split: option.splits prod.splits sum.splits commit_outcome.splits)
qed

lemma commands:
  "preserves (on_redis Q) (redis_Get E' k)"
  "preserves (on_redis Q) (redis_Publish E' ch msg)"
  "preserves (on_redis Q) (redis_Set E' (blacklist_key j) v ttl)"
  "preserves (on_redis Q) (Throttle_RecordFailure E i)"
  "preserves (on_redis Q) (Throttle_Reset E i)"
  "preserves (on_redis Q) (redis_call E' (\<lambda>t s. (Inr (), r_del (byid_key kid) (r_del (cache_key hash) s))))"
  by (auto simp: preserves_def on_redis_def redis_Get_def redis_Publish_def redis_Set_def redis_call_def Let_def
      Throttle_RecordFailure_def Throttle_Reset_def later blacklisted failed reset dropped
      split: option.splits prod.splits) (metis failed later snd_conv)+

lemma sent: "preserves (on_redis Q) (Notifier_SendOTP email purpose code)"
  by (simp add: Notifier_SendOTP_def preserves_def on_redis_def)

lemma new_id: "preserves (on_redis Q) (UUIDGenerator_NewID E')"
  unfolding UUIDGenerator_NewID_def by (intro pres basic)

lemma found: "preserves (on_redis Q) (one_row r)"
  by (simp add: one_row_def) (intro pres)

lemmas calls = basic statement selects transaction commands sent new_id found

lemma adapters:
  "preserves (on_redis Q) (Hasher_Hash E' pw)" "preserves (on_redis Q) (Hasher_Verify E' st pw)"
  "preserves (on_redis Q) (OpaqueTokens_Generate E')" "preserves (on_redis Q) (OTPCodes_NewCode E')"
  "preserves (on_redis Q) (AccessTokenSigner_Issue E' uid role)"
  "preserves (on_redis Q) (Blacklist_Revoke E jti ttl)" "preserves (on_redis Q) (Throttle_Allowed E i)"
  "preserves (on_redis Q) (APIKeyCache_Lookup E hash)" "preserves (on_redis Q) (APIKeyCache_Drop E kid)"
  unfolding Blacklist_Revoke_def Throttle_Allowed_def APIKeyCache_Lookup_def APIKeyCache_Drop_def identity_tokens Let_def
  by (intro pres calls | simp add: pres calls split: rval.splits)+

lemma repositories:
  "preserves (on_redis Q) (UserRepository_Create E u)" "preserves (on_redis Q) (UserRepository_GetByEmail E email)"
  "preserves (on_redis Q) (UserRepository_GetByID E uid)" "preserves (on_redis Q) (UserRepository_Update E u)"
  "preserves (on_redis Q) (UserRepository_MarkEmailVerified E uid now)"
  "preserves (on_redis Q) (RefreshTokenRepository_Create E t)" "preserves (on_redis Q) (RefreshTokenRepository_GetByHash E hash)"
  "preserves (on_redis Q) (RefreshTokenRepository_Revoke E tid now)"
  "preserves (on_redis Q) (RefreshTokenRepository_RevokeAllForUser E uid now)"
  "preserves (on_redis Q) (OTPRepository_Create E c)" "preserves (on_redis Q) (OTPRepository_GetActive E uid purpose now)"
  "preserves (on_redis Q) (OTPRepository_Consume E oid now)" "preserves (on_redis Q) (APIKeyRepository_Create E k)"
  "preserves (on_redis Q) (APIKeyRepository_ListForUser E uid)" "preserves (on_redis Q) (APIKeyRepository_GetByHash E hash)"
  "preserves (on_redis Q) (APIKeyRepository_Revoke E kid uid now)" "preserves (on_redis Q) (IdentityOutbox_Publish E events)"
  unfolding identity_repo by (intro pres calls)+

lemma use_cases:
  "preserves (on_redis Q) (Register_Execute E email pw name)" "preserves (on_redis Q) (Login_Execute E email pw)"
  "preserves (on_redis Q) (Refresh_Execute E raw)" "preserves (on_redis Q) (Logout_Execute E raw jti)"
  "preserves (on_redis Q) (GetProfile_Execute E uid)" "preserves (on_redis Q) (ChangePassword_Execute E uid pw pw')"
  "preserves (on_redis Q) (SetUserRole_Execute E uid role)" "preserves (on_redis Q) (RequestPasswordReset E email)"
  "preserves (on_redis Q) (ResetPassword E email code pw)" "preserves (on_redis Q) (RequestEmailVerification E uid)"
  "preserves (on_redis Q) (VerifyEmail E uid code)" "preserves (on_redis Q) (APIKey_Create E uid name)"
  "preserves (on_redis Q) (APIKey_List E uid)" "preserves (on_redis Q) (APIKey_Revoke E uid kid)"
  "preserves (on_redis Q) (Validate_lookup E hash)"
  unfolding identity_app Let_def by (intro pres calls adapters repositories)+

lemma handlers:
  assumes "\<And>key. req \<noteq> ValidateAPIKeyRequest key"
  shows "preserves (on_redis Q) (identity_handle E ctx req)"
proof (cases req)
  case (ValidateAPIKeyRequest key)
  with assms show ?thesis by blast
qed (simp_all add: identity_handlers, (intro pres use_cases)+)

end

text \<open>From step \<open>n\<close> on, no lookup finds a cache entry for the key with this hash.\<close>

definition cache_dead :: "env \<Rightarrow> string \<Rightarrow> nat \<Rightarrow> redis \<Rightarrow> bool" where
  "cache_dead E hash n s \<longleftrightarrow> (\<forall>m \<ge> n. r_get (e_now E m) (cache_key hash) s = None)"

lemma r_get_other: "s' k = s k \<Longrightarrow> r_get t k s' = r_get t k s"
  by (simp add: r_get_def)

lemma throttle_other:
  "k \<noteq> throttleKey E i \<Longrightarrow> r_expire t (throttleKey E i) ttl (snd (r_incr t (throttleKey E i) s)) k = s k"
  by (auto simp: r_expire_def r_incr_def split: option.splits rval.splits)

lemma keys_differ:
  "cache_key h \<noteq> throttleKey E i" "cache_key h \<noteq> blacklist_key j" "cache_key h \<noteq> byid_key k"
  "cache_key h = cache_key h' \<longleftrightarrow> h = h'"
  by (simp_all add: cache_key_def throttleKey_def blacklist_key_def byid_key_def)

interpretation uncached: redis_fact "cache_dead E hash" E for E hash
proof unfold_locales
  fix n s t i ttl
  assume "cache_dead E hash n s"
  moreover have "r_expire t (throttleKey E i) ttl (snd (r_incr t (throttleKey E i) s)) (cache_key hash) = s (cache_key hash)"
    by (simp add: throttle_other keys_differ)
  ultimately show "cache_dead E hash n (r_expire t (throttleKey E i) ttl (snd (r_incr t (throttleKey E i) s)))"
    by (simp add: cache_dead_def r_get_def)
qed (simp_all add: cache_dead_def r_get_def r_set_def r_del_def keys_differ)

text \<open>The key is revoked in the database and not cached.\<close>

definition key_dead :: "env \<Rightarrow> string \<Rightarrow> world \<Rightarrow> bool" where
  "key_dead E hash w \<longleftrightarrow> key_revoked hash (w_db w) \<and> cache_dead E hash (w_step w) (w_redis w)"

lemma key_dead_preserves:
  "preserves (on_db (key_revoked hash)) m \<Longrightarrow> preserves (on_redis (cache_dead E hash)) m \<Longrightarrow> preserves (key_dead E hash) m"
  by (simp add: preserves_def key_dead_def on_db_def on_redis_def)

lemma GetByHash_no_panic: "APIKeyRepository_GetByHash E hash w \<noteq> (Inl Panicked, w')"
  by (auto simp: APIKeyRepository_GetByHash_def orNotFound_def catchE_def select_one_no_panic
      split: prod.splits sum.splits if_splits dest: sym)

lemma dead_lookup:
  assumes "key_revoked hash (w_db w)"
  shows "\<exists>w'. Validate_lookup E hash w = (Inl ErrAPIKeyNotFound, w')"
proof (cases "APIKeyRepository_GetByHash E hash w")
  case (Pair r w')
  show ?thesis
  proof (cases r)
    case (Inl e)
    with Pair GetByHash_no_panic [of E hash w] show ?thesis by (cases "e = Panicked") (auto simp: Validate_lookup_def)
  next
    case (Inr k)
    with Pair obtain row where "GetAPIKeyByHash hash (w_db w) = Some row" "k = apiKeyFromRow row"
      by (auto elim: Key_GetByHash_Inr)
    with assms have "\<not> APIKey_IsActive k"
      by (auto simp: GetAPIKeyByHash_def key_revoked_def APIKey_IsActive_def apiKeyFromRow_def APIKeyFromState_def
          dest!: find_Some_set)
    with Pair Inr show ?thesis by (simp add: Validate_lookup_def)
  qed
qed

lemma dead_validate:
  assumes "key_dead E hash w" and "OpaqueTokens_Hash E presented = hash"
  shows "\<exists>w'. APIKey_Validate E presented w = (Inl ErrAPIKeyNotFound, w')"
proof -
  have miss: "\<exists>w1. APIKeyCache_Lookup E hash w = (Inr None, w1) \<and> w_db w1 = w_db w"
  proof -
    have "r_get (e_now E (w_step w)) (cache_key hash) (w_redis w) = None"
      using assms(1) by (simp add: key_dead_def cache_dead_def)
    then show ?thesis
      by (auto simp: APIKeyCache_Lookup_def catchE_def redis_Get_def redis_call_def Let_def redis_Nil_def split: option.splits)
  qed
  then obtain w1 where "APIKeyCache_Lookup E hash w = (Inr None, w1)" "key_revoked hash (w_db w1)"
    using assms(1) by (auto simp: key_dead_def)
  with dead_lookup [of hash w1 E] show ?thesis
    by (auto simp: APIKey_Validate_def Let_def assms(2))
qed

lemma other_store:
  assumes "h \<noteq> hash"
  shows "preserves (on_redis (cache_dead E hash)) (Validate_store E h x)"
proof (cases x)
  case (Pair k u)
  have "r_get t (cache_key hash) (r_set n (byid_key i) v ttl (r_set n (cache_key h) p ttl s)) = r_get t (cache_key hash) s"
    for t n i v ttl p s
    using assms by (simp add: r_get_def r_set_def cache_key_def byid_key_def)
  then show ?thesis
    by (simp add: Pair Validate_store_def APIKeyCache_Store_def preserves_def andThen_def on_redis_def
        redis_call_def Let_def cache_dead_def split: option.splits)
qed

lemma dead_kept: "preserves (key_dead E hash) (identity_handle E ctx req)"
proof (cases "\<exists>key. req = ValidateAPIKeyRequest key")
  case False
  then show ?thesis
    by (intro key_dead_preserves key.handler_keeps uncached.handlers) auto
next
  case True
  then obtain presented where req: "req = ValidateAPIKeyRequest presented" by blast
  let ?h = "OpaqueTokens_Hash E presented"
  have "preserves (key_dead E hash) (andThen (Validate_lookup E ?h) (Validate_store E ?h))"
  proof (cases "?h = hash")
    case True
    have "preserves (key_dead E hash) (Validate_lookup E hash)"
      by (intro key_dead_preserves key.use_cases_keep(16,17) uncached.use_cases)
    with True dead_lookup [of hash _ E] show ?thesis
      by (fastforce simp: preserves_def andThen_def key_dead_def split: prod.splits sum.splits)
  next
    case False
    then show ?thesis
      by (intro key_dead_preserves preserves_andThen key.use_cases_keep(16,17) uncached.use_cases other_store)
  qed
  note fills = this
  have "preserves (key_dead E hash) (APIKey_Validate E presented)"
    unfolding APIKey_Validate_def Let_def
    by (rule preserves_if [OF preserves_fail], rule preserves_andThen)
      (rule key_dead_preserves [OF key.other_keeps(7) uncached.adapters(8)],
        rule preserves_case_option, rule fills, intro pres)
  then show ?thesis by (simp add: req identity_handlers) (intro pres)
qed

lemma dead_history: "key_dead E hash w \<Longrightarrow> key_dead E hash (identity_serve E reqs w)"
proof (induction reqs arbitrary: w)
  case (Cons r reqs)
  obtain ctx req where "r = (ctx, req)" by (cases r)
  with Cons preservesD [OF dead_kept, of E hash w ctx req] show ?case by (simp add: identity_serve_def)
qed (simp add: identity_serve_def)

text \<open>Whenever the key's cache entry is alive, the index under \<open>kid\<close> leads to it.\<close>

definition cache_linked :: "env \<Rightarrow> string \<Rightarrow> string \<Rightarrow> redis \<Rightarrow> bool" where
  "cache_linked E kid hash s \<longleftrightarrow>
     (\<forall>n. r_get (e_now E n) (cache_key hash) s \<noteq> None \<longrightarrow> r_get (e_now E n) (byid_key kid) s = Some (RStr hash))"

lemma r_get_mono: "r_get t k s = None \<Longrightarrow> t \<le> t' \<Longrightarrow> r_get t' k s = None"
  by (auto simp: r_get_def split: option.splits if_splits)

lemma Drop_dead:
  assumes "\<forall>n. e_redis E n = None" and "mono (e_now E)" and "cache_linked E kid hash (w_redis w)"
  shows "cache_dead E hash (w_step (snd (APIKeyCache_Drop E kid w))) (w_redis (snd (APIKeyCache_Drop E kid w)))"
proof (cases "r_get (e_now E (w_step w)) (byid_key kid) (w_redis w) = Some (RStr hash)")
  case True
  then have "w_redis (snd (APIKeyCache_Drop E kid w)) = r_del (byid_key kid) (r_del (cache_key hash) (w_redis w))"
    using assms(1) by (simp add: APIKeyCache_Drop_def redis_Get_def redis_call_def Let_def catchE_def)
  then show ?thesis by (simp add: cache_dead_def r_get_def r_del_def keys_differ)
next
  case False
  with assms(3) have "r_get (e_now E (w_step w)) (cache_key hash) (w_redis w) = None"
    by (auto simp: cache_linked_def)
  then have "cache_dead E hash (w_step w) (w_redis w)"
    using assms(2) by (auto simp: cache_dead_def mono_def intro: r_get_mono)
  then have "on_redis (cache_dead E hash) w" by (simp add: on_redis_def)
  from preservesD [OF uncached.adapters(9) this] show ?thesis by (simp add: on_redis_def)
qed

lemma Drop_returns: "APIKeyCache_Drop E kid w = (Inr (), snd (APIKeyCache_Drop E kid w))"
  by (simp add: APIKeyCache_Drop_def catchE_def redis_Get_def redis_call_def Let_def redis_Nil_def
      split: option.splits rval.splits)

lemma RevokeAPIKey_revoked:
  assumes "identity_ok d" and "row \<in> set (d_api_keys d)"
    and "fst (RevokeAPIKey (kr_id row) uid at d) = Inr n" and "0 < n"
  shows "key_revoked (kr_key_hash row) (snd (RevokeAPIKey (kr_id row) uid at d))"
proof -
  have uniq: "x = row" if "x \<in> set (d_api_keys d)" "kr_id x = kr_id row \<or> kr_key_hash x = kr_key_hash row" for x
    using that assms(1,2) by (auto simp: identity_ok_def dest: distinct_map_eq)
  from assms(3,4) have "\<exists>x \<in> set (d_api_keys d). kr_id x = kr_id row \<and> kr_user_id x = uid"
    by (auto simp: RevokeAPIKey_def Let_def count_rows_def filter_empty_conv)
  then have "kr_user_id row = uid" using uniq by blast
  then show ?thesis
    using assms(2) by (auto simp: key_revoked_def RevokeAPIKey_def Let_def ball_update_rows image_update_rows dest: uniq)
qed

lemma Revoke_transaction:
  assumes "identity_ok (w_db w)" and "row \<in> set (d_api_keys (w_db w))" and "uuidFromString E kid = Inr (kr_id row)"
    and "APIKey_Revoke E userID kid w = (Inr (), w')"
  obtains w1 where "key_revoked (kr_key_hash row) (w_db w1)" and "w_redis w1 = w_redis w" and "w' = snd (APIKeyCache_Drop E kid w1)"
proof -
  let ?m = "andThen (clock_Now E) (\<lambda>t1. andThen (APIKeyRepository_Revoke E kid userID t1) (\<lambda>_.
     andThen (clock_Now E) (\<lambda>t2. IdentityOutbox_Publish E [APIKeyRevoked userID kid t2])))"
  from assms(4) obtain w1 where tx: "WithinTransaction E ?m w = (Inr (), w1)" and w': "w' = snd (APIKeyCache_Drop E kid w1)"
    unfolding APIKey_Revoke_def by (auto elim!: andThen_InrE)
  from tx obtain v v' where v: "w_db v = w_db w" "w_redis v = w_redis w" and body: "?m v = (Inr (), v')"
    and v': "w_db w1 = w_db v'" "w_redis w1 = w_redis v'"
    by (rule Transaction_Inr)
  from body obtain x t1 t2 where 1: "APIKeyRepository_Revoke E kid userID t1 (v\<lparr>w_step := Suc (w_step v)\<rparr>) = (Inr (), x)"
    and 2: "identity_publish_one E (APIKeyRevoked userID kid t2) (x\<lparr>w_step := Suc (w_step x)\<rparr>) = (Inr (), v')"
    by (auto elim!: andThen_InrE)
  from 1 have "key_revoked (kr_key_hash row) (w_db x) \<and> w_redis x = w_redis w"
    by (rule Key_Revoke_Inr) (use assms(1-3) v RevokeAPIKey_revoked in auto)
  with 2 have "key_revoked (kr_key_hash row) (w_db v') \<and> w_redis v' = w_redis w"
    by (auto elim!: Publish_one_Inr simp: key_revoked_def)
  with v' w' show thesis by (intro that [of w1]) simp_all
qed


text \<open>
  A revocation under another spelling of the key's id leaves the cached key valid. The
  database takes every spelling the driver parses, the cache is dropped under the spelling the
  caller sent: if the index knows only the canonical text, the revoked key is still accepted
  from the cache right after its revocation succeeded.
\<close>

theorem revoked_key_valid_by_spelling:
  assumes "identity_ok (w_db w)" and "row \<in> set (d_api_keys (w_db w))" and "uuidFromString E kid = Inr (kr_id row)"
    and "APIKey_Revoke E userID kid w = (Inr (), w')" and "e_redis E (w_step w') = None" and "w_redis w (byid_key kid) = None"
    and "r_get (e_now E (w_step w')) (cache_key (kr_key_hash row)) (w_redis w) = Some (RPrincipal u r)"
    and "has_prefix presented apiKeyPrefix" and "OpaqueTokens_Hash E presented = kr_key_hash row"
  shows "fst (APIKey_Validate E presented w') = Inr (u, r) \<and> key_revoked (kr_key_hash row) (w_db w')"
proof -
  from Revoke_transaction [OF assms(1-4)] obtain w1 where w1: "key_revoked (kr_key_hash row) (w_db w1)" "w_redis w1 = w_redis w"
    and w': "w' = snd (APIKeyCache_Drop E kid w1)" .
  have "w_redis w' = w_redis w" and db: "w_db w' = w_db w1"
    using assms(6) w1(2)
    by (auto simp: w' APIKeyCache_Drop_def catchE_def redis_Get_def redis_call_def Let_def r_get_none redis_Nil_def split: option.splits)
  then have "APIKeyCache_Lookup E (kr_key_hash row) w' = (Inr (Some (u, r)), w'\<lparr>w_step := Suc (w_step w')\<rparr>)"
    using assms(5,7) by (simp add: APIKeyCache_Lookup_def redis_Get_def redis_call_def Let_def catchE_def)
  with assms(8,9) w1(1) db show ?thesis by (simp add: APIKey_Validate_def Let_def)
qed

text \<open>Ann's key \<open>lynk_k\<close>, cached as \<open>Store\<close> leaves it.\<close>

definition key_world :: world where
  "key_world = (demo_world (ann_db\<lparr>d_api_keys := [\<lparr>kr_id = demo_id 4, kr_user_id = demo_id 1, kr_name = ''ci'',
       kr_key_hash = OpaqueTokens_Hash demo_env ''lynk_k'', kr_prefix = ''lynk_k'', kr_created_at = 0, kr_revoked_at = None\<rparr>]\<rparr>))
     \<lparr>w_redis := [cache_key (OpaqueTokens_Hash demo_env ''lynk_k'') \<mapsto> (RPrincipal ''ann'' ''user'', Some 1800000000000000),
        byid_key (uuid_text (demo_id 4)) \<mapsto> (RStr (OpaqueTokens_Hash demo_env ''lynk_k''), Some 1800000000000000)]\<rparr>"

abbreviation key_row :: apikey_row where
  "key_row \<equiv> hd (d_api_keys (w_db key_world))"

lemma key_world:
  "identity_ok (w_db key_world)" "key_row \<in> set (d_api_keys (w_db key_world))" "kr_id key_row = demo_id 4"
  "kr_key_hash key_row = OpaqueTokens_Hash demo_env ''lynk_k''" "e_redis demo_env n = None" "mono (e_now demo_env)"
  "cache_linked demo_env (uuid_text (demo_id 4)) (kr_key_hash key_row) (w_redis key_world)"
proof -
  have "identity_ok (w_db key_world) \<longleftrightarrow> identity_ok ann_db"
    by (simp add: identity_ok_def key_world_def demo_world_def) (simp add: demo)
  with ann_db_ok show "identity_ok (w_db key_world)" by simp
qed (simp_all add: key_world_def demo_world_def demo_env_def mono_def cache_linked_def r_get_def keys_differ
    split: if_splits)

lemma demo_revoke:
  assumes "uuidFromString demo_env kid = Inr (demo_id 4)"
  shows "\<exists>w1. APIKey_Revoke demo_env (uuid_text (demo_id 1)) kid key_world = (Inr (), snd (APIKeyCache_Drop demo_env kid w1)) \<and>
    w_step w1 = 10"
proof -
  note E = demo_faultless demo_reads_text
  let ?m = "andThen (clock_Now demo_env) (\<lambda>t1. andThen (APIKeyRepository_Revoke demo_env kid (uuid_text (demo_id 1)) t1) (\<lambda>_.
     andThen (clock_Now demo_env) (\<lambda>t2. IdentityOutbox_Publish demo_env [APIKeyRevoked (uuid_text (demo_id 1)) kid t2])))"
  let ?v = "tx_enter key_world"
  have "\<exists>d. APIKeyRepository_Revoke demo_env kid (uuid_text (demo_id 1)) t (?v\<lparr>w_step := 2\<rparr>) = (Inr (), ?v\<lparr>w_step := 3, w_db := d\<rparr>) \<and>
      d_identity_outbox d = []" for t
    using assms scan_text [OF E(2) ann_user(4)]
    by (simp add: APIKeyRepository_Revoke_def query_faultless [OF E(1)] RevokeAPIKey_def Let_def key_world_def tx_enter_def
        demo_world_def count_rows_def empty_db_def ann_db_def)
  then obtain d where r: "APIKeyRepository_Revoke demo_env kid (uuid_text (demo_id 1)) (e_now demo_env 1) (?v\<lparr>w_step := 2\<rparr>) =
      (Inr (), ?v\<lparr>w_step := 3, w_db := d\<rparr>)" and d: "d_identity_outbox d = []" by blast
  obtain d' where p: "identity_publish_one demo_env (APIKeyRevoked (uuid_text (demo_id 1)) kid (e_now demo_env 3))
      (?v\<lparr>w_db := d, w_step := 4\<rparr>) = (Inr (), ?v\<lparr>w_step := 9, w_db := d'\<rparr>)"
    using Publish_ok [OF E, of "?v\<lparr>w_db := d, w_step := 4\<rparr>"] d by (fastforce simp: tx_enter_def key_world_def)
  have "?m ?v = (Inr (), ?v\<lparr>w_step := 9, w_db := d'\<rparr>)"
    using r p by (simp add: tx_enter_def key_world_def demo_world_def numeral_2_eq_2)
  moreover have "w_tx key_world = NoTx" by (simp add: key_world_def demo_world_def)
  ultimately obtain w1 where "WithinTransaction demo_env ?m key_world = (Inr (), w1)" "w_step w1 = 10"
    using Transaction_ok [where m = ?m, OF E(1)] by fastforce
  then show ?thesis
    using Drop_returns [of demo_env kid w1] by (auto simp: APIKey_Revoke_def)
qed


lemma revoked_key_valid_by_spelling_witness:
  "\<exists>w'. APIKey_Revoke demo_env (uuid_text (demo_id 1)) (hex_encode (demo_id 4)) key_world = (Inr (), w') \<and>
     fst (APIKey_Validate demo_env ''lynk_k'' w') = Inr (''ann'', ''user'')"
proof -
  have len: "length (demo_id 4) = 16" by (simp add: demo_id_def)
  have scan: "uuidFromString demo_env (hex_encode (demo_id 4)) = Inr (demo_id 4)"
    using map_nth [of "demo_id 4"] len
    by (simp add: uuidFromString_def demo_env_def demo_scan_def hex_encode_no_dash unhex_hex_encode)
  obtain w1 where run: "APIKey_Revoke demo_env (uuid_text (demo_id 1)) (hex_encode (demo_id 4)) key_world =
      (Inr (), snd (APIKeyCache_Drop demo_env (hex_encode (demo_id 4)) w1))" and w1: "w_step w1 = 10"
    using demo_revoke [OF scan] by blast
  let ?w' = "snd (APIKeyCache_Drop demo_env (hex_encode (demo_id 4)) w1)"
  have "hex_encode (demo_id 4) \<noteq> uuid_text (demo_id 4)"
  proof
    assume "hex_encode (demo_id 4) = uuid_text (demo_id 4)"
    then have "length (hex_encode (demo_id 4)) = length (uuid_text (demo_id 4))" by simp
    then show False by (simp add: len length_hex_encode length_uuid_text)
  qed
  then have none: "w_redis key_world (byid_key (hex_encode (demo_id 4))) = None"
    by (simp add: key_world_def byid_key_def cache_key_def)
  have "w_step ?w' \<le> 12"
    using w1 by (simp add: APIKeyCache_Drop_def catchE_def redis_Get_def redis_call_def Let_def split: option.splits rval.splits)
  then have "r_get (e_now demo_env (w_step ?w')) (cache_key (kr_key_hash key_row)) (w_redis key_world) = Some (RPrincipal ''ann'' ''user'')"
    by (simp add: key_world(4) r_get_def keys_differ) (simp add: key_world_def demo_env_def keys_differ)
  note hit = this
  have "has_prefix ''lynk_k'' apiKeyPrefix" by code_simp
  from revoked_key_valid_by_spelling [OF key_world(1,2) _ run _ none hit this] scan key_world(3-5)
  have "fst (APIKey_Validate demo_env ''lynk_k'' ?w') = Inr (''ann'', ''user'')" by metis
  with run show ?thesis by blast
qed

end
