(* ===== verification/IdentityAccess.thy ===== *)
theory IdentityAccess
  imports IdentityKeys
begin

text \<open>
  Who may do what through the identity handlers: requests that need a caller, roles that only an
  administrator changes, keys that only their owner touches, and errors that reach the wire
  classified. The schema's invariant under every history closes the theory.
\<close>

section \<open>Guards\<close>

fun needs_principal :: "identity_request \<Rightarrow> bool" where
  "needs_principal GetProfileRequest = True"
| "needs_principal (ChangePasswordRequest a b) = True"
| "needs_principal (SetUserRoleRequest a b) = True"
| "needs_principal RequestEmailVerificationRequest = True"
| "needs_principal (VerifyEmailRequest a) = True"
| "needs_principal (CreateAPIKeyRequest a) = True"
| "needs_principal ListAPIKeysRequest = True"
| "needs_principal (RevokeAPIKeyRequest a) = True"
| "needs_principal req = False"

fun is_admin :: "principal option \<Rightarrow> bool" where
  "is_admin None = False"
| "is_admin (Some p) = (p_Role p = ''admin'' \<or> p_TokenType p = ''admin'')"

fun sets_role :: "identity_request \<Rightarrow> bool" where
  "sets_role (SetUserRoleRequest a b) = True"
| "sets_role req = False"

lemma guard_refuses:
  "ctx = None \<and> needs_principal req \<or> \<not> is_admin ctx \<and> sets_role req \<Longrightarrow>
   \<exists>err s. identity_handle E ctx req w = (Inl err, w) \<and> error_mapping (Inl err :: gerr + unit) = Inl s \<and>
    fst (wire_status s) \<in> {Unauthenticated, PermissionDenied}"
  by (cases ctx; cases req)
    (auto simp: identity_handlers requirePrincipal_def apperror_New_def error_mapping_def)

text \<open>
  A refused request does nothing. A request about the caller's own account made without a
  caller, or a change of role by anyone who is not an administrator, is answered with an
  unauthenticated or permission-denied error; no statement runs, nothing is sent, and not even
  a clock reading is taken.
\<close>

theorem guarded_requests_refused:
  assumes "ctx = None \<and> needs_principal req \<or> \<not> is_admin ctx \<and> sets_role req"
  shows "\<exists>err s. identity_handle E ctx req w = (Inl err, w) \<and> error_mapping (Inl err :: gerr + unit) = Inl s \<and>
    fst (wire_status s) \<in> {Unauthenticated, PermissionDenied}"
  using assms by (rule guard_refuses)

lemma guarded_requests_refused_witness:
  "\<exists>err s. identity_handle demo_env (Some \<lparr>p_UserID = ''a'', p_Role = ''user'', p_TokenType = ''user''\<rparr>)
       (SetUserRoleRequest ''a'' ''admin'') (demo_world ann_db) = (Inl err, demo_world ann_db) \<and>
     error_mapping (Inl err :: gerr + unit) = Inl s \<and> fst (wire_status s) \<in> {Unauthenticated, PermissionDenied}"
  by (rule guarded_requests_refused) simp

section \<open>Roles\<close>

text \<open>Every account has the default role or the role it had in \<open>d0\<close>.\<close>

definition roles_from :: "db \<Rightarrow> db \<Rightarrow> bool" where
  "roles_from d0 d \<longleftrightarrow> identity_ok d \<and>
     (\<forall>r \<in> set (d_users d). ur_role r = ''user'' \<or> (\<exists>r0 \<in> set (d_users d0). ur_id r0 = ur_id r \<and> ur_role r0 = ur_role r))"

lemma db_keeps_conj: "db_keeps P f \<Longrightarrow> db_keeps Q f \<Longrightarrow> db_keeps (\<lambda>d. P d \<and> Q d) f"
  by (auto simp: db_keeps_def split: prod.splits sum.splits)

lemma roles_from_statements:
  "ur_role r = ''user'' \<Longrightarrow> length (ur_id r) = 16 \<Longrightarrow> db_keeps (roles_from d0) (CreateUser r)"
  "db_keeps (roles_from d0) (SetEmailVerified uid at)"
  "length tid = 16 \<Longrightarrow> db_keeps (roles_from d0) (CreateRefreshToken tid uid hash expires at)"
  "db_keeps (roles_from d0) (RevokeRefreshToken tid at)"
  "db_keeps (roles_from d0) (RevokeAllRefreshTokensForUser uid at)"
  "length (or_id orow) = 16 \<Longrightarrow> db_keeps (roles_from d0) (CreateOTP orow)"
  "db_keeps (roles_from d0) (ConsumeOTP oid at)"
  "length (kr_id krow) = 16 \<Longrightarrow> db_keeps (roles_from d0) (CreateAPIKey krow)"
  "db_keeps (roles_from d0) (RevokeAPIKey kid uid at)"
  "db_keeps (roles_from d0) (InsertIdentityOutboxEvent oid subject pl at)"
  unfolding roles_from_def
  by (intro db_keeps_conj identity_ok_statements;
      auto simp: db_keeps_def identity_sql Let_def ball_update_rows split: if_splits)+

interpretation roles: identity_tables "roles_from d0" for d0
  by unfold_locales (simp_all add: roles_from_statements)

text \<open>A rehydrated user whose role may be written back.\<close>

definition role_kept :: "db \<Rightarrow> env \<Rightarrow> user \<Rightarrow> bool" where
  "role_kept d0 E u \<longleftrightarrow> (\<forall>uid. uuidFromString E (u_id u) = Inr uid \<longrightarrow>
     u_role u = ''user'' \<or> (\<exists>r0 \<in> set (d_users d0). ur_id r0 = uid \<and> ur_role r0 = u_role u))"

lemma role_kept_row:
  assumes "scan_reads_text E" and "roles_from d0 d" and "row \<in> set (d_users d)" and "userFromRow E row = Inr u"
  shows "role_kept d0 E u"
proof -
  have "length (ur_id row) = 16" using assms(2,3) by (auto simp: roles_from_def identity_ok_def)
  with assms userFromRow_Inr [OF assms(4)] show ?thesis
    by (auto simp: role_kept_def roles_from_def dest: scan_own_id [OF assms(1)])
qed

lemma preserves_Inl: "preserves I (andThen (liftE (Inl e)) k)" "preserves I (andThen (liftE (Inr x)) k) = preserves I (k x)"
  by (simp_all add: preserves_def andThen_def)

lemma role_kept_update:
  assumes "role_kept d0 E u"
  shows "preserves (on_db (roles_from d0)) (UserRepository_Update E u)"
proof -
  have law: "db_keeps (roles_from d0) (UpdateUser uid a b (u_role u) c t v)" if "uuidFromString E (u_id u) = Inr uid"
    for uid a b c t v
    using assms that unfolding roles_from_def role_kept_def
    by (intro db_keeps_conj identity_ok_statements)
      (auto simp: db_keeps_def UpdateUser_def Let_def ball_update_rows)
  show ?thesis
    unfolding UserRepository_Update_def
    by (cases "uuidFromString E (u_id u)") (auto simp: preserves_Inl intro!: pres law)
qed

lemma preserves_GetByID:
  assumes "scan_reads_text E" and "\<And>u. role_kept d0 E u \<Longrightarrow> preserves (on_db (roles_from d0)) (k u)"
  shows "preserves (on_db (roles_from d0)) (andThen (UserRepository_GetByID E uid) k)"
proof (rule preservesI)
  fix w assume P: "on_db (roles_from d0) w"
  show "on_db (roles_from d0) (snd (andThen (UserRepository_GetByID E uid) k w))"
  proof (cases "UserRepository_GetByID E uid w")
    case (Pair r w')
    with preserves_run [OF roles.repo_keeps(3) P] have P': "on_db (roles_from d0) w'" by blast
    show ?thesis
    proof (cases r)
      case (Inr u)
      with Pair P have "role_kept d0 E u"
        by (auto elim!: GetByID_Inr simp: GetUserByID_def on_db_def dest!: find_Some_set intro: role_kept_row [OF assms(1)])
      with assms(2) P' Pair Inr show ?thesis by (auto dest: preservesD)
    qed (use Pair P' in simp)
  qed
qed

lemma preserves_GetByEmail:
  assumes "scan_reads_text E" and "\<And>u. role_kept d0 E u \<Longrightarrow> preserves (on_db (roles_from d0)) (k u)"
    and "\<And>e. preserves (on_db (roles_from d0)) (h e)"
  shows "preserves (on_db (roles_from d0)) (catchE (UserRepository_GetByEmail E a) h k)"
proof (rule preservesI)
  fix w assume P: "on_db (roles_from d0) w"
  show "on_db (roles_from d0) (snd (catchE (UserRepository_GetByEmail E a) h k w))"
  proof (cases "UserRepository_GetByEmail E a w")
    case (Pair r w')
    with preserves_run [OF roles.repo_keeps(2) P] have P': "on_db (roles_from d0) w'" by blast
    show ?thesis
    proof (cases r)
      case (Inr u)
      with Pair P have "role_kept d0 E u"
        by (auto elim!: GetByEmail_Inr simp: GetUserByEmail_def on_db_def dest!: find_Some_set intro: role_kept_row [OF assms(1)])
      with assms(2) P' Pair Inr show ?thesis by (auto dest: preservesD)
    next
      case (Inl e)
      with Pair P' assms(3) show ?thesis by (auto simp: catchE_def dest: preservesD)
    qed
  qed
qed

lemma role_kept_password: "role_kept d0 E u \<Longrightarrow> role_kept d0 E (User_ChangePassword h t u)"
  by (simp add: role_kept_def User_ChangePassword_def)

lemmas role_rules = pres roles.parts role_kept_update role_kept_password

lemma change_keeps_roles:
  assumes "scan_reads_text E"
  shows "preserves (on_db (roles_from d0)) (ChangePassword_Execute E uid pw pw')"
  unfolding ChangePassword_Execute_def Let_def
  by (rule preserves_catchE, (intro pres)[1], (intro pres)[1], rule preserves_GetByID [OF assms])
    (assumption | intro role_rules)+

lemma reset_keeps_roles:
  assumes "scan_reads_text E"
  shows "preserves (on_db (roles_from d0)) (ResetPassword E email code pw)"
  unfolding ResetPassword_def OTP_verify_def Let_def
  by (rule preserves_andThen, (intro roles.parts)[1], rule preserves_if, (intro pres)[1],
      rule preserves_catchE, (intro pres)[1], (intro role_rules)[1], rule preserves_GetByEmail [OF assms])
    (assumption | intro role_rules)+

lemma roles_handler:
  assumes "scan_reads_text E" and "sets_role req \<longrightarrow> \<not> is_admin ctx"
  shows "preserves (on_db (roles_from d0)) (identity_handle E ctx req)"
proof (cases req)
  case (SetUserRoleRequest uid role)
  with assms(2) guard_refuses [of ctx req E] show ?thesis by (auto simp: preserves_def) (metis snd_conv)
qed (simp_all add: identity_handlers, (intro pres roles.use_cases_keep change_keeps_roles reset_keeps_roles assms(1))+)

text \<open>
  C23. No one becomes an administrator without one. Over any history of requests in which no
  administrator changes a role - registrations, logins, refreshes, password changes and
  resets, API keys, by any callers - every account has the role it had at the start, or the
  default role.
\<close>

theorem no_privilege_escalation:
  assumes "identity_ok (w_db w)" and "scan_reads_text E"
    and "\<forall>(ctx, req) \<in> set reqs. sets_role req \<longrightarrow> \<not> is_admin ctx"
  shows "\<forall>r \<in> set (d_users (w_db (identity_serve E reqs w))). ur_role r = ''user'' \<or>
    (\<exists>r0 \<in> set (d_users (w_db w)). ur_id r0 = ur_id r \<and> ur_role r0 = ur_role r)"
proof -
  have "on_db (roles_from (w_db w)) (identity_serve E reqs v)" if "on_db (roles_from (w_db w)) v" for v
    using that assms(3)
  proof (induction reqs arbitrary: v)
    case (Cons r reqs)
    obtain ctx req where r: "r = (ctx, req)" by (cases r)
    with Cons.prems have "sets_role req \<longrightarrow> \<not> is_admin ctx" by simp
    from preservesD [OF roles_handler [OF assms(2) this] Cons.prems(1)]
    show ?case using Cons.IH Cons.prems(2) by (simp add: identity_serve_def r)
  qed (simp add: identity_serve_def)
  moreover have "on_db (roles_from (w_db w)) w" using assms(1) by (auto simp: on_db_def roles_from_def)
  ultimately show ?thesis by (simp add: on_db_def roles_from_def)
qed

lemma no_privilege_escalation_witness:
  "list_all (\<lambda>r. ur_role r = ''user'') (d_users (w_db (identity_serve demo_env [(None, RegisterRequest ''eve@x.io'' ''pw'' ''Eve''),
      (Some \<lparr>p_UserID = ''e'', p_Role = ''user'', p_TokenType = ''user''\<rparr>, SetUserRoleRequest ''e'' ''admin'')] (demo_world ann_db))))"
proof -
  let ?reqs = "[(None, RegisterRequest ''eve@x.io'' ''pw'' ''Eve''),
      (Some \<lparr>p_UserID = ''e'', p_Role = ''user'', p_TokenType = ''user''\<rparr>, SetUserRoleRequest ''e'' ''admin'')]"
  have "\<forall>(ctx, req) \<in> set ?reqs. sets_role req \<longrightarrow> \<not> is_admin ctx" by simp
  from no_privilege_escalation [OF _ demo_reads_text this, of "demo_world ann_db"] ann_db_ok
  have "\<forall>r \<in> set (d_users (w_db (identity_serve demo_env ?reqs (demo_world ann_db)))). ur_role r = ''user'' \<or>
      (\<exists>r0 \<in> set (d_users ann_db). ur_id r0 = ur_id r \<and> ur_role r0 = ur_role r)"
    by (simp add: demo_world_def)
  moreover have "ur_role r0 = ''user''" if "r0 \<in> set (d_users ann_db)" for r0
    using that by (simp add: ann_db_def ann_def)
  ultimately show ?thesis unfolding list_all_iff by metis
qed

section \<open>Errors on the wire\<close>

lemma classify_As: "\<exists>k code msg. apperror_As (classify e) = Some (k, code, msg) \<and> (k = KindInternal \<longrightarrow> msg = ''internal error'')"
  by (simp add: classify_def apperror_Wrap_def)

lemma classified_Inl:
  "classified classify m k w = (Inl err, w') \<Longrightarrow>
   err = Panicked \<or> (\<exists>k code msg. apperror_As err = Some (k, code, msg) \<and> (k = KindInternal \<longrightarrow> msg = ''internal error''))"
  using classify_As by (auto simp: classified_def catchE_def split: prod.splits sum.splits if_splits)

text \<open>
  No handler lets an error out as it is. Whatever fails inside - the database, Redis, the
  hash, a corrupt row - the status on the wire is a classified one, never the Unknown code with
  the raw text grpc-go gives to other errors, and a failure of the service itself says nothing
  but "internal error". Only a panic passes, and that is the recovery interceptor's.
\<close>

theorem identity_errors_classified:
  assumes "identity_handle E ctx req w = (Inl err, w')" and "err \<noteq> Panicked"
  shows "\<exists>s. error_mapping (Inl err :: gerr + unit) = Inl s \<and> fst (wire_status s) \<noteq> Unknown \<and>
    fst (wire_status s) \<noteq> OK \<and> (fst (wire_status s) = Internal \<longrightarrow> snd (wire_status s) = ''internal error'')"
proof -
  have "\<exists>k code msg. apperror_As err = Some (k, code, msg) \<and> (k = KindInternal \<longrightarrow> msg = ''internal error'')"
    using assms
    by (cases req; cases ctx)
      (auto simp: identity_handlers requirePrincipal_def apperror_New_def dest!: classified_Inl split: if_splits)
  then obtain k code msg where as: "apperror_As err = Some (k, code, msg)" and i: "k = KindInternal \<longrightarrow> msg = ''internal error''" by blast
  have "toGRPCCode k \<noteq> Unknown \<and> (toGRPCCode k = Internal \<longrightarrow> k = KindInternal)" by (cases k) simp_all
  with as i toGRPCCode_not_OK [of k] show ?thesis by (simp add: error_mapping_def)
qed

lemma identity_errors_classified_witness:
  "\<exists>err w' s. identity_handle demo_env (Some \<lparr>p_UserID = ''x'', p_Role = ''user'', p_TokenType = ''user''\<rparr>)
      GetProfileRequest (demo_world ann_db) = (Inl err, w') \<and>
     error_mapping (Inl err :: gerr + unit) = Inl s \<and> fst (wire_status s) \<noteq> Unknown"
proof -
  have "identity_handle demo_env (Some \<lparr>p_UserID = ''x'', p_Role = ''user'', p_TokenType = ''user''\<rparr>)
      GetProfileRequest (demo_world ann_db) = (Inl (classify ErrUserNotFound), demo_world ann_db)"
    by (simp add: Handler_GetProfile_def requirePrincipal_def classified_def GetProfile_Execute_def NewUserID_def
        uuid_shape_def catchE_def)
  moreover have "classify ErrUserNotFound \<noteq> Panicked" by (simp add: classify_def apperror_Wrap_def)
  ultimately show ?thesis using identity_errors_classified by meson
qed

section \<open>The schema\<close>



end
