(* ===== verification/Notes.thy ===== *)
theory Notes
  imports IdentityHandler
begin

text \<open>
  The example module (\<^verbatim>\<open>modules/example\<close>): value objects, the \<open>Note\<close> aggregate, the statements of
  \<^verbatim>\<open>gen/db/example.sql.go\<close>, the repository with its read replicas, the use cases and the gRPC
  handlers with their guards and error classification.
\<close>

section \<open>Value objects and the aggregate\<close>

definition NewNoteID :: "string \<Rightarrow> gerr + string" where
  "NewNoteID raw = (if \<not> uuid_shape raw then Inl ErrInvalidNoteID else Inr raw)"

definition maxTitleLen :: nat where "maxTitleLen = 200"

definition NewTitle :: "string \<Rightarrow> gerr + string" where
  "NewTitle raw =
     (let trimmed = trim_space raw in
      if trimmed = [] \<or> rune_count trimmed > maxTitleLen then Inl ErrInvalidTitle else Inr trimmed)"

record Note =
  n_id :: string
  n_ownerID :: string
  n_title :: string
  n_body :: string
  n_version :: int
  n_createdAt :: int
  n_updatedAt :: int
  n_events :: "note_event list"

definition NewNote :: "string \<Rightarrow> string \<Rightarrow> string \<Rightarrow> string \<Rightarrow> int \<Rightarrow> gerr + Note" where
  "NewNote nid ownerID title body now =
     (if ownerID = [] then Inl ErrMissingOwner
      else Inr \<lparr>n_id = nid, n_ownerID = ownerID, n_title = title, n_body = body, n_version = 1,
                n_createdAt = now, n_updatedAt = now, n_events = [NoteCreated nid ownerID title body now]\<rparr>)"

definition NoteFromState :: "string \<Rightarrow> string \<Rightarrow> string \<Rightarrow> string \<Rightarrow> int \<Rightarrow> int \<Rightarrow> int \<Rightarrow> Note" where
  "NoteFromState nid ownerID title body version createdAt updatedAt =
     \<lparr>n_id = nid, n_ownerID = ownerID, n_title = title, n_body = body, n_version = version,
      n_createdAt = createdAt, n_updatedAt = updatedAt, n_events = []\<rparr>"

definition Note_Update :: "string \<Rightarrow> string \<Rightarrow> int \<Rightarrow> Note \<Rightarrow> Note" where
  "Note_Update title body now n =
     n\<lparr>n_title := title, n_body := body, n_updatedAt := now,
       n_events := n_events n @ [NoteUpdated (n_id n) title body (n_version n + 1) now]\<rparr>"

definition Note_BumpVersion :: "Note \<Rightarrow> Note" where
  "Note_BumpVersion n = n\<lparr>n_version := n_version n + 1\<rparr>"

definition Note_PullEvents :: "Note \<Rightarrow> note_event list \<times> Note" where
  "Note_PullEvents n = (n_events n, n\<lparr>n_events := []\<rparr>)"

fun note_Subject :: "note_event \<Rightarrow> string" where
  "note_Subject (NoteCreated i own t b at) = ''example.note.created''"
| "note_Subject (NoteUpdated i t b v at) = ''example.note.updated''"

section \<open>Statements\<close>

definition CreateNote :: "note_row \<Rightarrow> db \<Rightarrow> (gerr + unit) \<times> db" where
  "CreateNote r d =
     (if nr_id r \<in> nr_id ` set (d_notes d) then (Inl dup_key, d)
      else (Inr (), d\<lparr>d_notes := d_notes d @ [r]\<rparr>))"

definition GetNote :: "uuid \<Rightarrow> string \<Rightarrow> db \<Rightarrow> note_row option" where
  "GetNote nid ownerID d = find (\<lambda>r. nr_id r = nid \<and> nr_owner_id r = ownerID) (d_notes d)"

definition UpdateNote :: "uuid \<Rightarrow> string \<Rightarrow> string \<Rightarrow> string \<Rightarrow> int \<Rightarrow> int \<Rightarrow> db \<Rightarrow> (gerr + nat) \<times> db" where
  "UpdateNote nid ownerID title body updated version d =
     (let p = (\<lambda>r. nr_id r = nid \<and> nr_owner_id r = ownerID \<and> nr_version r = version) in
      (Inr (count_rows p (d_notes d)),
       d\<lparr>d_notes := update_rows p
            (\<lambda>r. r\<lparr>nr_title := title, nr_body := body, nr_version := nr_version r + 1, nr_updated_at := updated\<rparr>)
            (d_notes d)\<rparr>))"

definition ListNotes :: "string \<Rightarrow> int \<Rightarrow> int \<Rightarrow> db \<Rightarrow> note_row list" where
  "ListNotes ownerID lim offset d =
     take (nat lim) (drop (nat offset)
       (sort_key (\<lambda>r. - nr_created_at r) (filter (\<lambda>r. nr_owner_id r = ownerID) (d_notes d))))"

definition InsertOutboxEvent :: "uuid \<Rightarrow> string \<Rightarrow> payload \<Rightarrow> int \<Rightarrow> db \<Rightarrow> (gerr + unit) \<times> db" where
  "InsertOutboxEvent oid subject payload at d =
     (if oid \<in> ob_id ` set (d_example_outbox d) then (Inl dup_key, d)
      else (Inr (), d\<lparr>d_example_outbox := d_example_outbox d @ [\<lparr>ob_id = oid, ob_subject = subject,
              ob_payload = payload, ob_occurred_at = at, ob_published_at = None\<rparr>]\<rparr>))"

lemmas example_sql = CreateNote_def GetNote_def UpdateNote_def ListNotes_def InsertOutboxEvent_def

section \<open>The repository\<close>

text \<open>\<open>readQuerier\<close>: the open transaction, or the next read pool.\<close>

definition read_rows :: "env \<Rightarrow> (db \<Rightarrow> 'a) \<Rightarrow> (world, gerr, 'a) act" where
  "read_rows E f w =
     (if w_tx w \<noteq> NoTx then select_rows E f w
      else andThen Pools_Read (\<lambda>p. pool_rows E p f) w)"

definition noteFromRow :: "note_row \<Rightarrow> gerr + Note" where
  "noteFromRow row =
     (case NewNoteID (uuidToString (nr_id row)) of
        Inl err \<Rightarrow> Inl (Wrapped ''example: corrupt note id'' err)
      | Inr nid \<Rightarrow>
          (case NewTitle (nr_title row) of
             Inl err \<Rightarrow> Inl (Wrapped ''example: corrupt note title'' err)
           | Inr title \<Rightarrow>
               Inr (NoteFromState nid (nr_owner_id row) title (nr_body row) (nr_version row)
                      (nr_created_at row) (nr_updated_at row))))"

definition NoteRepository_Create :: "env \<Rightarrow> Note \<Rightarrow> (world, gerr, unit) act" where
  "NoteRepository_Create E n =
     andThen (liftE (uuidFromString E (n_id n))) (\<lambda>nid.
       wrapE ''example: create note''
         (query E (CreateNote \<lparr>nr_id = nid, nr_owner_id = n_ownerID n, nr_title = n_title n, nr_body = n_body n,
            nr_version = n_version n, nr_created_at = n_createdAt n, nr_updated_at = n_updatedAt n\<rparr>)))"

definition NoteRepository_Get :: "env \<Rightarrow> string \<Rightarrow> string \<Rightarrow> (world, gerr, Note) act" where
  "NoteRepository_Get E ownerID nid =
     andThen (liftE (uuidFromString E nid)) (\<lambda>pgID.
       orNotFound ErrNoteNotFound ''example: get note'' (andThen (read_rows E (GetNote pgID ownerID)) one_row)
         (\<lambda>row. liftE (noteFromRow row)))"

definition NoteRepository_Update :: "env \<Rightarrow> Note \<Rightarrow> (world, gerr, Note) act" where
  "NoteRepository_Update E n =
     andThen (liftE (uuidFromString E (n_id n))) (\<lambda>nid.
       andThen (wrapE ''example: update note''
           (query E (UpdateNote nid (n_ownerID n) (n_title n) (n_body n) (n_updatedAt n) (n_version n))))
         (\<lambda>affected. if affected = 0 then fail ErrNoteConcurrentUpdate else ret (Note_BumpVersion n)))"

definition NoteRepository_List :: "env \<Rightarrow> string \<Rightarrow> int \<Rightarrow> int \<Rightarrow> (world, gerr, Note list) act" where
  "NoteRepository_List E ownerID lim offset =
     andThen (wrapE ''example: list notes'' (read_rows E (ListNotes ownerID lim offset)))
       (\<lambda>rows. liftE (mapE noteFromRow rows))"

definition example_publish_one :: "env \<Rightarrow> note_event \<Rightarrow> (world, gerr, unit) act" where
  "example_publish_one E ev =
     andThen (UUIDGenerator_NewID E) (\<lambda>raw.
     andThen (liftE (uuidFromString E raw)) (\<lambda>oid.
     andThen (clock_Now E) (\<lambda>t1.
     andThen (clock_Now E) (\<lambda>t2.
       wrapE ''example: insert outbox event''
         (query E (InsertOutboxEvent oid (note_Subject ev)
            (Envelope \<lparr>en_event = note_Subject ev, en_occurred_at = t1, en_traceparent = e_trace E,
                       en_data = NoteData ev\<rparr>) t2))))))"

definition ExampleOutbox_Publish :: "env \<Rightarrow> note_event list \<Rightarrow> (world, gerr, unit) act" where
  "ExampleOutbox_Publish E events =
     (if events = [] then ret () else forEach events (example_publish_one E))"

section \<open>Use cases\<close>

definition CreateNote_Execute :: "env \<Rightarrow> string \<Rightarrow> string \<Rightarrow> string \<Rightarrow> (world, gerr, Note) act" where
  "CreateNote_Execute E ownerID title body =
     andThen (UUIDGenerator_NewID E) (\<lambda>rawID.
     andThen (liftE (NewNoteID rawID)) (\<lambda>noteID.
     andThen (liftE (NewTitle title)) (\<lambda>noteTitle.
     andThen (clock_Now E) (\<lambda>now.
     andThen (liftE (NewNote noteID ownerID noteTitle body now)) (\<lambda>note.
       WithinTransaction E
         (andThen (NoteRepository_Create E note) (\<lambda>_.
          case Note_PullEvents note of (events, note') \<Rightarrow>
            andThen (ExampleOutbox_Publish E events) (\<lambda>_. ret note'))))))))"

definition GetNote_Execute :: "env \<Rightarrow> string \<Rightarrow> string \<Rightarrow> (world, gerr, Note) act" where
  "GetNote_Execute E ownerID nid =
     andThen (liftE (NewNoteID nid)) (\<lambda>noteID. NoteRepository_Get E ownerID noteID)"

definition UpdateNote_Execute ::
  "env \<Rightarrow> string \<Rightarrow> string \<Rightarrow> string \<Rightarrow> string \<Rightarrow> int \<Rightarrow> (world, gerr, Note) act" where
  "UpdateNote_Execute E ownerID nid title body version =
     andThen (liftE (NewNoteID nid)) (\<lambda>noteID.
     andThen (liftE (NewTitle title)) (\<lambda>noteTitle.
       WithinTransaction E
         (andThen (NoteRepository_Get E ownerID noteID) (\<lambda>note.
          if n_version note \<noteq> version then fail ErrNoteConcurrentUpdate
          else
            andThen (clock_Now E) (\<lambda>now.
            andThen (NoteRepository_Update E (Note_Update noteTitle body now note)) (\<lambda>note'.
            case Note_PullEvents note' of (events, note'') \<Rightarrow>
              andThen (ExampleOutbox_Publish E events) (\<lambda>_. ret note'')))))))"

definition page_limit :: "int \<Rightarrow> int" where
  "page_limit lim = (if lim \<le> 0 \<or> lim > 100 then 20 else lim)"

definition page_offset :: "int \<Rightarrow> int" where
  "page_offset offset = (if offset < 0 then 0 else offset)"

definition ListNotes_Execute :: "env \<Rightarrow> string \<Rightarrow> int \<Rightarrow> int \<Rightarrow> (world, gerr, Note list) act" where
  "ListNotes_Execute E ownerID lim offset = NoteRepository_List E ownerID (page_limit lim) (page_offset offset)"

lemmas example_repo = NoteRepository_Create_def NoteRepository_Get_def NoteRepository_Update_def
  NoteRepository_List_def ExampleOutbox_Publish_def example_publish_one_def
lemmas example_app = CreateNote_Execute_def GetNote_Execute_def UpdateNote_Execute_def ListNotes_Execute_def

section \<open>Handlers\<close>

definition notes_classify :: "gerr \<Rightarrow> gerr" where
  "notes_classify err =
     (if errors_Is err ErrNoteNotFound then apperror_Wrap err KindNotFound ''note_not_found'' ''note not found''
      else if errors_Is err ErrNoteConcurrentUpdate
        then apperror_Wrap err KindConflict ''note_conflict'' ''note was modified concurrently, re-read and retry''
      else if errors_Is err ErrInvalidNoteID \<or> errors_Is err ErrInvalidTitle \<or> errors_Is err ErrMissingOwner
        then apperror_Wrap err KindInvalidInput ''invalid_input'' (err_Error err)
      else apperror_Wrap err KindInternal ''internal'' ''internal error'')"

record proto_note =
  pn_Id :: string
  pn_Title :: string
  pn_Body :: string
  pn_Version :: int
  pn_CreatedAt :: int
  pn_UpdatedAt :: int

definition toProto :: "Note \<Rightarrow> proto_note" where
  "toProto n = \<lparr>pn_Id = n_id n, pn_Title = n_title n, pn_Body = n_body n, pn_Version = n_version n,
     pn_CreatedAt = n_createdAt n, pn_UpdatedAt = n_updatedAt n\<rparr>"

text \<open>
  The \<open>AccessChecker\<close> the handler is given: subject id, role and token type, resource type,
  action and resource attributes.
\<close>

type_synonym access = "string \<Rightarrow> string \<Rightarrow> string \<Rightarrow> string \<Rightarrow> string \<Rightarrow> (string \<times> string) list \<Rightarrow> bool"

datatype notes_request =
  CreateNoteRequest string string
| GetNoteRequest string
| UpdateNoteRequest string string string int
| ListNotesRequest int int

datatype notes_response = NoteResponse proto_note | NotesResponse "proto_note list"

definition NotesHandler_CreateNote :: "env \<Rightarrow> principal option \<Rightarrow> string \<Rightarrow> string \<Rightarrow> (world, gerr, notes_response) act" where
  "NotesHandler_CreateNote E ctx title body =
     andThen (liftE (requirePrincipal ctx)) (\<lambda>p.
       classified notes_classify (CreateNote_Execute E (p_UserID p) title body) (\<lambda>n. NoteResponse (toProto n)))"

definition NotesHandler_GetNote :: "env \<Rightarrow> principal option \<Rightarrow> string \<Rightarrow> (world, gerr, notes_response) act" where
  "NotesHandler_GetNote E ctx nid =
     andThen (liftE (requirePrincipal ctx)) (\<lambda>p.
       classified notes_classify (GetNote_Execute E (p_UserID p) nid) (\<lambda>n. NoteResponse (toProto n)))"

definition NotesHandler_UpdateNote ::
  "env \<Rightarrow> access \<Rightarrow> principal option \<Rightarrow> string \<Rightarrow> string \<Rightarrow> string \<Rightarrow> int \<Rightarrow> (world, gerr, notes_response) act" where
  "NotesHandler_UpdateNote E acc ctx nid title body version =
     andThen (liftE (requirePrincipal ctx)) (\<lambda>p.
       if \<not> acc (p_UserID p) (p_Role p) (p_TokenType p) ''note'' ''update'' [(''owner_id'', p_UserID p)]
       then fail (apperror_New KindPermissionDenied ''access_denied'' ''not allowed to update notes'')
       else classified notes_classify (UpdateNote_Execute E (p_UserID p) nid title body version)
              (\<lambda>n. NoteResponse (toProto n)))"

definition NotesHandler_ListNotes :: "env \<Rightarrow> principal option \<Rightarrow> int \<Rightarrow> int \<Rightarrow> (world, gerr, notes_response) act" where
  "NotesHandler_ListNotes E ctx lim offset =
     andThen (liftE (requirePrincipal ctx)) (\<lambda>p.
       classified notes_classify (ListNotes_Execute E (p_UserID p) lim offset) (\<lambda>ns. NotesResponse (map toProto ns)))"

fun notes_handle :: "env \<Rightarrow> access \<Rightarrow> principal option \<Rightarrow> notes_request \<Rightarrow> (world, gerr, notes_response) act" where
  "notes_handle E acc ctx (CreateNoteRequest title body) = NotesHandler_CreateNote E ctx title body"
| "notes_handle E acc ctx (GetNoteRequest nid) = NotesHandler_GetNote E ctx nid"
| "notes_handle E acc ctx (UpdateNoteRequest nid title body v) = NotesHandler_UpdateNote E acc ctx nid title body v"
| "notes_handle E acc ctx (ListNotesRequest lim offset) = NotesHandler_ListNotes E ctx lim offset"

lemmas notes_handlers = NotesHandler_CreateNote_def NotesHandler_GetNote_def NotesHandler_UpdateNote_def
  NotesHandler_ListNotes_def

definition notes_serve :: "env \<Rightarrow> access \<Rightarrow> (principal option \<times> notes_request) list \<Rightarrow> world \<Rightarrow> world" where
  "notes_serve E acc reqs w = fold (\<lambda>(ctx, req) w. snd (notes_handle E acc ctx req w)) reqs w"

section \<open>Facts that statements keep\<close>

lemma preserves_read_rows [pres]: "preserves (on_db P) (read_rows E f)"
proof (rule preservesI)
  fix w assume "on_db P w"
  then show "on_db P (snd (read_rows E f w))"
    using preservesD [OF preserves_select, of P w E f]
      preservesD [OF preserves_andThen [OF preserves_Pools_Read, of P "\<lambda>p. pool_rows E p f"], of w] preserves_pool_rows
    by (auto simp: read_rows_def)
qed

lemma preserves_result:
  assumes "preserves I m" and "\<And>w x w'. m w = (Inr x, w') \<Longrightarrow> R x" and "\<And>x. R x \<Longrightarrow> preserves I (k x)"
  shows "preserves I (andThen m k)"
proof (rule preservesI)
  fix w assume "I w"
  obtain r w' where m: "m w = (r, w')" by (cases "m w")
  with assms(1) \<open>I w\<close> have "I w'" by (rule preserves_run)
  then show "I (snd (andThen m k w))"
    using assms(2) [of w _ w'] assms(3) m by (cases r) (auto simp: preserves_def)
qed

lemma NewNote_result: "liftE (NewNote nid own title body now) w = (Inr n, w') \<Longrightarrow> n_version n = 1 \<and> n_ownerID n = own"
  by (auto simp: NewNote_def split: if_splits)

lemma read_rows_result: "read_rows E f w = (Inr x, w') \<Longrightarrow> \<exists>d. x = f d"
  by (auto simp: read_rows_def pool_rows_def split: if_splits option.splits elim!: andThen_InrE dest!: select_rows_Inr)

lemma Get_owner:
  assumes "NoteRepository_Get E own nid w = (Inr n, w')"
  shows "n_ownerID n = own"
proof -
  from assms obtain pgID d row where "GetNote pgID own d = Some row" "noteFromRow row = Inr n"
    unfolding NoteRepository_Get_def
    by (auto elim!: andThen_InrE orNotFound_InrE dest!: read_rows_result one_row_Inr)
  then show ?thesis
    by (auto simp: GetNote_def noteFromRow_def NoteFromState_def dest!: find_Some_set split: sum.splits)
qed

text \<open>
  A fact that the statements keep when they run for the owners \<open>by\<close>, carried through the requests
  of these owners.
\<close>

locale notes_fact =
  fixes P :: "db \<Rightarrow> bool" and by_owner :: "string \<Rightarrow> bool"
  assumes sql:
    "\<And>r. length (nr_id r) = 16 \<Longrightarrow> nr_version r = 1 \<Longrightarrow> by_owner (nr_owner_id r) \<Longrightarrow> db_keeps P (CreateNote r)"
    "\<And>nid own title body updated version. by_owner own \<Longrightarrow> db_keeps P (UpdateNote nid own title body updated version)"
    "\<And>oid subject pl at. db_keeps P (InsertOutboxEvent oid subject pl at)"
begin

lemma repo_keeps:
  "n_version n = 1 \<Longrightarrow> by_owner (n_ownerID n) \<Longrightarrow> preserves (on_db P) (NoteRepository_Create E n)"
  "preserves (on_db P) (NoteRepository_Get E own nid)"
  "by_owner (n_ownerID n) \<Longrightarrow> preserves (on_db P) (NoteRepository_Update E n)"
  "preserves (on_db P) (NoteRepository_List E own lim offset)"
  "preserves (on_db P) (ExampleOutbox_Publish E events)"
  unfolding example_repo by (rule preserves_uuid | intro pres sql | simp)+

lemma create_keeps: "by_owner own \<Longrightarrow> preserves (on_db P) (CreateNote_Execute E own title body)"
  unfolding CreateNote_Execute_def
  by (rule preserves_andThen, (intro pres)[1], rule preserves_andThen, (intro pres)[1], rule preserves_andThen, (intro pres)[1],
      rule preserves_andThen, (intro pres)[1], rule preserves_result [OF preserves_liftE NewNote_result], assumption)
    (intro pres repo_keeps; simp)

lemma update_keeps: "by_owner own \<Longrightarrow> preserves (on_db P) (UpdateNote_Execute E own nid title body v)"
  unfolding UpdateNote_Execute_def
  by (rule preserves_andThen, (intro pres)[1], rule preserves_andThen, (intro pres)[1], rule preserves_tx,
      rule preserves_result [OF repo_keeps(2) Get_owner], assumption)
    (intro pres repo_keeps; simp add: Note_Update_def)

lemma use_cases_keep:
  "by_owner own \<Longrightarrow> preserves (on_db P) (CreateNote_Execute E own title body)"
  "preserves (on_db P) (GetNote_Execute E own nid)"
  "by_owner own \<Longrightarrow> preserves (on_db P) (UpdateNote_Execute E own nid title body v)"
  "preserves (on_db P) (ListNotes_Execute E own lim offset)"
  by (rule create_keeps, assumption) (unfold GetNote_Execute_def ListNotes_Execute_def, (intro pres repo_keeps update_keeps | assumption)+)

lemma handler_keeps:
  assumes "\<And>p. ctx = Some p \<Longrightarrow> by_owner (p_UserID p)"
  shows "preserves (on_db P) (notes_handle E acc ctx req)"
proof (cases ctx)
  case None
  then show ?thesis
    by (cases req) (simp_all add: notes_handlers requirePrincipal_def apperror_New_def preserves_def)
next
  case (Some p)
  have "andThen (liftE (requirePrincipal ctx)) k = k p" for k :: "principal \<Rightarrow> (world, gerr, notes_response) act"
    by (simp add: Some requirePrincipal_def fun_eq_iff)
  with assms [OF Some] show ?thesis
    by (cases req) (auto simp: notes_handlers intro!: pres use_cases_keep)
qed

lemma history_keeps:
  assumes "\<forall>(ctx, req) \<in> set reqs. \<forall>p. ctx = Some p \<longrightarrow> by_owner (p_UserID p)"
  shows "P (w_db w) \<Longrightarrow> P (w_db (notes_serve E acc reqs w))"
  using assms
proof (induction reqs arbitrary: w)
  case (Cons r reqs)
  obtain ctx req where r: "r = (ctx, req)" by (cases r)
  with Cons.prems(2) have "preserves (on_db P) (notes_handle E acc ctx req)" by (intro handler_keeps) auto
  from preservesD [OF this, of w] Cons r show ?case by (simp add: notes_serve_def on_db_def)
qed (simp add: notes_serve_def)

end

end
