(* ===== verification/NotesFacts.thy ===== *)
theory NotesFacts
  imports Notes IdentityAccess "HOL-Library.Multiset"
begin

text \<open>
  What the notes promise: no lost update, for notes and for users alike (the locale of a
  versioned table), isolation of owners, and listings whose pages tile the whole list.
\<close>

section \<open>Versioned tables\<close>

text \<open>
  The contract of a version-guarded UPDATE: the rows of the key at the expected version change,
  their version rises by one, the count of changed rows is returned.
\<close>

locale versioned =
  fixes rows :: "db \<Rightarrow> 'r list" and key :: "'r \<Rightarrow> 'k" and ver :: "'r \<Rightarrow> int"
    and upd :: "'k \<Rightarrow> 'p \<Rightarrow> int \<Rightarrow> db \<Rightarrow> (gerr + nat) \<times> db" and set_row :: "'p \<Rightarrow> 'r \<Rightarrow> 'r"
  assumes affected: "fst (upd k p v d) = Inr (count_rows (\<lambda>r. key r = k \<and> ver r = v) (rows d))"
    and updated: "rows (snd (upd k p v d)) = update_rows (\<lambda>r. key r = k \<and> ver r = v) (set_row p) (rows d)"
    and keeps_key: "key (set_row p r) = key r"
    and bumps: "ver (set_row p r) = ver r + 1"
begin

text \<open>Every row of the key is past version \<open>v\<close>.\<close>

definition past :: "'k \<Rightarrow> int \<Rightarrow> db \<Rightarrow> bool" where
  "past k v d \<longleftrightarrow> (\<forall>r \<in> set (rows d). key r = k \<longrightarrow> v < ver r)"

lemma loser: "past k v d \<Longrightarrow> fst (upd k p v d) = Inr 0"
  by (auto simp: past_def affected count_rows_def filter_empty_conv)

lemma past_kept: "past k v d \<Longrightarrow> past k v (snd (upd k' p v' d))"
  by (fastforce simp: past_def updated ball_update_rows keeps_key bumps)

lemma winner:
  assumes "distinct (map key (rows d))" and "fst (upd k p v d) = Inr n" and "0 < n"
  shows "past k v (snd (upd k p v d))"
proof -
  from assms(2,3) obtain r where r: "r \<in> set (rows d)" "key r = k" "ver r = v"
    by (auto simp: affected count_rows_def filter_empty_conv)
  then have "x = r" if "x \<in> set (rows d)" "key x = k" for x
    using that assms(1) by (auto dest: distinct_map_eq)
  then show ?thesis
    using r(3) by (auto simp: past_def updated ball_update_rows keeps_key bumps)
qed

end

interpretation note_rows: versioned d_notes "\<lambda>r. (nr_id r, nr_owner_id r)" nr_version
  "\<lambda>(nid, own) (title, body, at) v. UpdateNote nid own title body at v"
  "\<lambda>(title, body, at) r. r\<lparr>nr_title := title, nr_body := body, nr_version := nr_version r + 1, nr_updated_at := at\<rparr>"
  by unfold_locales (auto simp: UpdateNote_def Let_def split: prod.splits)

interpretation user_rows: versioned d_users ur_id ur_version
  "\<lambda>uid (hash, name, role, status, at) v. UpdateUser uid hash name role status at v"
  "\<lambda>(hash, name, role, status, at) r. r\<lparr>ur_password_hash := hash, ur_full_name := name, ur_role := role, ur_status := status,
     ur_version := ur_version r + 1, ur_updated_at := at\<rparr>"
  by unfold_locales (auto simp: UpdateUser_def Let_def split: prod.splits)

section \<open>The schema of the module\<close>

definition notes_ok :: "db \<Rightarrow> bool" where
  "notes_ok d \<longleftrightarrow> distinct (map nr_id (d_notes d)) \<and> (\<forall>r \<in> set (d_notes d). length (nr_id r) = 16)"

lemma notes_ok_keys: "notes_ok d \<Longrightarrow> distinct (map (\<lambda>r. (nr_id r, nr_owner_id r)) (d_notes d))"
  by (auto simp: notes_ok_def distinct_map inj_on_def)

lemma notes_ok_statements:
  "length (nr_id r) = 16 \<Longrightarrow> db_keeps notes_ok (CreateNote r)"
  "db_keeps notes_ok (UpdateNote nid own title body at v)"
  "db_keeps notes_ok (InsertOutboxEvent oid subject pl at)"
  by (auto simp: db_keeps_def example_sql notes_ok_def Let_def map_update_rows ball_update_rows split: if_splits)

interpretation notes_schema: notes_fact notes_ok "\<lambda>_. True"
  by unfold_locales (simp_all add: notes_ok_statements)

text \<open>The note exists and is past version \<open>v\<close>.\<close>

definition note_past :: "uuid \<Rightarrow> int \<Rightarrow> db \<Rightarrow> bool" where
  "note_past nid v d \<longleftrightarrow> nid \<in> nr_id ` set (d_notes d) \<and> (\<forall>r \<in> set (d_notes d). nr_id r = nid \<longrightarrow> v < nr_version r)"

interpretation advanced: notes_fact "note_past nid v" "\<lambda>_. True" for nid v
  by unfold_locales
    (auto simp: db_keeps_def example_sql note_past_def Let_def image_update_rows ball_update_rows split: if_splits)

section \<open>Optimistic locking\<close>

lemma Note_Update_Inr:
  assumes "NoteRepository_Update E n w = (Inr n', w')"
  obtains nid k d where "uuidFromString E (n_id n) = Inr nid"
    and "UpdateNote nid (n_ownerID n) (n_title n) (n_body n) (n_updatedAt n) (n_version n) (w_db w) = (Inr k, d)" and "0 < k"
    and "n' = Note_BumpVersion n" and "w' = w\<lparr>w_step := Suc (w_step w), w_db := d\<rparr>"
  using assms unfolding NoteRepository_Update_def
  by (fastforce elim!: andThen_InrE wrapE_InrE query_Inr split: if_splits)

lemma Note_Get_tx_Inr:
  assumes "NoteRepository_Get E own nid w = (Inr n, w')" and "w_tx w \<noteq> NoTx"
  obtains pgID row where "uuidFromString E nid = Inr pgID" and "GetNote pgID own (w_db w) = Some row"
    and "noteFromRow row = Inr n" and "w' = w\<lparr>w_step := Suc (w_step w)\<rparr>"
  using assms unfolding NoteRepository_Get_def
  by (elim andThen_InrE orNotFound_InrE)
    (auto simp: read_rows_def dest!: select_rows_Inr one_row_Inr intro: that [OF _ sym])

lemma noteFromRow_Inr:
  "noteFromRow row = Inr n \<Longrightarrow> n_id n = uuidToString (nr_id row) \<and> n_ownerID n = nr_owner_id row \<and>
     n_version n = nr_version row \<and> n_createdAt n = nr_created_at row \<and> n_body n = nr_body row \<and> n_events n = []"
  by (auto simp: noteFromRow_def NoteFromState_def NewNoteID_def split: sum.splits if_splits)

lemma Note_publish_Inr:
  assumes "example_publish_one E ev w = (Inr (), w')"
  obtains ob where "w_db w' = (w_db w)\<lparr>d_example_outbox := d_example_outbox (w_db w) @ [ob]\<rparr>"
    and "ob_subject ob = note_Subject ev" and "\<exists>env. ob_payload ob = Envelope env \<and> en_data env = NoteData ev"
    and "ob_published_at ob = None"
proof -
  from assms obtain x w1 oid t1 t2 d where 1: "UUIDGenerator_NewID E w = (Inr x, w1)"
    and 2: "InsertOutboxEvent oid (note_Subject ev)
       (Envelope \<lparr>en_event = note_Subject ev, en_occurred_at = t1, en_traceparent = e_trace E, en_data = NoteData ev\<rparr>) t2 (w_db w1) = (Inr (), d)"
    and 3: "w_db w' = d"
    unfolding example_publish_one_def by (auto elim!: andThen_InrE wrapE_InrE query_Inr)
  from 1 have "w_db w1 = w_db w" by (auto dest: NewID_Inr)
  with 2 3 show thesis
    by (intro that [of "\<lparr>ob_id = oid, ob_subject = note_Subject ev, ob_payload =
        Envelope \<lparr>en_event = note_Subject ev, en_occurred_at = t1, en_traceparent = e_trace E, en_data = NoteData ev\<rparr>,
        ob_occurred_at = t2, ob_published_at = None\<rparr>"]) (auto simp: InsertOutboxEvent_def split: if_splits)
qed

lemma ExampleOutbox_single: "ExampleOutbox_Publish E [ev] = example_publish_one E ev"
  by (simp add: ExampleOutbox_Publish_def fun_eq_iff andThen_def split: prod.splits sum.splits)

text \<open>Outside a use case no transaction is open.\<close>

lemma idle_calls:
  "preserves tx_idle (WithinTransaction E m)" "preserves tx_idle (query E f)" "preserves tx_idle (clock_Now E)"
  "preserves tx_idle (rand_Read E k)" "preserves tx_idle Pools_Read"
  by (auto simp: preserves_def tx_idle_def WithinTransaction_def query_def abort_def Let_def Pools_Read_def
      split: option.splits prod.splits sum.splits commit_outcome.splits nat.splits)

lemma idle_reads: "preserves tx_idle (select_rows E f)" "preserves tx_idle (pool_rows E p f)" "preserves tx_idle (read_rows E f)"
  "preserves tx_idle (UUIDGenerator_NewID E)"
proof -
  show s: "preserves tx_idle (select_rows E f)" for f :: "db \<Rightarrow> 'a" unfolding select_rows_def by (rule idle_calls)
  show p: "preserves tx_idle (pool_rows E p f)" for p
    using s by (auto simp: pool_rows_def preserves_def split: option.splits)
  have "preserves tx_idle (andThen Pools_Read (\<lambda>p. pool_rows E p f))" by (intro pres idle_calls p)
  then show "preserves tx_idle (read_rows E f)" using s by (auto simp: read_rows_def preserves_def tx_idle_def)
  show "preserves tx_idle (UUIDGenerator_NewID E)" unfolding UUIDGenerator_NewID_def by (intro pres idle_calls)
qed

lemma idle_update: "preserves tx_idle (UpdateNote_Execute E own nid title body v)"
  unfolding UpdateNote_Execute_def by (intro pres idle_calls)

lemma idle_history: "tx_idle w \<Longrightarrow> tx_idle (notes_serve E acc reqs w)"
proof (induction reqs arbitrary: w)
  case (Cons r reqs)
  have "preserves tx_idle (notes_handle E acc ctx req)" for ctx req
    by (cases req)
      (simp_all add: notes_handlers example_app NoteRepository_Get_def NoteRepository_List_def,
        (intro pres idle_calls idle_reads idle_update preserves_one_row)+)
  with Cons show ?case by (cases r) (auto simp: notes_serve_def dest: preservesD)
qed (simp add: notes_serve_def)

definition update_note_body :: "env \<Rightarrow> string \<Rightarrow> string \<Rightarrow> string \<Rightarrow> string \<Rightarrow> int \<Rightarrow> (world, gerr, Note) act" where
  "update_note_body E own nid title body v =
     andThen (NoteRepository_Get E own nid) (\<lambda>note.
       if n_version note \<noteq> v then fail ErrNoteConcurrentUpdate
       else andThen (clock_Now E) (\<lambda>now.
         andThen (NoteRepository_Update E (Note_Update title body now note)) (\<lambda>note'.
         case Note_PullEvents note' of (events, note'') \<Rightarrow>
           andThen (ExampleOutbox_Publish E events) (\<lambda>_. ret note''))))"

text \<open>What a successful update did: the note of the caller, at the expected version, moved past it.\<close>

definition note_updated :: "uuid \<Rightarrow> string \<Rightarrow> string \<Rightarrow> int \<Rightarrow> db \<Rightarrow> Note \<Rightarrow> db \<Rightarrow> bool" where
  "note_updated nid own body v d n d' \<longleftrightarrow>
     (\<exists>row \<in> set (d_notes d). nr_id row = nid \<and> nr_owner_id row = own \<and> nr_version row = v) \<and> note_past nid v d' \<and>
     n_version n = v + 1 \<and> n_body n = body \<and>
     (\<exists>ob env at. d_example_outbox d' = d_example_outbox d @ [ob] \<and> ob_payload ob = Envelope env \<and>
        en_data env = NoteData (NoteUpdated (uuidToString nid) (n_title n) body (v + 1) at))"

lemma update_note_body:
  assumes "notes_ok (w_db w)" and "scan_reads_text E" and "w_tx w \<noteq> NoTx" and "update_note_body E own nid title body v w = (Inr n, w')"
  shows "\<exists>pgID. uuidFromString E nid = Inr pgID \<and> note_updated pgID own body v (w_db w) n (w_db w')"
proof -
  from assms(4) obtain old w1 now n1 w2 where get: "NoteRepository_Get E own nid w = (Inr old, w1)" and v: "n_version old = v"
    and up: "NoteRepository_Update E (Note_Update title body now old) (w1\<lparr>w_step := Suc (w_step w1)\<rparr>) = (Inr n1, w2)"
    and pb: "ExampleOutbox_Publish E (n_events n1) w2 = (Inr (), w')" and n: "n = n1\<lparr>n_events := []\<rparr>"
    unfolding update_note_body_def by (auto elim!: andThen_InrE simp: Note_PullEvents_def split: if_splits)
  from get assms(3) obtain pgID row where pg: "uuidFromString E nid = Inr pgID" and row: "GetNote pgID own (w_db w) = Some row"
    "noteFromRow row = Inr old" and w1: "w_db w1 = w_db w"
    by (auto elim!: Note_Get_tx_Inr)
  note st = noteFromRow_Inr [OF row(2)]
  from row(1) have mem: "row \<in> set (d_notes (w_db w))" "nr_id row = pgID" "nr_owner_id row = own"
    by (auto simp: GetNote_def dest!: find_Some_set)
  then have len: "length pgID = 16" using assms(1) by (auto simp: notes_ok_def)
  from up obtain k d where k: "UpdateNote pgID own title body now v (w_db w) = (Inr k, d)" "0 < k" and w2: "w_db w2 = d"
    and n1: "n1 = Note_BumpVersion (Note_Update title body now old)"
    using st mem len v w1 by (auto elim!: Note_Update_Inr simp: Note_Update_def dest!: scan_own_id [OF assms(2)])
  have past: "note_past pgID v d"
  proof -
    have "note_rows.past (pgID, own) v d"
      using note_rows.winner [OF notes_ok_keys [OF assms(1)], of "(pgID, own)" "(title, body, now)" v k] k by simp
    moreover have "nr_owner_id r = own" if "r \<in> set (d_notes d)" "nr_id r = pgID" for r
    proof -
      have "x = row" if "x \<in> set (d_notes (w_db w))" "nr_id x = pgID" for x
        using that mem assms(1) by (auto simp: notes_ok_def dest: distinct_map_eq)
      moreover have "\<exists>p. d_notes d = update_rows p (\<lambda>r. r\<lparr>nr_title := title, nr_body := body,
          nr_version := nr_version r + 1, nr_updated_at := now\<rparr>) (d_notes (w_db w))"
        using k(1) by (auto simp: UpdateNote_def Let_def)
      ultimately have "\<forall>r \<in> set (d_notes d). nr_id r = pgID \<longrightarrow> nr_owner_id r = own"
        using mem(3) by (elim exE) (simp add: ball_update_rows, metis)
      then show ?thesis using that by blast
    qed
    moreover have "pgID \<in> nr_id ` set (d_notes d)"
      using k(1) mem(1,2) by (auto simp: UpdateNote_def Let_def image_update_rows)
    ultimately show ?thesis by (auto simp: note_past_def note_rows.past_def)
  qed
  have "n_events n1 = [NoteUpdated (uuidToString pgID) title body (v + 1) now]" "n_title n = title" "n_version n = v + 1" "n_body n = body"
    using st v mem(2) by (simp_all add: n n1 Note_BumpVersion_def Note_Update_def)
  with pb obtain ob env where "w_db w' = d\<lparr>d_example_outbox := d_example_outbox d @ [ob]\<rparr>" "ob_payload ob = Envelope env"
    "en_data env = NoteData (NoteUpdated (uuidToString pgID) (n_title n) body (v + 1) now)"
    by (auto simp: ExampleOutbox_single w2 elim!: Note_publish_Inr)
  moreover have "d_example_outbox d = d_example_outbox (w_db w)" using k(1) by (auto simp: UpdateNote_def Let_def)
  ultimately have "note_updated pgID own body v (w_db w) n (w_db w')"
    using past mem st v \<open>n_version n = v + 1\<close> \<open>n_body n = body\<close> unfolding note_updated_def
    by (auto simp: note_past_def)
  with pg show ?thesis by blast
qed

lemma UpdateNote_Inr:
  assumes "notes_ok (w_db w)" and "scan_reads_text E" and "w_tx w = NoTx" and "UpdateNote_Execute E own nid title body v w = (Inr n, w')"
  shows "\<exists>pgID. uuidFromString E nid = Inr pgID \<and> note_updated pgID own body v (w_db w) n (w_db w')"
proof -
  from assms(4) obtain t where "WithinTransaction E (update_note_body E own nid t body v) w = (Inr n, w')"
    unfolding UpdateNote_Execute_def update_note_body_def
    by (auto elim!: andThen_InrE simp: NewNoteID_def split: if_splits)
  then obtain v' where "update_note_body E own nid t body v (tx_enter w) = (Inr n, v')" and db: "w_db w' = w_db v'"
    using assms(3) tx.commit by (fastforce simp: tx_idle_def)
  from update_note_body [OF _ assms(2) _ this(1)] assms(1) show ?thesis
    by (simp add: tx_enter_def db)
qed

text \<open>
  C9. No update of a note is lost. A successful update found the caller's note at exactly the
  expected version and left it past that version, with its event in the outbox; and after any
  history of requests of any callers, no second update with the same expected version ever
  succeeds, so two writers who read the same version never both win.
\<close>

theorem no_lost_note_update:
  assumes "notes_ok (w_db w)" and "scan_reads_text E" and "w_tx w = NoTx"
    and "UpdateNote_Execute E own nid title body v w = (Inr n, w')"
  shows "\<exists>pgID. uuidFromString E nid = Inr pgID \<and> note_updated pgID own body v (w_db w) n (w_db w') \<and>
    (\<forall>acc reqs own' title' body' n'.
       fst (UpdateNote_Execute E own' nid title' body' v (notes_serve E acc reqs w')) \<noteq> Inr n')"
proof -
  from UpdateNote_Inr [OF assms] obtain pgID where pg: "uuidFromString E nid = Inr pgID"
    and up: "note_updated pgID own body v (w_db w) n (w_db w')" by blast
  have ok: "notes_ok (w_db w')"
    using preservesD [OF notes_schema.update_keeps [where own = own and E = E and nid = nid and title = title and body = body and v = v], of w] assms(1,4) by (simp add: on_db_def)
  have "fst (UpdateNote_Execute E own' nid title' body' v x) \<noteq> Inr n'"
    if x: "x = notes_serve E acc reqs w'" for acc reqs own' title' body' n' x
  proof
    assume "fst (UpdateNote_Execute E own' nid title' body' v x) = Inr n'"
    then obtain x' where run: "UpdateNote_Execute E own' nid title' body' v x = (Inr n', x')" by (metis prod.collapse)
    have tx: "w_tx x = NoTx"
      using idle_history [of w'] preservesD [OF idle_update, of w E own nid title body v] assms(3,4)
      by (simp add: x tx_idle_def)
    have "notes_ok (w_db x)" unfolding x by (rule notes_schema.history_keeps) (use ok in auto)
    from UpdateNote_Inr [OF this assms(2) tx run] pg obtain row where
      "row \<in> set (d_notes (w_db x))" "nr_id row = pgID" "nr_version row = v"
      by (auto simp: note_updated_def)
    moreover have "note_past pgID v (w_db x)"
      unfolding x by (rule advanced.history_keeps) (use up in \<open>auto simp: note_updated_def\<close>)
    ultimately show False by (auto simp: note_past_def)
  qed
  with pg up show ?thesis by blast
qed

section \<open>Owners\<close>

text \<open>The rows of the other owners are these.\<close>

definition others_are :: "string \<Rightarrow> note_row list \<Rightarrow> db \<Rightarrow> bool" where
  "others_are own rs d \<longleftrightarrow> filter (\<lambda>r. nr_owner_id r \<noteq> own) (d_notes d) = rs"

lemma filter_update_rows:
  "(\<And>r. p r \<Longrightarrow> \<not> q r \<and> \<not> q (f r)) \<Longrightarrow> filter q (update_rows p f xs) = filter q xs"
  by (induction xs) (auto simp: update_rows_def)

interpretation others: notes_fact "others_are own rs" "\<lambda>x. x = own" for own rs
proof unfold_locales
  fix nid x title body updated version
  assume "x = own"
  then have "filter (\<lambda>r. nr_owner_id r \<noteq> own) (update_rows (\<lambda>r. nr_id r = nid \<and> nr_owner_id r = x \<and> nr_version r = version)
      (\<lambda>r. r\<lparr>nr_title := title, nr_body := body, nr_version := nr_version r + 1, nr_updated_at := updated\<rparr>) xs) =
    filter (\<lambda>r. nr_owner_id r \<noteq> own) xs" for xs
    by (intro filter_update_rows) auto
  note kept = this
  show "db_keeps (others_are own rs) (UpdateNote nid x title body updated version)"
    by (simp add: db_keeps_def UpdateNote_def others_are_def Let_def kept)
qed (auto simp: db_keeps_def example_sql others_are_def split: if_splits)

text \<open>
  A caller reaches only the caller's own notes. Whatever request a caller makes, with
  whatever ids, and whatever the access policies say, the notes of every other owner are the
  same rows in the same order after it, also when the request or its transaction failed.
\<close>

theorem other_owners_untouched:
  "filter (\<lambda>n. nr_owner_id n \<noteq> p_UserID p) (d_notes (w_db (snd (notes_handle E acc (Some p) req w)))) =
   filter (\<lambda>n. nr_owner_id n \<noteq> p_UserID p) (d_notes (w_db w))"
  using preservesD [OF others.handler_keeps, of "Some p" "p_UserID p" "filter (\<lambda>n. nr_owner_id n \<noteq> p_UserID p) (d_notes (w_db w))" w E acc req]
  by (simp add: others_are_def on_db_def)

section \<open>Listing\<close>

lemma page_limit_range: "0 < page_limit lim \<and> page_limit lim \<le> 100"
  by (simp add: page_limit_def)

text \<open>The pages of size \<open>k\<close> at offsets 0, \<open>k\<close>, 2\<open>k\<close>, ... up to page \<open>n\<close>.\<close>

definition pages :: "string \<Rightarrow> int \<Rightarrow> nat \<Rightarrow> db \<Rightarrow> note_row list" where
  "pages own lim n d = concat (map (\<lambda>i. ListNotes own (page_limit lim) (page_offset (int i * page_limit lim)) d) [0..<n])"

lemma pages_take:
  "pages own lim n d = take (n * nat (page_limit lim)) (sort_key (\<lambda>r. - nr_created_at r) (filter (\<lambda>r. nr_owner_id r = own) (d_notes d)))"
proof (induction n)
  case (Suc n)
  let ?L = "sort_key (\<lambda>r. - nr_created_at r) (filter (\<lambda>r. nr_owner_id r = own) (d_notes d))"
  have "nat (page_offset (int n * page_limit lim)) = n * nat (page_limit lim)"
    using page_limit_range [of lim] by (simp add: page_offset_def nat_mult_distrib mult_less_0_iff)
  then have "ListNotes own (page_limit lim) (page_offset (int n * page_limit lim)) d =
      take (nat (page_limit lim)) (drop (n * nat (page_limit lim)) ?L)"
    by (simp add: ListNotes_def)
  moreover have "Suc n * nat (page_limit lim) = n * nat (page_limit lim) + nat (page_limit lim)" by simp
  ultimately show ?case using Suc by (simp only: take_add) (simp add: pages_def)
qed (simp add: pages_def)

text \<open>
  Pages tile the list. Whatever limit a client sends, the page holds between one and a
  hundred notes, and walking the offsets by that page size over one state of the replica
  yields every note of the caller exactly once, newest first, however many pages it takes.
\<close>

theorem pages_tile_the_list:
  assumes "length (filter (\<lambda>r. nr_owner_id r = own) (d_notes d)) \<le> n * nat (page_limit lim)"
  shows "pages own lim n d = sort_key (\<lambda>r. - nr_created_at r) (filter (\<lambda>r. nr_owner_id r = own) (d_notes d)) \<and>
    sorted (map (\<lambda>r. - nr_created_at r) (pages own lim n d)) \<and>
    mset (pages own lim n d) = mset (filter (\<lambda>r. nr_owner_id r = own) (d_notes d)) \<and> page_limit lim \<in> {1..100}"
  using assms page_limit_range [of lim] by (simp add: pages_take mset_sort)

section \<open>Witnesses\<close>

definition ann_note :: note_row where
  "ann_note = \<lparr>nr_id = demo_id 5, nr_owner_id = ''ann'', nr_title = ''t'', nr_body = ''old'', nr_version = 3,
     nr_created_at = 0, nr_updated_at = 0\<rparr>"

definition note_db :: db where
  "note_db = empty_db\<lparr>d_notes := [ann_note]\<rparr>"

lemma title_t: "NewTitle ''t'' = Inr ''t''"
proof -
  have "trim_space ''t'' = ''t''"
    by (simp add: trim_space_def trim_left_stop trim_right_stop decode_rune.simps(2) decode_last_rune_def
        byte_of_def is_space_def Let_def)
  moreover have "rune_count ''t'' = 1" by code_simp
  ultimately show ?thesis by (simp add: NewTitle_def maxTitleLen_def)
qed

lemma pages_tile_the_list_witness:
  "length (pages ''ann'' 1 1 note_db) = 1 \<and> pages ''ann'' 1 1 note_db =
     sort_key (\<lambda>r. - nr_created_at r) (filter (\<lambda>r. nr_owner_id r = ''ann'') (d_notes note_db))"
proof -
  have l: "length (filter (\<lambda>r. nr_owner_id r = ''ann'') (d_notes note_db)) \<le> 1 * nat (page_limit 1)"
    by (simp add: note_db_def ann_note_def page_limit_def)
  from pages_tile_the_list [OF l] have p: "pages ''ann'' 1 1 note_db =
     sort_key (\<lambda>r. - nr_created_at r) (filter (\<lambda>r. nr_owner_id r = ''ann'') (d_notes note_db))" by blast
  moreover have "length \<dots> = 1" by (simp add: note_db_def ann_note_def)
  ultimately show ?thesis by metis
qed

lemma demo_update_note:
  "\<exists>n w'. UpdateNote_Execute demo_env ''ann'' (uuid_text (demo_id 5)) ''t'' ''new'' 3 (demo_world note_db) = (Inr n, w')"
proof -
  note E = demo_faultless demo_reads_text
  let ?w = "demo_world note_db" and ?id = "uuid_text (demo_id 5)"
  let ?note = "NoteFromState ?id ''ann'' ''t'' ''old'' 3 0 0"
  let ?new = "Note_Update ''t'' ''new'' (e_now demo_env 2) ?note"
  have len: "length (demo_id 5) = 16" by (simp add: demo_id_def)
  have id: "NewNoteID ?id = Inr ?id" by (simp add: NewNoteID_def uuid_shape_text len)
  have row: "noteFromRow ann_note = Inr ?note"
    by (simp add: noteFromRow_def ann_note_def uuidToString_text id title_t)
  have get: "NoteRepository_Get demo_env ''ann'' ?id (tx_enter ?w) = (Inr ?note, (tx_enter ?w)\<lparr>w_step := 2\<rparr>)"
    using row by (simp add: NoteRepository_Get_def scan_text [OF E(2) len] read_rows_def tx_enter_def select_rows_def
        query_faultless [OF E(1)] one_row_def demo_world_def note_db_def GetNote_def ann_note_def numeral_2_eq_2 id)
  obtain d where up: "NoteRepository_Update demo_env ?new ((tx_enter ?w)\<lparr>w_step := 3\<rparr>) =
      (Inr (Note_BumpVersion ?new), (tx_enter ?w)\<lparr>w_step := 4, w_db := d\<rparr>)" and d: "d_example_outbox d = []"
    by (simp add: NoteRepository_Update_def Note_Update_def NoteFromState_def scan_text [OF E(2) len] query_faultless [OF E(1)]
        UpdateNote_def Let_def tx_enter_def demo_world_def note_db_def ann_note_def count_rows_def empty_db_def)
  obtain d' where pb: "example_publish_one demo_env (NoteUpdated ?id ''t'' ''new'' 4 (e_now demo_env 2)) ((tx_enter ?w)\<lparr>w_step := 4, w_db := d\<rparr>) =
      (Inr (), (tx_enter ?w)\<lparr>w_step := 9, w_db := d'\<rparr>)"
    using d scan_text [OF E(2) length_drawn_id]
    by (simp add: example_publish_one_def NewID_drawn [OF E(1)] query_faultless [OF E(1)] InsertOutboxEvent_def tx_enter_def)
  have "\<exists>n. update_note_body demo_env ''ann'' ?id ''t'' ''new'' 3 (tx_enter ?w) = (Inr n, (tx_enter ?w)\<lparr>w_step := 9, w_db := d'\<rparr>)"
    using get up pb
    by (simp add: update_note_body_def NoteFromState_def Note_Update_def Note_BumpVersion_def Note_PullEvents_def
        ExampleOutbox_single numeral_2_eq_2 numeral_3_eq_3)
  then obtain n where "update_note_body demo_env ''ann'' ?id ''t'' ''new'' 3 (tx_enter ?w) = (Inr n, (tx_enter ?w)\<lparr>w_step := 9, w_db := d'\<rparr>)" by blast
  from Transaction_ok [where m = "update_note_body demo_env ''ann'' ?id ''t'' ''new'' 3", OF E(1) _ this]
  have "\<exists>w'. WithinTransaction demo_env (update_note_body demo_env ''ann'' ?id ''t'' ''new'' 3) ?w = (Inr n, w')"
    by (auto simp: demo_world_def)
  then show ?thesis by (auto simp: UpdateNote_Execute_def id title_t update_note_body_def)
qed

lemma no_lost_note_update_witness:
  "\<exists>n w'. UpdateNote_Execute demo_env ''ann'' (uuid_text (demo_id 5)) ''t'' ''new'' 3 (demo_world note_db) = (Inr n, w') \<and>
     (\<forall>acc reqs n'. fst (UpdateNote_Execute demo_env ''ann'' (uuid_text (demo_id 5)) ''t'' ''other'' 3 (notes_serve demo_env acc reqs w')) \<noteq> Inr n')"
proof -
  obtain n w' where run: "UpdateNote_Execute demo_env ''ann'' (uuid_text (demo_id 5)) ''t'' ''new'' 3 (demo_world note_db) = (Inr n, w')"
    using demo_update_note by blast
  have "notes_ok (w_db (demo_world note_db))" "w_tx (demo_world note_db) = NoTx"
    by (simp_all add: demo_world_def note_db_def notes_ok_def ann_note_def demo_id_def)
  from no_lost_note_update [OF this(1) demo_reads_text this(2) run] run show ?thesis by blast
qed

end
