(* ===== verification/Outbox.thy ===== *)
theory Outbox
  imports NotesFacts
begin

text \<open>
  The transactional outbox: the relays of both modules claim unpublished rows in order, publish
  each to the bus and mark it, in one transaction that the bus is not part of. The contract of
  an outbox table is a locale; the relay's properties are proved in it once and read off for
  the identity and the example module. Two relays never hold the same rows (\<^verbatim>\<open>FOR UPDATE SKIP
  LOCKED\<close>), so a batch is one step on the rows it claimed.
\<close>

section \<open>Statements and the relay\<close>

definition unpublished :: "outbox_row list \<Rightarrow> outbox_row list" where
  "unpublished rs = sort_key ob_occurred_at (filter (\<lambda>r. ob_published_at r = None) rs)"

definition ClaimUnpublishedIdentityOutboxEvents :: "nat \<Rightarrow> db \<Rightarrow> outbox_row list" where
  "ClaimUnpublishedIdentityOutboxEvents lim d = take lim (unpublished (d_identity_outbox d))"

definition MarkIdentityOutboxEventPublished :: "uuid \<Rightarrow> int \<Rightarrow> db \<Rightarrow> (gerr + unit) \<times> db" where
  "MarkIdentityOutboxEventPublished oid at d =
     (Inr (), d\<lparr>d_identity_outbox := update_rows (\<lambda>r. ob_id r = oid) (\<lambda>r. r\<lparr>ob_published_at := Some at\<rparr>) (d_identity_outbox d)\<rparr>)"

definition ClaimUnpublishedOutboxEvents :: "nat \<Rightarrow> db \<Rightarrow> outbox_row list" where
  "ClaimUnpublishedOutboxEvents lim d = take lim (unpublished (d_example_outbox d))"

definition MarkOutboxEventPublished :: "uuid \<Rightarrow> int \<Rightarrow> db \<Rightarrow> (gerr + unit) \<times> db" where
  "MarkOutboxEventPublished oid at d =
     (Inr (), d\<lparr>d_example_outbox := update_rows (\<lambda>r. ob_id r = oid) (\<lambda>r. r\<lparr>ob_published_at := Some at\<rparr>) (d_example_outbox d)\<rparr>)"

text \<open>
  \<open>JetStream.Publish\<close>: acknowledged, refused, or stored with the acknowledgement lost.
\<close>

definition bus_Publish :: "env \<Rightarrow> string \<Rightarrow> payload \<Rightarrow> (world, gerr, unit) act" where
  "bus_Publish E subject pl w =
     (let n = w_step w; w1 = w\<lparr>w_step := Suc n\<rparr>; w2 = w1\<lparr>w_bus := w_bus w @ [(subject, pl)]\<rparr> in
      case e_bus E n of
        Acked \<Rightarrow> (Inr (), w2)
      | PublishFailed t stored \<Rightarrow> (Inl (External t), if stored then w2 else w1))"

definition relayBatchSize :: nat where "relayBatchSize = 100"

definition relay_one :: "(uuid \<Rightarrow> int \<Rightarrow> db \<Rightarrow> (gerr + unit) \<times> db) \<Rightarrow> env \<Rightarrow> outbox_row \<Rightarrow> (world, gerr, unit) act" where
  "relay_one mark E ev =
     andThen (wrapE (''publish '' @ ob_subject ev) (bus_Publish E (ob_subject ev) (ob_payload ev))) (\<lambda>_.
     andThen (clock_Now E) (\<lambda>t. wrapE ''mark published'' (query E (mark (ob_id ev) t))))"

definition relay_batch ::
  "(nat \<Rightarrow> db \<Rightarrow> outbox_row list) \<Rightarrow> (uuid \<Rightarrow> int \<Rightarrow> db \<Rightarrow> (gerr + unit) \<times> db) \<Rightarrow> env \<Rightarrow> (world, gerr, unit) act" where
  "relay_batch claim mark E =
     WithinTransaction E
       (andThen (wrapE ''claim outbox events'' (select_rows E (claim relayBatchSize))) (\<lambda>events.
          forEach events (relay_one mark E)))"

definition identity_relayBatch :: "env \<Rightarrow> (world, gerr, unit) act" where
  "identity_relayBatch = relay_batch ClaimUnpublishedIdentityOutboxEvents MarkIdentityOutboxEventPublished"

definition example_relayBatch :: "env \<Rightarrow> (world, gerr, unit) act" where
  "example_relayBatch = relay_batch ClaimUnpublishedOutboxEvents MarkOutboxEventPublished"

text \<open>\<open>Run\<close>: one batch per tick; a failed batch is logged and the next tick tries again.\<close>

definition relay_ticks :: "(world, gerr, unit) act \<Rightarrow> nat \<Rightarrow> world \<Rightarrow> world" where
  "relay_ticks batch n = ((\<lambda>w. snd (batch w)) ^^ n)"

section \<open>The contract of an outbox table\<close>

text \<open>Every row marked as published is on the bus with its subject and payload.\<close>

definition msg :: "outbox_row \<Rightarrow> string \<times> payload" where
  "msg r = (ob_subject r, ob_payload r)"

definition published_on_bus :: "outbox_row list \<Rightarrow> (string \<times> payload) list \<Rightarrow> bool" where
  "published_on_bus rs bus \<longleftrightarrow> (\<forall>r \<in> set rs. ob_published_at r \<noteq> None \<longrightarrow> msg r \<in> set bus)"

text \<open>A row without its publication mark: what the relay must never change.\<close>

definition unmarked :: "outbox_row \<Rightarrow> outbox_row" where
  "unmarked r = r\<lparr>ob_published_at := None\<rparr>"

lemma unmarked_simps [simp]: "ob_id (unmarked r) = ob_id r" "msg (unmarked r) = msg r"
  by (simp_all add: unmarked_def msg_def)

locale outbox =
  fixes rows :: "db \<Rightarrow> outbox_row list" and claim :: "nat \<Rightarrow> db \<Rightarrow> outbox_row list"
    and mark :: "uuid \<Rightarrow> int \<Rightarrow> db \<Rightarrow> (gerr + unit) \<times> db"
  assumes claimed: "claim k d = take k (unpublished (rows d))"
    and marked: "mark oid at d = (Inr (), d')
      \<Longrightarrow> rows d' = update_rows (\<lambda>r. ob_id r = oid) (\<lambda>r. r\<lparr>ob_published_at := Some at\<rparr>) (rows d)"
    and marks: "\<exists>d'. mark oid at d = (Inr (), d')"
begin

lemma mark_unmarked: "mark oid at d = (Inr (), d') \<Longrightarrow> map unmarked (rows d') = map unmarked (rows d)"
  by (auto simp: marked update_rows_def unmarked_def)

definition inv :: "world \<Rightarrow> bool" where
  "inv w \<longleftrightarrow> distinct (map ob_id (rows (w_db w))) \<and> published_on_bus (rows (w_db w)) (w_bus w)"

text \<open>The row \<open>ev\<close> is one of the table's, up to its mark.\<close>

definition known :: "outbox_row \<Rightarrow> world \<Rightarrow> bool" where
  "known ev w \<longleftrightarrow> unmarked ev \<in> unmarked ` set (rows (w_db w))"

text \<open>What a part of a batch does to the table and the bus, whether it fails or not.\<close>

definition step_ok :: "world \<Rightarrow> world \<Rightarrow> bool" where
  "step_ok w w' \<longleftrightarrow> (inv w \<longrightarrow> inv w') \<and> map unmarked (rows (w_db w')) = map unmarked (rows (w_db w)) \<and>
     (\<exists>ms. w_bus w' = w_bus w @ ms)"

lemma step_ok_refl: "w_db w' = w_db w \<Longrightarrow> w_bus w' = w_bus w \<Longrightarrow> step_ok w w'"
  by (simp add: step_ok_def inv_def)

lemma step_ok_trans: "step_ok a b \<Longrightarrow> step_ok b c \<Longrightarrow> step_ok a c"
  by (auto simp: step_ok_def)

lemma known_step: "known ev w \<Longrightarrow> step_ok w w' \<Longrightarrow> known ev w'"
  by (simp add: known_def step_ok_def) (metis image_set)

lemma publish_step: "step_ok w (snd (bus_Publish E s p w))"
  by (auto simp: step_ok_def inv_def bus_Publish_def Let_def published_on_bus_def split: publish_outcome.splits)

lemma wrap_state: "snd (wrapE p m w) = snd (m w)"
  by (simp add: wrapE_def catchE_def split: prod.splits sum.splits)

lemma query_bus: "w_bus (snd (query E f w)) = w_bus w"
  by (auto simp: query_def Let_def abort_def split: option.splits prod.splits sum.splits)

lemma mark_step:
  assumes "known ev w" and "msg ev \<in> set (w_bus w)"
  shows "step_ok w (snd (query E (mark (ob_id ev) t) w))"
proof (cases "query E (mark (ob_id ev) t) w")
  case (Pair r w')
  show ?thesis
  proof (cases r)
    case (Inl e)
    with Pair have "w_db w' = w_db w" "w_bus w' = w_bus w"
      using query_Inl_db [of E "mark (ob_id ev) t" w e w'] query_bus [of E "mark (ob_id ev) t" w] by simp_all
    with Pair show ?thesis by (simp add: step_ok_refl)
  next
    case (Inr u)
    with Pair obtain d where d: "mark (ob_id ev) t (w_db w) = (Inr (), d)" and w': "w' = w\<lparr>w_step := Suc (w_step w), w_db := d\<rparr>"
      by (auto elim!: query_Inr)
    note rows' = marked [OF d]
    have ids: "map ob_id (rows d) = map ob_id (rows (w_db w))" by (simp add: rows' update_rows_def)
    have "msg r \<in> set (w_bus w)" if "inv w" "r \<in> set (rows (w_db w))" "ob_id r = ob_id ev" for r
    proof -
      from assms(1) obtain x where x: "x \<in> set (rows (w_db w))" "unmarked ev = unmarked x" by (auto simp: known_def)
      then have "ob_id x = ob_id ev" "msg x = msg ev" by (metis unmarked_simps)+
      moreover from this have "r = x" using that x(1) by (auto simp: inv_def dest: distinct_map_eq)
      ultimately show ?thesis using assms(2) by simp
    qed
    then have "inv w \<longrightarrow> inv w'"
      by (auto simp: inv_def w' ids) (auto simp: published_on_bus_def rows' ball_update_rows msg_def)
    with Pair show ?thesis by (simp add: step_ok_def w' mark_unmarked [OF d])
  qed
qed

lemma one_step:
  assumes "known ev w"
  shows "step_ok w (snd (relay_one mark E ev w))"
proof (cases "wrapE (''publish '' @ ob_subject ev) (bus_Publish E (ob_subject ev) (ob_payload ev)) w")
  case (Pair r w1)
  have s1: "step_ok w w1" using publish_step [of w E] wrap_state Pair by (metis snd_conv)
  show ?thesis
  proof (cases r)
    case (Inl e)
    with Pair s1 show ?thesis by (simp add: relay_one_def)
  next
    case (Inr u)
    with Pair have "msg ev \<in> set (w_bus w1)"
      by (auto elim!: wrapE_InrE simp: bus_Publish_def Let_def msg_def split: publish_outcome.splits)
    then have "step_ok w1 (snd (query E (mark (ob_id ev) t) (w1\<lparr>w_step := k\<rparr>)))" for t k
      using mark_step [of ev "w1\<lparr>w_step := k\<rparr>" E t] known_step [OF assms s1] by (simp add: known_def step_ok_def inv_def)
    with s1 Pair Inr show ?thesis by (auto simp: relay_one_def wrap_state intro: step_ok_trans)
  qed
qed

lemma loop_step: "(\<And>ev. ev \<in> set evs \<Longrightarrow> known ev w) \<Longrightarrow> step_ok w (snd (forEach evs (relay_one mark E) w))"
proof (induction evs arbitrary: w)
  case (Cons ev evs)
  have s1: "step_ok w (snd (relay_one mark E ev w))" using Cons.prems by (intro one_step) simp
  show ?case
  proof (cases "relay_one mark E ev w")
    case (Pair r w1)
    then have "step_ok w1 (snd (forEach evs (relay_one mark E) w1))"
      using Cons.prems s1 by (intro Cons.IH known_step [of _ w w1]) simp_all
    with Pair s1 show ?thesis by (cases r) (auto intro: step_ok_trans)
  qed
qed (simp add: step_ok_refl)

lemma claim_known: "ev \<in> set (claim k (w_db w)) \<Longrightarrow> known ev w"
  by (auto simp: claimed known_def unpublished_def dest!: in_set_takeD)

lemma step_ok_undo:
  assumes "step_ok w v" and "w_db w' = w_db w \<or> w_db w' = w_db v" and "w_bus w' = w_bus v"
  shows "step_ok w w'"
  using assms by (auto simp: step_ok_def inv_def published_on_bus_def)

lemma within_step:
  assumes "\<And>w. step_ok w (snd (m w))"
  shows "step_ok w (snd (WithinTransaction E m w))"
proof (cases "w_tx w = NoTx \<and> e_db E (w_step w) = None")
  case False
  then show ?thesis
    using assms [of w] by (auto simp: WithinTransaction_def Let_def step_ok_refl split: option.splits)
next
  case True
  obtain r v where m: "m (tx_enter w) = (r, v)" by (cases "m (tx_enter w)")
  have "step_ok w (tx_enter w)" by (simp add: step_ok_refl tx_enter_def)
  then have s: "step_ok w v" using assms [of "tx_enter w"] m by (auto intro: step_ok_trans)
  let ?w' = "snd (WithinTransaction E m w)"
  have "(w_db ?w' = w_db w \<or> w_db ?w' = w_db v) \<and> w_bus ?w' = w_bus v"
    using True m by (cases r) (auto simp: WithinTransaction_def tx_enter_def Let_def split: commit_outcome.splits)
  with s show ?thesis by (blast intro: step_ok_undo)
qed

lemma batch_step: "step_ok w (snd (relay_batch claim mark E w))"
proof -
  let ?m = "andThen (wrapE ''claim outbox events'' (select_rows E (claim relayBatchSize))) (\<lambda>events. forEach events (relay_one mark E))"
  have body: "step_ok w (snd (?m w))" for w
  proof (cases "wrapE ''claim outbox events'' (select_rows E (claim relayBatchSize)) w")
    case (Pair r w1)
    have "w_db w1 = w_db w" "w_bus w1 = w_bus w"
      using Pair wrap_state [of "''claim outbox events''" "select_rows E (claim relayBatchSize)" w]
        select_rows_db [of E "claim relayBatchSize" w] query_bus [of E "\<lambda>d. (Inr (claim relayBatchSize d), d)" w]
      by (simp_all add: select_rows_def)
    then have s1: "step_ok w w1" by (simp add: step_ok_refl)
    show ?thesis
    proof (cases r)
      case (Inr evs)
      with Pair have "evs = claim relayBatchSize (w_db w)" by (auto elim!: wrapE_InrE dest!: select_rows_Inr)
      then have "step_ok w1 (snd (forEach evs (relay_one mark E) w1))"
        using claim_known [of _ relayBatchSize w1] \<open>w_db w1 = w_db w\<close> by (intro loop_step) auto
      with s1 Pair Inr show ?thesis by (auto intro: step_ok_trans)
    qed (use Pair s1 in simp)
  qed
  from within_step [OF body] show ?thesis by (simp add: relay_batch_def)
qed

lemma ticks_step: "step_ok w (relay_ticks (relay_batch claim mark E) n w)"
  by (induction n) (auto simp: relay_ticks_def step_ok_refl intro: step_ok_trans batch_step)

lemma filter_after_update:
  "(\<And>r. \<not> q (f r)) \<Longrightarrow> filter q (update_rows p f xs) = filter (\<lambda>r. \<not> p r \<and> q r) xs"
  by (induction xs) (auto simp: update_rows_def)

text \<open>Without faults a batch publishes what it claimed, in order, and marks exactly that.\<close>

lemma loop_ok:
  assumes "faultless E" and "\<forall>n. e_bus E n = Acked"
  shows "w_tx w = TxOpen \<Longrightarrow>
    \<exists>w'. forEach evs (relay_one mark E) w = (Inr (), w') \<and> w_tx w' = TxOpen \<and> w_bus w' = w_bus w @ map msg evs \<and>
      map ob_id (rows (w_db w')) = map ob_id (rows (w_db w)) \<and>
      filter (\<lambda>r. ob_published_at r = None) (rows (w_db w')) =
        filter (\<lambda>r. ob_published_at r = None \<and> ob_id r \<notin> ob_id ` set evs) (rows (w_db w))"
proof (induction evs arbitrary: w)
  case (Cons ev evs)
  let ?n = "w_step w"
  obtain d where d: "mark (ob_id ev) (e_now E (Suc ?n)) (w_db w) = (Inr (), d)" using marks by blast
  let ?w1 = "w\<lparr>w_bus := w_bus w @ [msg ev], w_step := Suc (Suc (Suc ?n)), w_db := d\<rparr>"
  have one: "relay_one mark E ev w = (Inr (), ?w1)"
    using assms(2) Cons.prems d
    by (simp add: relay_one_def bus_Publish_def Let_def query_faultless [OF assms(1)] msg_def)
  have "filter (\<lambda>r. ob_published_at r = None \<and> ob_id r \<notin> ob_id ` set evs) (rows d) =
      filter (\<lambda>r. ob_published_at r = None \<and> ob_id r \<noteq> ob_id ev \<and> ob_id r \<notin> ob_id ` set evs) (rows (w_db w))"
    by (simp add: marked [OF d] filter_after_update conj_ac)
  moreover have "map ob_id (rows d) = map ob_id (rows (w_db w))" by (simp add: marked [OF d] update_rows_def)
  ultimately show ?case using Cons.IH [of ?w1] Cons.prems one by (auto simp: conj_ac)
qed simp

lemma filter_not_taken: "distinct (map f p) \<Longrightarrow> filter (\<lambda>r. f r \<notin> f ` set (take k p)) p = drop k p"
proof -
  assume d: "distinct (map f p)"
  have "filter (\<lambda>r. f r \<notin> f ` set xs) (xs @ ys) = ys" if "distinct (map f (xs @ ys))" for xs ys
    using that by (auto simp: filter_empty_conv intro!: filter_True)
  from this [of "take k p" "drop k p"] d show ?thesis by simp
qed

lemma batch_ok:
  assumes "faultless E" and "\<forall>n. e_bus E n = Acked" and "w_tx w = NoTx" and "distinct (map ob_id (rows (w_db w)))"
  shows "\<exists>w'. relay_batch claim mark E w = (Inr (), w') \<and> w_tx w' = NoTx \<and>
    w_bus w' = w_bus w @ map msg (take relayBatchSize (unpublished (rows (w_db w)))) \<and>
    map ob_id (rows (w_db w')) = map ob_id (rows (w_db w)) \<and>
    unpublished (rows (w_db w')) = drop relayBatchSize (unpublished (rows (w_db w)))"
proof -
  let ?evs = "claim relayBatchSize (w_db w)" and ?v = "tx_enter w"
  let ?m = "andThen (wrapE ''claim outbox events'' (select_rows E (claim relayBatchSize))) (\<lambda>events. forEach events (relay_one mark E))"
  let ?v1 = "?v\<lparr>w_step := Suc (Suc (w_step w))\<rparr>"
  from loop_ok [OF assms(1,2), of ?v1 ?evs] obtain v' where loop: "forEach ?evs (relay_one mark E) ?v1 = (Inr (), v')"
    and v': "w_tx v' = TxOpen" "w_bus v' = w_bus w @ map msg ?evs" "map ob_id (rows (w_db v')) = map ob_id (rows (w_db w))"
      "filter (\<lambda>r. ob_published_at r = None) (rows (w_db v')) =
        filter (\<lambda>r. ob_published_at r = None \<and> ob_id r \<notin> ob_id ` set ?evs) (rows (w_db w))"
    by (auto simp: tx_enter_def)
  have body: "?m ?v = (Inr (), v')"
    using loop by (simp add: select_rows_def query_faultless [OF assms(1)] tx_enter_def)
  have "WithinTransaction E ?m w = (Inr (), v'\<lparr>w_step := Suc (w_step v'), w_tx := NoTx\<rparr>)"
    using assms(1) by (intro WithinTransaction_ok [where m = ?m, OF assms(3) _ body v'(1)]) (simp_all add: faultless_def)
  moreover have "unpublished (rows (w_db v')) = drop relayBatchSize (unpublished (rows (w_db w)))"
  proof -
    let ?p = "unpublished (rows (w_db w))"
    have "distinct (map ob_id ?p)"
      using assms(4) by (simp add: unpublished_def distinct_map) (auto intro: inj_on_subset)
    from filter_not_taken [OF this, of relayBatchSize] show ?thesis
      by (simp add: v'(4) unpublished_def claimed filter_sort conj_commute)
  qed
  ultimately show ?thesis using v' by (auto simp: relay_batch_def claimed)
qed

lemma ticks_ok:
  assumes "faultless E" and "\<forall>n. e_bus E n = Acked" and "w_tx w = NoTx" and "distinct (map ob_id (rows (w_db w)))"
  shows "w_tx (relay_ticks (relay_batch claim mark E) n w) = NoTx \<and>
    map ob_id (rows (w_db (relay_ticks (relay_batch claim mark E) n w))) = map ob_id (rows (w_db w)) \<and>
    w_bus (relay_ticks (relay_batch claim mark E) n w) = w_bus w @ map msg (take (n * relayBatchSize) (unpublished (rows (w_db w)))) \<and>
    unpublished (rows (w_db (relay_ticks (relay_batch claim mark E) n w))) = drop (n * relayBatchSize) (unpublished (rows (w_db w)))"
proof (induction n)
  case (Suc n)
  let ?w = "relay_ticks (relay_batch claim mark E) n w"
  from Suc assms(4) have "distinct (map ob_id (rows (w_db ?w)))" by simp
  from batch_ok [OF assms(1,2) _ this] Suc obtain w' where "relay_batch claim mark E ?w = (Inr (), w')" "w_tx w' = NoTx"
    "w_bus w' = w_bus ?w @ map msg (take relayBatchSize (unpublished (rows (w_db ?w))))"
    "map ob_id (rows (w_db w')) = map ob_id (rows (w_db ?w))"
    "unpublished (rows (w_db w')) = drop relayBatchSize (unpublished (rows (w_db ?w)))" by blast
  moreover have "relay_ticks (relay_batch claim mark E) (Suc n) w = snd (relay_batch claim mark E ?w)"
    by (simp add: relay_ticks_def)
  moreover have "take (Suc n * relayBatchSize) xs = take (n * relayBatchSize) xs @ take relayBatchSize (drop (n * relayBatchSize) xs)" for xs :: "outbox_row list"
    by (metis add.commute mult_Suc take_add)
  ultimately show ?case using Suc by (simp add: add.commute)
qed (simp_all add: relay_ticks_def assms)

end

interpretation identity_outbox: outbox d_identity_outbox ClaimUnpublishedIdentityOutboxEvents MarkIdentityOutboxEventPublished
  by unfold_locales (auto simp: ClaimUnpublishedIdentityOutboxEvents_def MarkIdentityOutboxEventPublished_def)

interpretation example_outbox: outbox d_example_outbox ClaimUnpublishedOutboxEvents MarkOutboxEventPublished
  by unfold_locales (auto simp: ClaimUnpublishedOutboxEvents_def MarkOutboxEventPublished_def)

section \<open>What the relays guarantee\<close>

text \<open>
  C22. No committed event is lost. Through any number of relay ticks, with any statement, commit
  or publication failing at any point, including acknowledgements lost after the message was
  stored and commits whose answer was lost: a row is marked as published only if its message
  is on the bus, no row of the outbox disappears or changes, and nothing leaves the bus.
\<close>

theorem relay_loses_nothing:
  assumes "distinct (map ob_id (d_identity_outbox (w_db w)))" and "published_on_bus (d_identity_outbox (w_db w)) (w_bus w)"
  shows "published_on_bus (d_identity_outbox (w_db (relay_ticks (identity_relayBatch E) n w))) (w_bus (relay_ticks (identity_relayBatch E) n w)) \<and>
    map unmarked (d_identity_outbox (w_db (relay_ticks (identity_relayBatch E) n w))) = map unmarked (d_identity_outbox (w_db w)) \<and>
    (\<exists>ms. w_bus (relay_ticks (identity_relayBatch E) n w) = w_bus w @ ms)"
  using assms identity_outbox.ticks_step [of w E n]
  by (auto simp: identity_outbox.step_ok_def identity_outbox.inv_def identity_relayBatch_def)

text \<open>
  C31. The relay drains the outbox in order. When nothing fails, \<open>n\<close> ticks publish the \<open>n\<close> times
  hundred oldest unpublished events, oldest first and each exactly once, and leave exactly the
  younger ones unpublished; enough ticks leave none.
\<close>

theorem relay_drains_in_order:
  assumes "faultless E" and "\<forall>n. e_bus E n = Acked" and "w_tx w = NoTx" and "distinct (map ob_id (d_example_outbox (w_db w)))"
  shows "w_bus (relay_ticks (example_relayBatch E) n w) = w_bus w @ map msg (take (n * 100) (unpublished (d_example_outbox (w_db w)))) \<and>
    unpublished (d_example_outbox (w_db (relay_ticks (example_relayBatch E) n w))) = drop (n * 100) (unpublished (d_example_outbox (w_db w)))"
  using example_outbox.ticks_ok [OF assms, of n] by (simp add: example_relayBatch_def relayBatchSize_def)

text \<open>Two pending events of the demo world.\<close>

definition pending :: "nat \<Rightarrow> int \<Rightarrow> outbox_row" where
  "pending n t = \<lparr>ob_id = demo_id n, ob_subject = ''s'', ob_payload = Bytes ''{}'', ob_occurred_at = t, ob_published_at = None\<rparr>"

definition pending_world :: world where
  "pending_world = demo_world (empty_db\<lparr>d_identity_outbox := [pending 8 20, pending 9 10],
     d_example_outbox := [pending 8 20, pending 9 10]\<rparr>)"

lemma pending_distinct: "distinct (map ob_id [pending 8 20, pending 9 10])"
  by (simp add: pending_def demo_id_def)

lemma relay_loses_nothing_witness:
  "published_on_bus (d_identity_outbox (w_db (relay_ticks (identity_relayBatch (demo_env\<lparr>e_bus := \<lambda>_. PublishFailed ''timeout'' True\<rparr>)) 3 pending_world)))
     (w_bus (relay_ticks (identity_relayBatch (demo_env\<lparr>e_bus := \<lambda>_. PublishFailed ''timeout'' True\<rparr>)) 3 pending_world))"
  using relay_loses_nothing [of pending_world "demo_env\<lparr>e_bus := \<lambda>_. PublishFailed ''timeout'' True\<rparr>" 3] pending_distinct
  by (simp add: pending_world_def demo_world_def published_on_bus_def pending_def)

lemma relay_drains_in_order_witness:
  "w_bus (relay_ticks (example_relayBatch demo_env) 1 pending_world) = [(''s'', Bytes ''{}''), (''s'', Bytes ''{}'')] \<and>
   unpublished (d_example_outbox (w_db (relay_ticks (example_relayBatch demo_env) 1 pending_world))) = []"
  using relay_drains_in_order [OF demo_faultless, of pending_world 1] pending_distinct
  by (simp add: pending_world_def demo_world_def demo_env_def unpublished_def) (simp add: pending_def msg_def)

end
