(* ===== verification/Ledger.thy ===== *)
theory Ledger
  imports Outbox
begin

text \<open>
  The audit module (\<^verbatim>\<open>modules/audit\<close>): the durable consumer that writes every event of the bus into
  an append-only table, and the admin handler that pages it. The consumer's position in the
  stream is a status per message, as JetStream keeps it for an explicit-ack durable: a message
  waits until it is acknowledged or terminated, and may be delivered again until then. What
  \<^verbatim>\<open>encoding/json\<close> reads from bytes that are not an envelope of this program, and what a \<^verbatim>\<open>jsonb\<close>
  column accepts, are parameters; the trace context of a message only feeds the tracer.
\<close>

section \<open>Statements\<close>

definition InsertAuditEntry :: "(payload \<Rightarrow> bool) \<Rightarrow> audit_row \<Rightarrow> db \<Rightarrow> (gerr + unit) \<times> db" where
  "InsertAuditEntry jsonb e d =
     (if \<not> jsonb (ar_payload e) then (Inl (PgError ''22P02'' ''invalid input syntax for type json''), d)
      else if ar_id e \<in> ar_id ` set (d_audit d) then (Inl (PgError ''23505'' ''duplicate key value violates unique constraint''), d)
      else (Inr (), d\<lparr>d_audit := d_audit d @ [e]\<rparr>))"

text \<open>
  \<open>LIKE\<close>: \<^verbatim>\<open>%\<close> stands for any text, \<^verbatim>\<open>_\<close> for one character, and a backslash takes the next one
  literally. The statement appends \<^verbatim>\<open>%\<close> to the prefix the caller sends.
\<close>

function (sequential) sql_like :: "string \<Rightarrow> string \<Rightarrow> bool" where
  "sql_like [] s = (s = [])"
| "sql_like (c # p) s =
     (if c = CHR ''%'' then sql_like p s \<or> (if s = [] then False else sql_like (c # p) (tl s))
      else if c = CHR ''_'' then (if s = [] then False else sql_like p (drop (snd (decode_rune s)) s))
      else if c = CHR 0x5C
        then (case p of [] \<Rightarrow> False | d # q \<Rightarrow> if s = [] then False else hd s = d \<and> sql_like q (tl s))
      else if s = [] then False else hd s = c \<and> sql_like p (tl s))"
  by pat_completeness auto
termination
  by (relation "measures [\<lambda>(p, s). length p + length s, \<lambda>(p, s). length s]") auto

definition ListAuditEntries :: "int \<Rightarrow> int \<Rightarrow> string \<Rightarrow> db \<Rightarrow> (gerr + audit_row list) \<times> db" where
  "ListAuditEntries limit offset subjectPrefix d =
     (if offset < 0 then (Inl (PgError ''2201X'' ''OFFSET must not be negative''), d)
      else (Inr (take (nat limit) (drop (nat offset)
              (sort_key (\<lambda>r. - ar_recorded_at r)
                (filter (\<lambda>r. subjectPrefix = [] \<or> sql_like (subjectPrefix @ ''%'') (ar_subject r)) (d_audit d))))), d))"

section \<open>The consumer\<close>

record audit_envelope =
  ae_Event :: string
  ae_OccurredAt :: int
  ae_Traceparent :: string

text \<open>\<open>time.Time{}\<close>, the first of January of year one.\<close>

definition zero_time :: int where "zero_time = - 62135596800000000"

record json_lib =
  js_envelope :: "string \<Rightarrow> audit_envelope option"
  js_jsonb :: "payload \<Rightarrow> bool"

definition Unmarshal_envelope :: "json_lib \<Rightarrow> payload \<Rightarrow> audit_envelope option" where
  "Unmarshal_envelope J data =
     (case data of
        Envelope e \<Rightarrow> Some \<lparr>ae_Event = en_event e, ae_OccurredAt = en_occurred_at e, ae_Traceparent = en_traceparent e\<rparr>
      | Bytes s \<Rightarrow> js_envelope J s)"

datatype verdict = Ack | Nak | Term

definition Consumer_record :: "json_lib \<Rightarrow> env \<Rightarrow> string \<times> payload \<Rightarrow> (world, gerr, verdict) act" where
  "Consumer_record J E m =
     (case Unmarshal_envelope J (snd m) of
        None \<Rightarrow> ret Term
      | Some e \<Rightarrow>
          catchE (UUIDGenerator_NewID E) (\<lambda>_. ret Nak) (\<lambda>rawID.
            case uuidFromString E rawID of
              Inl _ \<Rightarrow> ret Nak
            | Inr i \<Rightarrow>
                andThen (if ae_OccurredAt e = zero_time then clock_Now E else ret (ae_OccurredAt e)) (\<lambda>occurredAt.
                andThen (clock_Now E) (\<lambda>now.
                  catchE (query E (InsertAuditEntry (js_jsonb J)
                      \<lparr>ar_id = i, ar_subject = fst m, ar_payload = snd m, ar_occurred_at = occurredAt, ar_recorded_at = now\<rparr>))
                    (\<lambda>_. ret Nak) (\<lambda>_. ret Ack)))))"

datatype delivery = Waiting | Settled | Terminated

type_synonym durable = "nat \<Rightarrow> delivery"

text \<open>
  One delivery of the message at a position of the stream. \<open>lost\<close> says that the verdict never
  reaches the server: the process died after the insert, or the acknowledgement was dropped.
\<close>

definition deliver :: "json_lib \<Rightarrow> env \<Rightarrow> nat \<Rightarrow> bool \<Rightarrow> world \<times> durable \<Rightarrow> world \<times> durable" where
  "deliver J E i lost s =
     (case s of (w, st) \<Rightarrow>
        if i < length (w_bus w) \<and> st i = Waiting
        then (case Consumer_record J E (w_bus w ! i) w of (r, w') \<Rightarrow>
                (w', if lost then st
                     else case r of Inr Ack \<Rightarrow> st(i := Settled) | Inr Term \<Rightarrow> st(i := Terminated) | _ \<Rightarrow> st))
        else s)"

section \<open>The handler\<close>

record audit_entry =
  ent_Id :: string
  ent_Subject :: string
  ent_Payload :: payload
  ent_OccurredAt :: int
  ent_RecordedAt :: int

definition audit_limit :: "int \<Rightarrow> int" where
  "audit_limit l = (if l \<le> 0 \<or> l > 200 then 50 else l)"

definition pool_query :: "env \<Rightarrow> nat option \<Rightarrow> (db \<Rightarrow> (gerr + 'a) \<times> db) \<Rightarrow> (world, gerr, 'a) act" where
  "pool_query E p f w = query E (\<lambda>d. (fst (f (case p of None \<Rightarrow> d | Some i \<Rightarrow> w_replicas w ! i)), d)) w"

definition AuditHandler_ListAuditLog ::
  "env \<Rightarrow> principal option \<Rightarrow> int \<Rightarrow> int \<Rightarrow> string \<Rightarrow> (world, gerr, audit_entry list) act" where
  "AuditHandler_ListAuditLog E ctx limit offset subjectPrefix =
     (case ctx of
        None \<Rightarrow> fail (apperror_New KindUnauthenticated ''unauthenticated'' ''authentication required'')
      | Some p \<Rightarrow>
          if p_Role p \<noteq> ''admin'' \<and> p_TokenType p \<noteq> ''admin''
          then fail (apperror_New KindPermissionDenied ''admin_required'' ''admin access required'')
          else
            andThen Pools_Read (\<lambda>pool.
              catchE (pool_query E pool (ListAuditEntries (audit_limit limit) offset subjectPrefix))
                (\<lambda>err. fail (apperror_Wrap err KindInternal ''internal'' ''internal error''))
                (\<lambda>rows. ret (map (\<lambda>r. \<lparr>ent_Id = uuidToString (ar_id r), ent_Subject = ar_subject r, ent_Payload = ar_payload r,
                                 ent_OccurredAt = ar_occurred_at r, ent_RecordedAt = ar_recorded_at r\<rparr>) rows))))"

section \<open>One delivery\<close>

definition entry_of :: "audit_row \<Rightarrow> string \<times> payload" where
  "entry_of r = (ar_subject r, ar_payload r)"

text \<open>What a delivery does to the world besides the clock: at most one entry, of that message.\<close>

definition adds_entry :: "string \<times> payload \<Rightarrow> world \<Rightarrow> world \<Rightarrow> bool" where
  "adds_entry m w w' \<longleftrightarrow>
     (\<exists>e. entry_of e = m \<and> ar_id e \<notin> ar_id ` set (d_audit (w_db w)) \<and>
          w_db w' = (w_db w)\<lparr>d_audit := d_audit (w_db w) @ [e]\<rparr>) \<and> w_bus w' = w_bus w"

lemma query_frame: "w_bus (snd (query E f w)) = w_bus w"
  by (auto simp: query_def Let_def abort_def split: option.splits prod.splits sum.splits)

lemma InsertAuditEntry_Inr:
  "InsertAuditEntry j e d = (Inr u, d') \<Longrightarrow> ar_id e \<notin> ar_id ` set (d_audit d) \<and> d' = d\<lparr>d_audit := d_audit d @ [e]\<rparr>"
  by (auto simp: InsertAuditEntry_def split: if_splits)

lemma NewID_frame:
  "w_bus (snd (UUIDGenerator_NewID E w)) = w_bus w" "w_db (snd (UUIDGenerator_NewID E w)) = w_db w"
  by (cases "e_rand E (w_step w)"; simp add: UUIDGenerator_NewID_def andThen_def)+

lemma insert_run:
  assumes "query E (InsertAuditEntry j e) w0 = (r, w1)"
  shows "w_bus w1 = w_bus w0" and "r = Inl x \<Longrightarrow> w_db w1 = w_db w0"
    and "r = Inr u \<Longrightarrow> adds_entry (entry_of e) w0 w1"
  using query_frame [of E "InsertAuditEntry j e" w0] assms
  by (auto simp: adds_entry_def dest: query_Inl_db elim!: query_Inr dest!: InsertAuditEntry_Inr)

lemma record_cases:
  assumes "Consumer_record J E m w = (r, w')"
  obtains (poison) "r = Inr Term" "w' = w" "Unmarshal_envelope J (snd m) = None"
  | (acked) "r = Inr Ack" "adds_entry m w w'" "Unmarshal_envelope J (snd m) \<noteq> None"
  | (quiet) "r \<noteq> Inr Ack" "r \<noteq> Inr Term" "w_db w' = w_db w" "w_bus w' = w_bus w" "Unmarshal_envelope J (snd m) \<noteq> None"
proof (cases "Unmarshal_envelope J (snd m)")
  case None
  with assms that show thesis by (simp add: Consumer_record_def)
next
  case (Some e)
  obtain q v where q: "UUIDGenerator_NewID E w = (q, v)" by (cases "UUIDGenerator_NewID E w")
  then have v: "w_db v = w_db w" "w_bus v = w_bus w" using NewID_frame [of E w] by simp_all
  show thesis
  proof (cases "\<exists>raw i. q = Inr raw \<and> uuidFromString E raw = Inr i")
    case False
    then have "r \<noteq> Inr Ack \<and> r \<noteq> Inr Term \<and> w' = v"
      using assms Some q by (cases q) (auto simp: Consumer_record_def catchE_def split: if_splits sum.splits)
    with v Some that show thesis by simp
  next
    case True
    then obtain raw i where raw: "q = Inr raw" "uuidFromString E raw = Inr i" by blast
    define o1 where "o1 = (if ae_OccurredAt e = zero_time then e_now E (w_step v) else ae_OccurredAt e)"
    define v1 where "v1 = (if ae_OccurredAt e = zero_time then v\<lparr>w_step := Suc (w_step v)\<rparr> else v)"
    define a where "a = \<lparr>ar_id = i, ar_subject = fst m, ar_payload = snd m, ar_occurred_at = o1, ar_recorded_at = e_now E (w_step v1)\<rparr>"
    obtain x w1 where x: "query E (InsertAuditEntry (js_jsonb J) a) (v1\<lparr>w_step := Suc (w_step v1)\<rparr>) = (x, w1)" by fastforce
    have run: "(r, w') = catchE (query E (InsertAuditEntry (js_jsonb J) a)) (\<lambda>_. ret Nak) (\<lambda>_. ret Ack) (v1\<lparr>w_step := Suc (w_step v1)\<rparr>)"
      using assms Some q raw by (simp add: Consumer_record_def o1_def v1_def a_def split: if_splits)
    have "w_db v1 = w_db w" "w_bus v1 = w_bus w" using v by (simp_all add: v1_def)
    moreover have m: "entry_of a = m" by (simp add: a_def entry_of_def)
    ultimately have "x = Inr u \<Longrightarrow> adds_entry m w w1" for u
      using insert_run(3) [OF x] by (auto simp: adds_entry_def)
    with \<open>w_db v1 = w_db w\<close> \<open>w_bus v1 = w_bus w\<close> show thesis
      using run x insert_run(1,2) [OF x] that Some
      by (cases x) (auto simp: catchE_def split: if_splits)
  qed
qed

lemma deliver_cases:
  assumes "deliver J E i lost (w, st) = (w', st')"
  obtains (idle) "w' = w" "st' = st"
  | (poison) "i < length (w_bus w)" "st i = Waiting" "w' = w" "Unmarshal_envelope J (snd (w_bus w ! i)) = None"
      "st' = (if lost then st else st(i := Terminated))"
  | (recorded) "i < length (w_bus w)" "st i = Waiting" "adds_entry (w_bus w ! i) w w'"
      "st' = (if lost then st else st(i := Settled))"
  | (retried) "w_db w' = w_db w" "w_bus w' = w_bus w" "st' = st"
proof (cases "i < length (w_bus w) \<and> st i = Waiting")
  case True
  obtain r v where r: "Consumer_record J E (w_bus w ! i) w = (r, v)" by fastforce
  then have w': "w' = v" and st': "st' = (if lost then st else case r of Inr Ack \<Rightarrow> st(i := Settled) | Inr Term \<Rightarrow> st(i := Terminated) | _ \<Rightarrow> st)"
    using assms True by (simp_all add: deliver_def)
  from r show thesis
  proof (cases rule: record_cases)
    case quiet
    then have "(case r of Inr Ack \<Rightarrow> st(i := Settled) | Inr Term \<Rightarrow> st(i := Terminated) | _ \<Rightarrow> st) = st"
      by (auto split: sum.splits verdict.splits)
    with quiet w' st' that(4) show thesis by simp
  qed (use True that w' st' in auto)
qed (use assms that in \<open>auto simp: deliver_def\<close>)

section \<open>From the outbox to the ledger\<close>

text \<open>
  The pipeline: a producer commits rows to an outbox (or changes anything else of the world but
  the bus, the ledger and what the outboxes hold), a relay ticks, the bus delivers a message.
\<close>

definition outbox_grows :: "outbox_row list \<Rightarrow> outbox_row list \<Rightarrow> bool" where
  "outbox_grows rs rs' \<longleftrightarrow>
     (\<exists>new. rs' = rs @ new \<and> distinct (map ob_id rs') \<and> list_all (\<lambda>r. ob_published_at r = None) new)"

inductive pipeline_step :: "json_lib \<Rightarrow> env \<Rightarrow> world \<times> durable \<Rightarrow> world \<times> durable \<Rightarrow> bool" for J E where
  produce: "w_bus w' = w_bus w \<Longrightarrow> d_audit (w_db w') = d_audit (w_db w) \<Longrightarrow>
     outbox_grows (d_identity_outbox (w_db w)) (d_identity_outbox (w_db w')) \<Longrightarrow>
     outbox_grows (d_example_outbox (w_db w)) (d_example_outbox (w_db w')) \<Longrightarrow>
     pipeline_step J E (w, st) (w', st)"
| relay_identity: "w' = snd (identity_relayBatch E w) \<Longrightarrow> pipeline_step J E (w, st) (w', st)"
| relay_example: "w' = snd (example_relayBatch E w) \<Longrightarrow> pipeline_step J E (w, st) (w', st)"
| delivery: "deliver J E i lost (w, st) = s' \<Longrightarrow> pipeline_step J E (w, st) s'"

text \<open>The invariant: marked rows are on the bus, settled messages are in the ledger and back.\<close>

definition pipeline_inv :: "json_lib \<Rightarrow> world \<times> durable \<Rightarrow> bool" where
  "pipeline_inv J s \<longleftrightarrow> (case s of (w, st) \<Rightarrow>
     identity_outbox.inv w \<and> example_outbox.inv w \<and>
     (\<forall>i. st i \<noteq> Waiting \<longrightarrow> i < length (w_bus w)) \<and>
     (\<forall>i. st i = Settled \<longrightarrow> w_bus w ! i \<in> entry_of ` set (d_audit (w_db w))) \<and>
     (\<forall>i. st i = Terminated \<longrightarrow> Unmarshal_envelope J (snd (w_bus w ! i)) = None) \<and>
     entry_of ` set (d_audit (w_db w)) \<subseteq> set (w_bus w) \<and> distinct (map ar_id (d_audit (w_db w))))"

lemma relay_keeps:
  assumes "\<And>oid t. db_keeps P (mark oid t)"
  shows "preserves (on_db P) (relay_batch claim mark E)"
proof -
  have pub: "preserves (on_db P) (bus_Publish E s p)" for s p
    by (rule preservesI) (auto simp: bus_Publish_def Let_def on_db_def split: publish_outcome.splits)
  have wrap: "preserves (on_db P) m \<Longrightarrow> preserves (on_db P) (wrapE s m)" for s and m :: "(world, gerr, 'x) act"
    unfolding wrapE_def by (intro pres) (auto intro: pres)
  show ?thesis
    unfolding relay_batch_def relay_one_def by (intro pres wrap pub assms)
qed

lemma marks_keep:
  "db_keeps (\<lambda>d. d_audit d = A \<and> d_example_outbox d = X) (MarkIdentityOutboxEventPublished oid t)"
  "db_keeps (\<lambda>d. d_audit d = A \<and> d_identity_outbox d = X) (MarkOutboxEventPublished oid t)"
  by (simp_all add: db_keeps_def MarkIdentityOutboxEventPublished_def MarkOutboxEventPublished_def)

lemma inv_extends:
  assumes "pipeline_inv J (w, st)" and "w_bus w' = w_bus w @ ms" and "d_audit (w_db w') = d_audit (w_db w)"
    and "identity_outbox.inv w'" and "example_outbox.inv w'"
  shows "pipeline_inv J (w', st)"
proof -
  have "i < length (w_bus w)" if "st i \<noteq> Waiting" for i using assms(1) that by (simp add: pipeline_inv_def)
  then have n: "w_bus w' ! i = w_bus w ! i" "i < length (w_bus w')" if "st i \<noteq> Waiting" for i
    using that by (simp_all add: assms(2) nth_append trans_less_add1)
  with assms show ?thesis by (auto simp: pipeline_inv_def)
qed

lemma grows_inv:
  assumes "published_on_bus rs bus" and "outbox_grows rs rs'"
  shows "published_on_bus rs' bus \<and> distinct (map ob_id rs')"
  using assms by (auto simp: published_on_bus_def outbox_grows_def list_all_iff)

lemma published_more: "published_on_bus rs bus \<Longrightarrow> published_on_bus rs (bus @ ms)"
  by (auto simp: published_on_bus_def)

lemma relay_inv:
  assumes "pipeline_inv J (w, st)" and "w' = snd (identity_relayBatch E w) \<or> w' = snd (example_relayBatch E w)"
  shows "pipeline_inv J (w', st)" and "\<exists>ms. w_bus w' = w_bus w @ ms" and "d_audit (w_db w') = d_audit (w_db w)"
proof -
  have *: "(\<exists>ms. w_bus w' = w_bus w @ ms) \<and> d_audit (w_db w') = d_audit (w_db w) \<and> identity_outbox.inv w' \<and> example_outbox.inv w'"
    using assms(2)
  proof
    assume w': "w' = snd (identity_relayBatch E w)"
    then have "identity_outbox.step_ok w w'" using identity_outbox.batch_step [of w E] by (simp add: identity_relayBatch_def)
    moreover have "d_audit (w_db w') = d_audit (w_db w) \<and> d_example_outbox (w_db w') = d_example_outbox (w_db w)"
      using relay_keeps [where mark = MarkIdentityOutboxEventPublished, OF marks_keep(1) [of "d_audit (w_db w)" "d_example_outbox (w_db w)"]]
      by (simp add: w' identity_relayBatch_def preserves_def on_db_def)
    ultimately show ?thesis
      using assms(1) by (auto simp: pipeline_inv_def identity_outbox.step_ok_def example_outbox.inv_def intro: published_more)
  next
    assume w': "w' = snd (example_relayBatch E w)"
    then have "example_outbox.step_ok w w'" using example_outbox.batch_step [of w E] by (simp add: example_relayBatch_def)
    moreover have "d_audit (w_db w') = d_audit (w_db w) \<and> d_identity_outbox (w_db w') = d_identity_outbox (w_db w)"
      using relay_keeps [where mark = MarkOutboxEventPublished, OF marks_keep(2) [of "d_audit (w_db w)" "d_identity_outbox (w_db w)"]]
      by (simp add: w' example_relayBatch_def preserves_def on_db_def)
    ultimately show ?thesis
      using assms(1) by (auto simp: pipeline_inv_def example_outbox.step_ok_def identity_outbox.inv_def intro: published_more)
  qed
  then show "\<exists>ms. w_bus w' = w_bus w @ ms" "d_audit (w_db w') = d_audit (w_db w)" by blast+
  from * assms(1) show "pipeline_inv J (w', st)" by (auto intro: inv_extends)
qed

lemma deliver_inv:
  assumes "pipeline_inv J (w, st)" and "deliver J E i lost (w, st) = (w', st')"
  shows "pipeline_inv J (w', st') \<and> w_bus w' = w_bus w \<and> (\<exists>es. d_audit (w_db w') = d_audit (w_db w) @ es)"
  using assms(2)
proof (cases rule: deliver_cases)
  case recorded
  then obtain e where e: "entry_of e = w_bus w ! i" "ar_id e \<notin> ar_id ` set (d_audit (w_db w))"
    "w_db w' = (w_db w)\<lparr>d_audit := d_audit (w_db w) @ [e]\<rparr>" "w_bus w' = w_bus w" by (auto simp: adds_entry_def)
  then show ?thesis using assms(1) recorded
    by (auto simp: pipeline_inv_def identity_outbox.inv_def example_outbox.inv_def)
next
  case poison
  with assms(1) show ?thesis by (auto simp: pipeline_inv_def)
next
  case retried
  with assms(1) show ?thesis by (simp add: pipeline_inv_def identity_outbox.inv_def example_outbox.inv_def)
qed (use assms(1) in simp_all)

inductive_cases pipeline_stepE: "pipeline_step J E s s'"

lemma pipeline_step_inv:
  assumes "pipeline_step J E s s'" and "pipeline_inv J s"
  shows "pipeline_inv J s' \<and> (\<exists>ms. w_bus (fst s') = w_bus (fst s) @ ms) \<and>
    (\<exists>es. d_audit (w_db (fst s')) = d_audit (w_db (fst s)) @ es)"
  using assms
proof cases
  case (produce w' w st)
  have "identity_outbox.inv w'" "example_outbox.inv w'"
    using assms(2) produce grows_inv by (auto simp: pipeline_inv_def identity_outbox.inv_def example_outbox.inv_def)
  with produce assms(2) show ?thesis by (auto intro: inv_extends [of J w st w' "[]"])
next
  case (delivery i lost w st)
  then show ?thesis using assms(2) deliver_inv [of J w st E i lost "fst s'" "snd s'"] by auto
next
  case (relay_identity w' w st)
  then show ?thesis using assms(2) relay_inv [of J w st w' E] by simp
next
  case (relay_example w' w st)
  then show ?thesis using assms(2) relay_inv [of J w st w' E] by simp
qed

abbreviation pipeline_run :: "json_lib \<Rightarrow> env \<Rightarrow> world \<times> durable \<Rightarrow> world \<times> durable \<Rightarrow> bool" where
  "pipeline_run J E \<equiv> (pipeline_step J E)\<^sup>*\<^sup>*"

lemma pipeline_run_inv:
  assumes "pipeline_run J E s s'" and "pipeline_inv J s"
  shows "pipeline_inv J s' \<and> (\<exists>ms. w_bus (fst s') = w_bus (fst s) @ ms) \<and>
    (\<exists>es. d_audit (w_db (fst s')) = d_audit (w_db (fst s)) @ es)"
  using assms
proof (induction rule: rtranclp_induct)
  case (step y z)
  with pipeline_step_inv [OF step.hyps(2)] show ?case by (metis append.assoc)
qed simp

section \<open>Catching up\<close>

text \<open>The id drawn when the random source is read at step \<open>k\<close>, and ids that do not collide.\<close>

definition audit_id_at :: "env \<Rightarrow> nat \<Rightarrow> uuid" where
  "audit_id_at E k = uuid7_bytes (of_int (e_now E (Suc k) div 1000)) (map (the (e_rand E k)) [0..<10])"

definition fresh_draws :: "env \<Rightarrow> nat \<Rightarrow> nat \<Rightarrow> uuid set \<Rightarrow> bool" where
  "fresh_draws E k n A \<longleftrightarrow> inj_on (audit_id_at E) {k..<k + n} \<and> (\<forall>j \<in> {k..<k + n}. audit_id_at E j \<notin> A)"

definition calm :: "json_lib \<Rightarrow> env \<Rightarrow> bool" where
  "calm J E \<longleftrightarrow> faultless E \<and> scan_reads_text E \<and> (\<forall>k. e_rand E k \<noteq> None) \<and> (\<forall>p. js_jsonb J p)"

lemma fresh_shift:
  assumes "fresh_draws E k n A" and "k < k'" and "k' + n' \<le> k + n"
  shows "fresh_draws E k' n' (insert (audit_id_at E k) A)"
proof -
  have inj: "inj_on (audit_id_at E) {k..<k + n}" using assms(1) by (simp add: fresh_draws_def)
  have "k \<in> {k..<k + n}" and sub: "{k'..<k' + n'} \<subseteq> {k..<k + n}" and "k \<notin> {k'..<k' + n'}" using assms(2,3) by auto
  then have "audit_id_at E k \<notin> audit_id_at E ` {k'..<k' + n'}" using inj by (metis inj_on_image_mem_iff)
  moreover have "inj_on (audit_id_at E) {k'..<k' + n'}" using inj sub by (rule inj_on_subset)
  moreover have "\<forall>j \<in> {k'..<k' + n'}. audit_id_at E j \<notin> A" using assms(1) sub unfolding fresh_draws_def by blast
  ultimately show ?thesis unfolding fresh_draws_def by (metis imageI insertE)
qed

lemma fresh_less:
  "fresh_draws E k n A \<Longrightarrow> n' \<le> n \<Longrightarrow> fresh_draws E k n' A"
  by (auto simp: fresh_draws_def intro: inj_on_subset)

lemma record_ok:
  assumes "calm J E" and "Unmarshal_envelope J (snd m) = Some e" and "w_tx w = NoTx"
    and "audit_id_at E (w_step w) \<notin> ar_id ` set (d_audit (w_db w))"
  shows "\<exists>w' a. Consumer_record J E m w = (Inr Ack, w') \<and> entry_of a = m \<and> ar_id a = audit_id_at E (w_step w) \<and>
    w_db w' = (w_db w)\<lparr>d_audit := d_audit (w_db w) @ [a]\<rparr> \<and> w_bus w' = w_bus w \<and> w_tx w' = NoTx \<and>
    w_step w < w_step w' \<and> w_step w' \<le> w_step w + 5"
proof -
  obtain f where f: "e_rand E (w_step w) = Some f" using assms(1) by (auto simp: calm_def)
  let ?i = "audit_id_at E (w_step w)"
  have "length ?i = 16" by (simp add: audit_id_at_def length_uuid7)
  with assms(1) have scan: "uuidFromString E (uuid_text ?i) = Inr ?i" by (simp add: calm_def scan_reads_text_def)
  have new: "UUIDGenerator_NewID E w = (Inr (uuid_text ?i), w\<lparr>w_step := Suc (Suc (w_step w))\<rparr>)"
    using NewID_ok [OF f] by (simp add: audit_id_at_def f)
  have fl: "faultless E" using assms(1) by (simp add: calm_def)
  let ?z = "ae_OccurredAt e = zero_time"
  let ?n = "if ?z then Suc (Suc (Suc (w_step w))) else Suc (Suc (w_step w))"
  let ?a = "\<lparr>ar_id = ?i, ar_subject = fst m, ar_payload = snd m,
      ar_occurred_at = (if ?z then e_now E (Suc (Suc (w_step w))) else ae_OccurredAt e), ar_recorded_at = e_now E ?n\<rparr>"
  let ?w' = "w\<lparr>w_step := Suc (Suc ?n), w_db := (w_db w)\<lparr>d_audit := d_audit (w_db w) @ [?a]\<rparr>\<rparr>"
  have "Consumer_record J E m w = (Inr Ack, ?w')"
    using assms(1,3,4)
    by (simp add: Consumer_record_def assms(2) catchE_def new scan query_faultless [OF fl] InsertAuditEntry_def calm_def)
  then show ?thesis by (intro exI [of _ ?w'] exI [of _ ?a] conjI) (simp_all add: assms(3) entry_of_def)
qed

definition deliver_all :: "json_lib \<Rightarrow> env \<Rightarrow> nat list \<Rightarrow> world \<times> durable \<Rightarrow> world \<times> durable" where
  "deliver_all J E = fold (\<lambda>i. deliver J E i False)"

definition due :: "json_lib \<Rightarrow> world \<times> durable \<Rightarrow> nat list \<Rightarrow> (string \<times> payload) list" where
  "due J s ps = map ((!) (w_bus (fst s))) (filter (\<lambda>i. snd s i = Waiting \<and> Unmarshal_envelope J (snd (w_bus (fst s) ! i)) \<noteq> None) ps)"

lemma due_cong:
  "w_bus (fst s') = w_bus (fst s) \<Longrightarrow> (\<And>i. i \<in> set ps \<Longrightarrow> snd s' i = snd s i) \<Longrightarrow> due J s' ps = due J s ps"
  by (simp add: due_def cong: filter_cong)

lemma deliver_all_ok:
  assumes "calm J E"
  shows "w_tx w = NoTx \<Longrightarrow> distinct ps \<Longrightarrow> (\<forall>i \<in> set ps. i < length (w_bus w)) \<Longrightarrow>
    fresh_draws E (w_step w) (5 * length ps) (ar_id ` set (d_audit (w_db w))) \<Longrightarrow>
    \<exists>w' st'. deliver_all J E ps (w, st) = (w', st') \<and> w_bus w' = w_bus w \<and>
      map entry_of (d_audit (w_db w')) = map entry_of (d_audit (w_db w)) @ due J (w, st) ps \<and>
      (\<forall>i. st' i = (if i \<in> set ps \<and> st i = Waiting
                   then (if Unmarshal_envelope J (snd (w_bus w ! i)) = None then Terminated else Settled) else st i))"
proof (induction ps arbitrary: w st)
  case (Cons i ps)
  let ?m = "w_bus w ! i"
  show ?case
  proof (cases "st i = Waiting \<and> Unmarshal_envelope J (snd ?m) \<noteq> None")
    case True
    then obtain e where e: "Unmarshal_envelope J (snd ?m) = Some e" by auto
    have "audit_id_at E (w_step w) \<notin> ar_id ` set (d_audit (w_db w))"
      using Cons.prems(4) by (simp add: fresh_draws_def)
    from record_ok [OF assms e Cons.prems(1) this] obtain w1 a where
      r: "Consumer_record J E ?m w = (Inr Ack, w1)" "entry_of a = ?m" "ar_id a = audit_id_at E (w_step w)"
      "w_db w1 = (w_db w)\<lparr>d_audit := d_audit (w_db w) @ [a]\<rparr>" "w_bus w1 = w_bus w" "w_tx w1 = NoTx"
      "w_step w < w_step w1" "w_step w1 \<le> w_step w + 5" by blast
    have "fresh_draws E (w_step w1) (5 * length ps) (ar_id ` set (d_audit (w_db w1)))"
      using fresh_shift [OF Cons.prems(4) r(7), of "5 * length ps"] r(3,4,8) by simp
    define st1 where "st1 = st(i := Settled)"
    have "distinct ps" "\<forall>k \<in> set ps. k < length (w_bus w1)" using Cons.prems(2,3) r(5) by simp_all
    from Cons.IH [OF r(6) this \<open>fresh_draws E (w_step w1) _ _\<close>, of st1] obtain w' st' where
      ih: "deliver_all J E ps (w1, st1) = (w', st')" "w_bus w' = w_bus w"
      "map entry_of (d_audit (w_db w')) = map entry_of (d_audit (w_db w)) @ ?m # due J (w1, st1) ps"
      "\<forall>k. st' k = (if k \<in> set ps \<and> st1 k = Waiting
                   then (if Unmarshal_envelope J (snd (w_bus w ! k)) = None then Terminated else Settled) else st1 k)"
      unfolding r(4,5) by (auto simp: r(2))
    have d: "due J (w1, st1) ps = due J (w, st) ps"
      using Cons.prems(2) r(5) by (intro due_cong) (auto simp: st1_def)
    have "deliver J E i False (w, st) = (w1, st1)"
      using True r(1) Cons.prems(3) by (simp add: deliver_def st1_def)
    then have "deliver_all J E (i # ps) (w, st) = (w', st')" using ih(1) by (simp add: deliver_all_def)
    moreover have "due J (w, st) (i # ps) = ?m # due J (w, st) ps" using True by (simp add: due_def)
    ultimately show ?thesis using ih(2,4) ih(3) [unfolded d] True Cons.prems(2) by (auto simp: st1_def)
  next
    case False
    define st1 where "st1 = (if st i = Waiting then st(i := Terminated) else st)"
    have dl: "deliver J E i False (w, st) = (w, st1)"
      using False Cons.prems(3) by (auto simp: deliver_def st1_def Consumer_record_def)
    have "fresh_draws E (w_step w) (5 * length ps) (ar_id ` set (d_audit (w_db w)))"
      using fresh_less [OF Cons.prems(4)] by simp
    moreover have "distinct ps" "\<forall>k \<in> set ps. k < length (w_bus w)" using Cons.prems(2,3) by simp_all
    ultimately obtain w' st' where
      ih: "deliver_all J E ps (w, st1) = (w', st')" "w_bus w' = w_bus w"
      "map entry_of (d_audit (w_db w')) = map entry_of (d_audit (w_db w)) @ due J (w, st1) ps"
      "\<forall>k. st' k = (if k \<in> set ps \<and> st1 k = Waiting
                   then (if Unmarshal_envelope J (snd (w_bus w ! k)) = None then Terminated else Settled) else st1 k)"
      using Cons.IH [OF Cons.prems(1), of st1] by blast
    have d: "due J (w, st1) ps = due J (w, st) ps"
      using Cons.prems(2) by (intro due_cong) (auto simp: st1_def)
    have "deliver_all J E (i # ps) (w, st) = (w', st')" using ih(1) dl by (simp add: deliver_all_def)
    moreover have "due J (w, st) (i # ps) = due J (w, st) ps" using False by (simp add: due_def)
    ultimately show ?thesis using ih(2,4) ih(3) [unfolded d] False Cons.prems(2) by (auto simp: st1_def)
  qed
qed (simp add: deliver_all_def due_def)

section \<open>Properties\<close>

text \<open>
  C8. Every event that was committed is audited. Start with empty outboxes, an empty bus and an
  empty ledger; let producers commit events, both relays run and the bus deliver and redeliver
  in any order, with any statement, commit, publication or acknowledgement failing. Then a row
  that an outbox marks as published is a message of the stream; a message the consumer
  acknowledged is in the ledger with its subject and payload; only what does not parse as an
  envelope was terminated; every other message still waits for delivery; and the ledger holds
  nothing that was not published.
\<close>

theorem committed_events_are_audited:
  assumes "w_bus w0 = []" and "d_audit (w_db w0) = []" and "d_identity_outbox (w_db w0) = []" and "d_example_outbox (w_db w0) = []"
    and "pipeline_run J E (w0, \<lambda>_. Waiting) (w, st)"
    and "r \<in> set (d_identity_outbox (w_db w) @ d_example_outbox (w_db w))" and "ob_published_at r \<noteq> None"
  shows "\<exists>i < length (w_bus w). w_bus w ! i = (ob_subject r, ob_payload r) \<and>
      (case st i of Waiting \<Rightarrow> True
         | Settled \<Rightarrow> \<exists>e \<in> set (d_audit (w_db w)). ar_subject e = ob_subject r \<and> ar_payload e = ob_payload r
         | Terminated \<Rightarrow> Unmarshal_envelope J (ob_payload r) = None) \<and>
      (\<forall>e \<in> set (d_audit (w_db w)). (ar_subject e, ar_payload e) \<in> set (w_bus w))"
proof -
  have "pipeline_inv J (w0, \<lambda>_. Waiting)"
    using assms(1-4) by (simp add: pipeline_inv_def identity_outbox.inv_def example_outbox.inv_def published_on_bus_def)
  with pipeline_run_inv [OF assms(5)] have inv: "pipeline_inv J (w, st)" by simp
  then have "msg r \<in> set (w_bus w)"
    using assms(6,7) by (auto simp: pipeline_inv_def identity_outbox.inv_def example_outbox.inv_def published_on_bus_def)
  then obtain i where "i < length (w_bus w)" "w_bus w ! i = (ob_subject r, ob_payload r)"
    by (auto simp: in_set_conv_nth msg_def)
  moreover have "\<exists>e \<in> set (d_audit (w_db w)). ar_subject e = ob_subject r \<and> ar_payload e = ob_payload r"
    if "st i = Settled"
    using that inv calculation by (force simp: pipeline_inv_def entry_of_def)
  ultimately show ?thesis using inv by (auto simp: pipeline_inv_def entry_of_def split: delivery.splits intro!: exI [of _ i])
qed



section \<open>Reading the ledger\<close>

text \<open>A prefix without wildcards matches exactly the subjects that start with it.\<close>

definition literal :: "string \<Rightarrow> bool" where
  "literal p \<longleftrightarrow> list_all (\<lambda>c. c \<noteq> CHR ''%'' \<and> c \<noteq> CHR ''_'' \<and> c \<noteq> CHR 0x5C) p"

lemma like_percent: "sql_like ''%'' s"
  by (induction s) simp_all

lemma like_literal: "literal p \<Longrightarrow> sql_like (p @ ''%'') s \<longleftrightarrow> has_prefix s p"
proof (induction p arbitrary: s)
  case (Cons c p)
  then show ?case by (cases s) (auto simp: literal_def)
qed (use like_percent in simp)

lemma like_prefix: "literal p \<Longrightarrow> p = [] \<or> sql_like (p @ ''%'') s \<Longrightarrow> has_prefix s p"
  using like_literal by auto

lemma pool_query_Inr:
  "pool_query E p f w = (Inr x, w') \<Longrightarrow> \<exists>d. fst (f d) = Inr x \<and> (p = None \<longrightarrow> d = w_db w) \<and> w_db w' = w_db w"
  unfolding pool_query_def by (erule query_Inr) auto

text \<open>
  The ledger is read by administrators only, page by page. When \<open>ListAuditLog\<close> answers, the
  caller is an administrator, the offset is not negative, at most 200 entries come back, newest
  first, nothing is written; with a prefix free of wildcards every entry's subject starts with
  it, and without replicas every entry is one of the ledger.
\<close>

theorem audit_log_pages:
  assumes "AuditHandler_ListAuditLog E ctx limit offset p w = (Inr es, w')"
  shows "(\<exists>q. ctx = Some q \<and> (p_Role q = ''admin'' \<or> p_TokenType q = ''admin'')) \<and> 0 \<le> offset \<and> length es \<le> 200 \<and>
    sorted (map (\<lambda>e. - ent_RecordedAt e) es) \<and> w_db w' = w_db w \<and>
    (literal p \<longrightarrow> list_all (\<lambda>e. has_prefix (ent_Subject e) p) es) \<and>
    (w_replicas w = [] \<longrightarrow> list_all (\<lambda>e. (ent_Subject e, ent_Payload e) \<in> entry_of ` set (d_audit (w_db w))) es)"
proof -
  obtain q where q: "ctx = Some q" "p_Role q = ''admin'' \<or> p_TokenType q = ''admin''"
    using assms by (auto simp: AuditHandler_ListAuditLog_def split: option.splits if_splits)
  let ?f = "ListAuditEntries (audit_limit limit) offset p"
  let ?e = "\<lambda>r. \<lparr>ent_Id = uuidToString (ar_id r), ent_Subject = ar_subject r, ent_Payload = ar_payload r,
        ent_OccurredAt = ar_occurred_at r, ent_RecordedAt = ar_recorded_at r\<rparr>"
  from assms q obtain pool w1 where pool: "Pools_Read w = ((Inr pool, w1) :: (gerr + _) \<times> _)"
    and run: "catchE (pool_query E pool ?f) (\<lambda>err. fail (apperror_Wrap err KindInternal ''internal'' ''internal error''))
      (\<lambda>rows. ret (map ?e rows)) w1 = (Inr es, w')"
    unfolding AuditHandler_ListAuditLog_def by (auto elim!: andThen_InrE split: if_splits)
  have w1: "w_db w1 = w_db w" using arg_cong [OF pool, of "\<lambda>x. w_db (snd x)"] by (simp add: Pools_Read_db)
  have none: "w_replicas w = [] \<Longrightarrow> pool = None" using pool by (simp add: Pools_Read_def)
  from run obtain rows w2 where "pool_query E pool ?f w1 = (Inr rows, w2)" and es: "es = map ?e rows" "w' = w2"
    by (elim catchE_InrE) auto
  from pool_query_Inr [OF this(1)] obtain d where d: "fst (?f d) = Inr rows" "pool = None \<longrightarrow> d = w_db w" "w_db w2 = w_db w"
    by (auto simp: w1)
  then have off: "0 \<le> offset" and rows: "rows = take (nat (audit_limit limit)) (drop (nat offset) (sort_key (\<lambda>r. - ar_recorded_at r)
      (filter (\<lambda>r. p = [] \<or> sql_like (p @ ''%'') (ar_subject r)) (d_audit d))))"
    by (auto simp: ListAuditEntries_def split: if_splits)
  have sub: "r \<in> set (d_audit d) \<and> (p = [] \<or> sql_like (p @ ''%'') (ar_subject r))" if "r \<in> set rows" for r
    using that by (auto simp: rows dest!: in_set_takeD in_set_dropD)
  have "nat (audit_limit limit) \<le> 200" by (auto simp: audit_limit_def)
  then have "length es \<le> 200" by (simp add: es rows min.coboundedI2)
  moreover have "sorted (map (\<lambda>e. - ent_RecordedAt e) es)"
    by (simp add: es rows comp_def take_map [symmetric] drop_map [symmetric] sorted_wrt_take sorted_wrt_drop)
  moreover have "literal p \<longrightarrow> list_all (\<lambda>e. has_prefix (ent_Subject e) p) es"
    using sub by (auto simp: es list_all_iff intro!: like_prefix)
  moreover have "w_replicas w = [] \<longrightarrow> list_all (\<lambda>e. (ent_Subject e, ent_Payload e) \<in> entry_of ` set (d_audit (w_db w))) es"
    using sub none d(2) by (auto simp: es list_all_iff entry_of_def)
  ultimately show ?thesis using q off d(3) es(2) by auto
qed

text \<open>One entry, and a committed event on its way to becoming one.\<close>

definition audited_world :: world where
  "audited_world = demo_world (empty_db\<lparr>d_audit := [\<lparr>ar_id = demo_id 7, ar_subject = ''identity.user'', ar_payload = Bytes ''{}'',
     ar_occurred_at = 1, ar_recorded_at = 2\<rparr>]\<rparr>)"

lemma audit_log_pages_witness:
  "\<exists>es w'. AuditHandler_ListAuditLog demo_env (Some \<lparr>p_UserID = ''ann'', p_Role = ''admin'', p_TokenType = ''user''\<rparr>) 0 0 [] audited_world
       = (Inr es, w') \<and> length es \<le> 200 \<and> sorted (map (\<lambda>e. - ent_RecordedAt e) es)"
proof -
  let ?p = "Some \<lparr>p_UserID = ''ann'', p_Role = ''admin'', p_TokenType = ''user''\<rparr>"
  obtain es w' where r: "AuditHandler_ListAuditLog demo_env ?p 0 0 [] audited_world = (Inr es, w')"
    by (simp add: AuditHandler_ListAuditLog_def Pools_Read_def andThen_def audited_world_def demo_world_def pool_query_def
        query_def Let_def demo_env_def ListAuditEntries_def catchE_def)
  from audit_log_pages [OF this] r show ?thesis by blast
qed

lemma committed_events_are_audited_witness:
  "\<exists>w st. pipeline_run \<lparr>js_envelope = \<lambda>s. None, js_jsonb = \<lambda>_. True\<rparr> demo_env (demo_world empty_db, \<lambda>_. Waiting) (w, st) \<and>
     (\<exists>r \<in> set (d_example_outbox (w_db w)). ob_published_at r \<noteq> None \<and> (ob_subject r, ob_payload r) \<in> set (w_bus w))"
proof -
  let ?J = "\<lparr>js_envelope = \<lambda>s. None, js_jsonb = \<lambda>_. True\<rparr>" and ?st = "\<lambda>_::nat. Waiting"
  let ?w1 = "demo_world (empty_db\<lparr>d_example_outbox := [pending 8 20]\<rparr>)"
  let ?w2 = "snd (example_relayBatch demo_env ?w1)"
  have "pipeline_step ?J demo_env (demo_world empty_db, ?st) (?w1, ?st)"
    by (rule pipeline_step.produce) (simp_all add: outbox_grows_def demo_world_def empty_db_def pending_def)
  moreover have "pipeline_step ?J demo_env (?w1, ?st) (?w2, ?st)"
    by (rule pipeline_step.relay_example) simp
  ultimately have run: "pipeline_run ?J demo_env (demo_world empty_db, ?st) (?w2, ?st)" by simp
  have "\<exists>r. d_example_outbox (w_db ?w2) = [r] \<and> ob_published_at r \<noteq> None"
    by (simp add: example_relayBatch_def relay_batch_def relay_one_def WithinTransaction_def andThen_def select_rows_def query_def
        ClaimUnpublishedOutboxEvents_def MarkOutboxEventPublished_def unpublished_def pending_def demo_world_def empty_db_def demo_env_def
        Let_def wrapE_def catchE_def bus_Publish_def relayBatchSize_def update_rows_def)
  then obtain r where r: "r \<in> set (d_example_outbox (w_db ?w2))" "ob_published_at r \<noteq> None" by auto
  have "\<exists>i < length (w_bus ?w2). w_bus ?w2 ! i = (ob_subject r, ob_payload r)"
    using committed_events_are_audited [OF _ _ _ _ run, of r] r by (auto simp: demo_world_def empty_db_def)
  then have "(ob_subject r, ob_payload r) \<in> set (w_bus ?w2)" by (metis nth_mem)
  with run r show ?thesis by blast
qed

end
