(* ===== verification/Jobs.thy ===== *)
theory Jobs
  imports IdentitySessions
begin

text \<open>
  Distributed locks and scheduled jobs (\<^verbatim>\<open>platform/lock\<close>, \<^verbatim>\<open>platform/jobs\<close>). A lease is a key with a
  random token that expires; the release script deletes the key only if it still holds the
  token. Instances of the worker interleave between the start of a run and its end. Durations
  are in microseconds.
\<close>

section \<open>The lock\<close>

record lease =
  le_key :: string
  le_token :: string

definition Locker_Acquire :: "env \<Rightarrow> string \<Rightarrow> int \<Rightarrow> (world, gerr, lease option) act" where
  "Locker_Acquire E key ttl =
     andThen (rand_Read E 16) (\<lambda>raw.
     andThen (liftE (from_secure (sec_Token raw))) (\<lambda>token.
     andThen (wrapE (''lock: acquire '' @ key)
                (redis_call E (\<lambda>t s. case r_setnx t key (RStr token) ttl s of (ok, s') \<Rightarrow> (Inr ok, s')))) (\<lambda>ok.
       ret (if ok then Some \<lparr>le_key = key, le_token = token\<rparr> else None))))"

definition releaseScript :: "string \<Rightarrow> string \<Rightarrow> int \<Rightarrow> redis \<Rightarrow> int \<times> redis" where
  "releaseScript key token t s = (if r_get t key s = Some (RStr token) then (1, r_del key s) else (0, s))"

definition Lease_Release :: "env \<Rightarrow> lease \<Rightarrow> (world, gerr, unit) act" where
  "Lease_Release E le =
     andThen (wrapE (''lock: release '' @ le_key le)
                (redis_call E (\<lambda>t s. case releaseScript (le_key le) (le_token le) t s of (n, s') \<Rightarrow> (Inr n, s')))) (\<lambda>_.
       ret ())"

section \<open>Jobs\<close>

datatype failure_mode = FailClosed | FailOpen

record job =
  jb_Name :: string
  jb_Every :: int
  jb_LeaseTTL :: int
  jb_Mode :: failure_mode
  jb_Run :: "(world, gerr, unit) act option"

definition Runner_Register :: "job \<Rightarrow> job list \<Rightarrow> gerr + job list" where
  "Runner_Register jb jobs =
     (if jb_Name jb = [] \<or> jb_Run jb = None \<or> jb_Every jb \<le> 0
      then Inl (External ''jobs: job needs a name, an interval, and a Run func'')
      else Inr (jobs @ [if jb_LeaseTTL jb \<le> 0 then jb\<lparr>jb_LeaseTTL := min (2 * jb_Every jb) 600000000\<rparr> else jb]))"

text \<open>
  \<open>runOnce\<close> up to the call of the job, which says whether the job runs and under which lease,
  and what follows the job. A panic of the job unwinds past the release and ends the ticker.
\<close>

datatype start = Skip | Start "lease option"

definition run_begin :: "env \<Rightarrow> job \<Rightarrow> (world, gerr, start) act" where
  "run_begin E jb =
     catchE (Locker_Acquire E (''job:'' @ jb_Name jb) (jb_LeaseTTL jb))
       (\<lambda>err. ret (if jb_Mode jb = FailClosed then Skip else Start None))
       (\<lambda>le. ret (case le of None \<Rightarrow> Skip | Some l \<Rightarrow> Start (Some l)))"

definition run_end :: "env \<Rightarrow> lease option \<Rightarrow> (world, gerr, unit) act" where
  "run_end E le = (case le of None \<Rightarrow> ret () | Some l \<Rightarrow> ignore (Lease_Release E l))"

definition runOnce :: "env \<Rightarrow> job \<Rightarrow> (world, gerr, unit) act" where
  "runOnce E jb =
     andThen (run_begin E jb) (\<lambda>st. case st of
       Skip \<Rightarrow> ret ()
     | Start le \<Rightarrow> (case jb_Run jb of
           None \<Rightarrow> fail Panicked
         | Some run \<Rightarrow> catchE run (\<lambda>_. run_end E le) (\<lambda>_. run_end E le)))"

primrec job_ticks :: "env \<Rightarrow> job \<Rightarrow> nat \<Rightarrow> (world, gerr, unit) act" where
  "job_ticks E jb 0 = ret ()"
| "job_ticks E jb (Suc n) = andThen (runOnce E jb) (\<lambda>_. job_ticks E jb n)"

definition MarkOnce :: "env \<Rightarrow> string \<Rightarrow> int \<Rightarrow> (world, gerr, bool) act" where
  "MarkOnce E key ttl =
     wrapE (''jobs: mark once '' @ key)
       (redis_call E (\<lambda>t s. case r_setnx t key (RStr ''done'') ttl s of (ok, s') \<Rightarrow> (Inr ok, s')))"

section \<open>What single calls do\<close>

text \<open>An acquisition that is answered yes stored its token until the lease ends.\<close>

lemma wrapE_Inr: "wrapE p m w = (Inr x, w') \<longleftrightarrow> m w = (Inr x, w')"
  by (auto simp: wrapE_def catchE_def split: prod.splits sum.splits if_splits)

lemma Acquire_some:
  assumes "Locker_Acquire E key ttl w = (Inr (Some l), w')"
  shows "le_key l = key \<and> r_get (e_now E (Suc (w_step w))) key (w_redis w) = None \<and>
    w_redis w' = r_set (e_now E (Suc (w_step w))) key (RStr (le_token l)) ttl (w_redis w) \<and> w_step w' = Suc (Suc (w_step w))"
  using assms unfolding Locker_Acquire_def
  by (auto elim!: andThen_InrE simp: wrapE_Inr r_setnx_def dest!: redis_call_Inr split: if_splits prod.splits)

lemma Acquire_other:
  assumes "Locker_Acquire E key ttl w = (r, w')" and "\<nexists>l. r = Inr (Some l)"
  shows "w_redis w' = w_redis w"
proof (cases r)
  case (Inr x)
  with assms have "Locker_Acquire E key ttl w = (Inr None, w')" by (cases x) auto
  then show ?thesis unfolding Locker_Acquire_def
    by (auto elim!: andThen_InrE simp: wrapE_Inr r_setnx_def dest!: redis_call_Inr split: if_splits prod.splits)
next
  case (Inl e)
  with assms(1) show ?thesis unfolding Locker_Acquire_def
    by (auto elim!: andThen_InlE simp: wrapE_def catchE_def redis_call_def Let_def split: option.splits prod.splits sum.splits if_splits)
qed

lemma Acquire_step: "w_step w \<le> w_step (snd (Locker_Acquire E key ttl w))"
  by (simp add: Locker_Acquire_def andThen_def wrapE_def catchE_def from_secure_def sec_Token_def redis_call_def Let_def
      split: option.splits prod.splits sum.splits if_splits)

text \<open>A release deletes the key if it holds the lease's own token, and does nothing else.\<close>

lemma Release_effect:
  "w_redis (snd (Lease_Release E l w)) = w_redis w \<or>
   (r_get (e_now E (w_step w)) (le_key l) (w_redis w) = Some (RStr (le_token l)) \<and>
    w_redis (snd (Lease_Release E l w)) = r_del (le_key l) (w_redis w))"
  "w_step (snd (Lease_Release E l w)) = Suc (w_step w)"
  by (auto simp: Lease_Release_def andThen_def wrapE_def catchE_def redis_call_def Let_def releaseScript_def
      split: option.splits prod.splits sum.splits if_splits)

section \<open>Many instances\<close>

text \<open>
  The worker instances run one job each on their own goroutine. A run that holds a lease keeps
  it together with the time the lease ends. The fault \<open>lost\<close> is an acquisition that Redis
  performed while the answer never came; \<open>other\<close> is anything else that happens, as long as it
  leaves the job's key alone.
\<close>

type_synonym runs = "nat \<Rightarrow> (lease option \<times> int) option"

definition token_unused :: "runs \<Rightarrow> string \<Rightarrow> bool" where
  "token_unused rs tok \<longleftrightarrow> (\<forall>j l x. rs j = Some (Some l, x) \<longrightarrow> le_token l \<noteq> tok)"

definition job_key :: "job \<Rightarrow> string" where
  "job_key jb = ''job:'' @ jb_Name jb"

inductive cluster_step :: "env \<Rightarrow> job \<Rightarrow> world \<times> runs \<Rightarrow> world \<times> runs \<Rightarrow> bool" for E jb where
  begin_run: "rs i = None \<Longrightarrow> run_begin E jb w = (Inr (Start le), w') \<Longrightarrow>
     (\<And>l. le = Some l \<Longrightarrow> token_unused rs (le_token l)) \<Longrightarrow>
     cluster_step E jb (w, rs) (w', rs(i \<mapsto> (le, e_now E (Suc (w_step w)) + jb_LeaseTTL jb)))"
| skip_run: "run_begin E jb w = (r, w') \<Longrightarrow> (\<nexists>le. r = Inr (Start le)) \<Longrightarrow> cluster_step E jb (w, rs) (w', rs)"
| lost: "token_unused rs tok \<Longrightarrow>
     w' = w\<lparr>w_step := Suc (w_step w), w_redis := snd (r_setnx (e_now E (w_step w)) (job_key jb) (RStr tok) (jb_LeaseTTL jb) (w_redis w))\<rparr> \<Longrightarrow>
     cluster_step E jb (w, rs) (w', rs)"
| end_run: "rs i = Some (le, x) \<Longrightarrow> w' = snd (run_end E le w) \<Longrightarrow> cluster_step E jb (w, rs) (w', rs(i := None))"
| crash: "rs i = Some (le, x) \<Longrightarrow> cluster_step E jb (w, rs) (w, rs(i := None))"
| other: "w_redis w' (job_key jb) = w_redis w (job_key jb) \<Longrightarrow> w_step w \<le> w_step w' \<Longrightarrow> cluster_step E jb (w, rs) (w', rs)"

abbreviation cluster_run :: "env \<Rightarrow> job \<Rightarrow> world \<times> runs \<Rightarrow> world \<times> runs \<Rightarrow> bool" where
  "cluster_run E jb \<equiv> (cluster_step E jb)\<^sup>*\<^sup>*"

text \<open>While a run's lease lasts the key holds its token, and the key never outlives the TTL.\<close>

definition covered :: "env \<Rightarrow> job \<Rightarrow> world \<Rightarrow> lease \<times> int \<Rightarrow> bool" where
  "covered E jb w r \<longleftrightarrow> le_key (fst r) = job_key jb \<and>
     (\<forall>t. e_now E (w_step w) \<le> t \<longrightarrow> t < snd r \<longrightarrow> r_get t (job_key jb) (w_redis w) = Some (RStr (le_token (fst r))))"

definition cluster_inv :: "env \<Rightarrow> job \<Rightarrow> world \<times> runs \<Rightarrow> bool" where
  "cluster_inv E jb s \<longleftrightarrow> (case s of (w, rs) \<Rightarrow>
     (\<forall>i l x. rs i = Some (Some l, x) \<longrightarrow> covered E jb w (l, x)) \<and>
     (\<forall>i j l m x y. rs i = Some (Some l, x) \<longrightarrow> rs j = Some (Some m, y) \<longrightarrow> le_token l = le_token m \<longrightarrow> i = j) \<and>
     (\<forall>i x. rs i = Some (None, x) \<longrightarrow> jb_Mode jb = FailOpen) \<and>
     (\<forall>t. e_now E (w_step w) + jb_LeaseTTL jb \<le> t \<longrightarrow> r_get t (job_key jb) (w_redis w) = None))"

lemma inv_covered: "cluster_inv E jb (w, rs) \<Longrightarrow> rs i = Some (Some l, x) \<Longrightarrow> covered E jb w (l, x)"
  and inv_tokens: "cluster_inv E jb (w, rs) \<Longrightarrow> rs i = Some (Some l, x) \<Longrightarrow> rs j = Some (Some m, y) \<Longrightarrow> le_token l = le_token m \<Longrightarrow> i = j"
  and inv_open: "cluster_inv E jb (w, rs) \<Longrightarrow> rs i = Some (None, x) \<Longrightarrow> jb_Mode jb = FailOpen"
  by (auto simp: cluster_inv_def)

lemma inv_add:
  assumes "cluster_inv E jb (w, rs)" and "covered E jb w (l, x)" and "token_unused rs (le_token l)"
  shows "cluster_inv E jb (w, rs(i \<mapsto> (Some l, x)))"
proof -
  have "j = k" if "(rs(i \<mapsto> (Some l, x))) j = Some (Some a, u)" "(rs(i \<mapsto> (Some l, x))) k = Some (Some b, v)" "le_token a = le_token b" for j k a b u v
  proof (cases "j = i \<or> k = i")
    case True
    with that assms(3) show ?thesis by (auto simp: token_unused_def split: if_splits)
  next
    case False
    with that inv_tokens [OF assms(1), of j a u k b v] show ?thesis by simp
  qed
  then have "\<forall>j k a b u v. (rs(i \<mapsto> (Some l, x))) j = Some (Some a, u) \<longrightarrow> (rs(i \<mapsto> (Some l, x))) k = Some (Some b, v) \<longrightarrow>
      le_token a = le_token b \<longrightarrow> j = k" by blast
  moreover have "\<forall>j a u. (rs(i \<mapsto> (Some l, x))) j = Some (Some a, u) \<longrightarrow> covered E jb w (a, u)"
    using assms(2) inv_covered [OF assms(1)] by auto
  moreover have "\<forall>j u. (rs(i \<mapsto> (Some l, x))) j = Some (None, u) \<longrightarrow> jb_Mode jb = FailOpen"
    using inv_open [OF assms(1)] by auto
  ultimately show ?thesis using assms(1) unfolding cluster_inv_def prod.case by blast
qed

lemma covered_now: "covered E jb w (l, x) \<Longrightarrow> e_now E (w_step w) < x \<Longrightarrow> r_get (e_now E (w_step w)) (job_key jb) (w_redis w) = Some (RStr (le_token l))"
  by (simp add: covered_def)

lemma covered_later:
  assumes "mono (e_now E)" and "covered E jb w r" and "w_redis w' (job_key jb) = w_redis w (job_key jb)" and "w_step w \<le> w_step w'"
  shows "covered E jb w' r"
proof -
  have "e_now E (w_step w) \<le> e_now E (w_step w')" using assms(1,4) by (rule monoD)
  with assms(2,3) show ?thesis by (auto simp: covered_def r_get_def)
qed

lemma inv_later:
  assumes "mono (e_now E)" and "cluster_inv E jb (w, rs)" and "w_redis w' (job_key jb) = w_redis w (job_key jb)" and "w_step w \<le> w_step w'"
    and "\<And>i. rs' i = rs i \<or> rs' i = None"
  shows "cluster_inv E jb (w', rs')"
proof -
  have earlier: "rs i = Some r" if "rs' i = Some r" for i r using assms(5) [of i] that by auto
  have "e_now E (w_step w) \<le> e_now E (w_step w')" using assms(1,4) by (rule monoD)
  then have "r_get t (job_key jb) (w_redis w') = None" if "e_now E (w_step w') + jb_LeaseTTL jb \<le> t" for t
    using assms(2,3) that by (auto simp: cluster_inv_def r_get_def)
  moreover have "covered E jb w' (l, x)" if "rs' i = Some (Some l, x)" for i l x
    using covered_later [OF assms(1) _ assms(3,4)] assms(2) earlier [OF that] by (auto simp: cluster_inv_def)
  ultimately show ?thesis using assms(2) earlier unfolding cluster_inv_def by (auto; blast)
qed

text \<open>A successful \<open>SETNX\<close> on the key: every earlier lease is over.\<close>

lemma set_over:
  assumes "mono (e_now E)" and "cluster_inv E jb (w, rs)" and "r_get t1 (job_key jb) (w_redis w) = None"
    and "e_now E (w_step w) \<le> t1" and "rs i = Some (Some l, x)"
  shows "x \<le> t1"
proof (rule ccontr)
  assume "\<not> x \<le> t1"
  with assms(2,4,5) have "r_get t1 (job_key jb) (w_redis w) = Some (RStr (le_token l))"
    by (auto simp: cluster_inv_def covered_def)
  with assms(3) show False by simp
qed

lemma set_inv:
  assumes "mono (e_now E)" and "cluster_inv E jb (w, rs)" and "0 < jb_LeaseTTL jb"
    and "t1 = e_now E n" "w_step w \<le> n" "n \<le> w_step w'" and "r_get t1 (job_key jb) (w_redis w) = None"
    and "w_redis w' = r_set t1 (job_key jb) (RStr tok) (jb_LeaseTTL jb) (w_redis w)"
  shows "cluster_inv E jb (w', rs)"
proof -
  have t1: "e_now E (w_step w) \<le> t1" "t1 \<le> e_now E (w_step w')" using assms(1,4-6) by (simp_all add: monoD)
  have "covered E jb w' (l, x)" if "rs i = Some (Some l, x)" for i l x
    using set_over [OF assms(1,2,7) t1(1) that] t1(2) assms(2) that by (auto simp: covered_def cluster_inv_def)
  moreover have "r_get t (job_key jb) (w_redis w') = None" if "e_now E (w_step w') + jb_LeaseTTL jb \<le> t" for t
    using that t1 assms(3) by (simp add: assms(8) rs.get_put)
  ultimately show ?thesis using assms(2) unfolding cluster_inv_def by (auto; blast)
qed

inductive_cases cluster_stepE: "cluster_step E jb s s'"

lemma run_begin_Start:
  assumes "run_begin E jb w = (Inr (Start le), w')"
  shows "(\<exists>l. le = Some l \<and> Locker_Acquire E (job_key jb) (jb_LeaseTTL jb) w = (Inr (Some l), w')) \<or>
    (le = None \<and> jb_Mode jb = FailOpen \<and> w_redis w' = w_redis w \<and> w_step w \<le> w_step w')"
  using assms unfolding run_begin_def job_key_def [symmetric]
proof (cases rule: catchE_InrE)
  case (err e w1)
  with Acquire_other [OF err(1)] Acquire_step [of w E "job_key jb" "jb_LeaseTTL jb"] show ?thesis
    by (auto split: if_splits) (metis failure_mode.exhaust)
qed (auto split: option.splits)

lemma run_begin_quiet:
  assumes "run_begin E jb w = (r, w')" and "\<nexists>le. r = Inr (Start le)"
  shows "w_redis w' = w_redis w" and "w_step w \<le> w_step w'"
proof -
  obtain q where q: "Locker_Acquire E (job_key jb) (jb_LeaseTTL jb) w = (q, w')" and "\<nexists>l. q = Inr (Some l)"
    using assms unfolding run_begin_def job_key_def [symmetric] catchE_def
    by (auto split: prod.splits sum.splits if_splits option.splits)
  then show "w_redis w' = w_redis w" by (rule Acquire_other)
  show "w_step w \<le> w_step w'" using Acquire_step [of w E "job_key jb" "jb_LeaseTTL jb"] q by simp
qed

lemma run_end_effect:
  "w_step w \<le> w_step (snd (run_end E le w))"
  "w_redis (snd (run_end E le w)) (job_key jb) = w_redis w (job_key jb) \<or>
   (\<exists>l. le = Some l \<and> le_key l = job_key jb \<and> r_get (e_now E (w_step w)) (job_key jb) (w_redis w) = Some (RStr (le_token l)) \<and>
      w_redis (snd (run_end E le w)) = r_del (job_key jb) (w_redis w))"
proof -
  show "w_step w \<le> w_step (snd (run_end E le w))"
    by (cases le) (simp_all add: run_end_def Release_effect)
  show "w_redis (snd (run_end E le w)) (job_key jb) = w_redis w (job_key jb) \<or>
   (\<exists>l. le = Some l \<and> le_key l = job_key jb \<and> r_get (e_now E (w_step w)) (job_key jb) (w_redis w) = Some (RStr (le_token l)) \<and>
      w_redis (snd (run_end E le w)) = r_del (job_key jb) (w_redis w))"
  proof (cases le)
    case (Some l)
    then show ?thesis using Release_effect(1) [of E l w] by (cases "le_key l = job_key jb") (auto simp: run_end_def r_del_def)
  qed (simp add: run_end_def)
qed

lemma cluster_step_inv:
  assumes "cluster_step E jb s s'" and "cluster_inv E jb s" and m: "mono (e_now E)" and ttl: "0 < jb_LeaseTTL jb"
  shows "cluster_inv E jb s' \<and> w_step (fst s) \<le> w_step (fst s')"
  using assms(1)
proof cases
  case (begin_run rs i w le w')
  have inv: "cluster_inv E jb (w, rs)" using assms(2) begin_run by simp
  from run_begin_Start [OF begin_run(4)] show ?thesis
  proof (elim disjE exE conjE)
    fix l assume le: "le = Some l" and acq: "Locker_Acquire E (job_key jb) (jb_LeaseTTL jb) w = (Inr (Some l), w')"
    let ?t = "e_now E (Suc (w_step w))"
    note a = Acquire_some [OF acq]
    have "cluster_inv E jb (w', rs)"
      using set_inv [OF m inv ttl refl, of "Suc (w_step w)" w' "le_token l"] a by simp
    moreover have "covered E jb w' (l, ?t + jb_LeaseTTL jb)"
      using a ttl by (auto simp: covered_def rs.get_put)
    moreover have "token_unused rs (le_token l)" using begin_run(5) le by simp
    ultimately show ?thesis using begin_run(1,2) le a inv_add by simp
  next
    assume "le = None" "jb_Mode jb = FailOpen" "w_redis w' = w_redis w" "w_step w \<le> w_step w'"
    moreover from inv_later [OF m inv, of w' rs] this have "cluster_inv E jb (w', rs)" by simp
    ultimately show ?thesis using begin_run(1,2,3) by (auto simp: cluster_inv_def)
  qed
next
  case (skip_run w r w' rs)
  with run_begin_quiet [OF skip_run(3,4)] assms(2) inv_later [OF m, of jb w rs w' rs] show ?thesis by simp
next
  case (lost rs tok w' w)
  have inv: "cluster_inv E jb (w, rs)" using assms(2) lost by simp
  show ?thesis
  proof (cases "r_get (e_now E (w_step w)) (job_key jb) (w_redis w) = None")
    case True
    with set_inv [OF m inv ttl refl, of "w_step w" w' tok] lost show ?thesis by (simp add: r_setnx_def)
  next
    case False
    with inv_later [OF m inv, of w' rs] lost show ?thesis by (simp add: r_setnx_def)
  qed
next
  case (end_run rs i le x w' w)
  have inv: "cluster_inv E jb (w, rs)" using assms(2) end_run by simp
  let ?rs = "rs(i := None)"
  have step: "w_step w \<le> w_step w'" using run_end_effect(1) end_run by simp
  from run_end_effect(2) [where E = E and le = le and w = w and jb = jb] show ?thesis
  proof (elim disjE exE conjE)
    assume "w_redis (snd (run_end E le w)) (job_key jb) = w_redis w (job_key jb)"
    with inv_later [OF m inv, of w' ?rs] step end_run show ?thesis by simp
  next
    fix l assume l: "le = Some l" "r_get (e_now E (w_step w)) (job_key jb) (w_redis w) = Some (RStr (le_token l))"
      "w_redis (snd (run_end E le w)) = r_del (job_key jb) (w_redis w)"
    have now: "e_now E (w_step w) \<le> e_now E (w_step w')" using m step by (rule monoD)
    have "covered E jb w' (k, y)" if "?rs j = Some (Some k, y)" for j k y
    proof -
      from that have j: "j \<noteq> i" "rs j = Some (Some k, y)" by (auto split: if_splits)
      then have "le_token k \<noteq> le_token l" using inv end_run(3) l(1) unfolding cluster_inv_def by blast
      then have "y \<le> e_now E (w_step w)" using inv j(2) l(2) by (force simp: cluster_inv_def covered_def)
      with now inv j(2) show ?thesis by (auto simp: cluster_inv_def covered_def)
    qed
    moreover have "r_get t (job_key jb) (w_redis w') = None" for t using l(3) end_run by (simp add: r_get_def r_del_def)
    ultimately show ?thesis using inv step end_run(1,2) unfolding cluster_inv_def by (auto split: if_splits)
  qed
next
  case (crash rs i le x w)
  with inv_later [OF m, of jb w rs w "rs(i := None)"] assms(2) show ?thesis by simp
next
  case (other w' w rs)
  with inv_later [OF m, of jb w rs w' rs] assms(2) show ?thesis by simp
qed

lemma cluster_run_inv:
  assumes "cluster_run E jb s s'" and "cluster_inv E jb s" and "mono (e_now E)" and "0 < jb_LeaseTTL jb"
  shows "cluster_inv E jb s'"
  using assms by (induction rule: rtranclp_induct) (blast dest: cluster_step_inv)+

lemma cluster_start: "w_redis w (job_key jb) = None \<Longrightarrow> cluster_inv E jb (w, \<lambda>_. None)"
  by (simp add: cluster_inv_def r_get_def)

text \<open>A registered job has a lease that expires, and the failure mode it was given.\<close>

lemma registered:
  "Runner_Register jb0 js = Inr (js @ [jb]) \<Longrightarrow> 0 < jb_LeaseTTL jb"
  "Runner_Register jb0 js = Inr (js @ [jb]) \<Longrightarrow> jb_Mode jb = jb_Mode jb0"
  by (auto simp: Runner_Register_def split: if_splits)

section \<open>Properties\<close>

text \<open>
  C10. A job that fails closed never runs twice at the same time within its leases. Let any number
  of instances start, finish and crash in any order, with Redis failing before or after it took
  a lease, and late releases of leases that have expired: two instances that are both running
  and whose leases have not ended are the same instance.
\<close>

theorem jobs_never_overlap:
  assumes "w_redis w0 (job_key jb) = None" and "mono (e_now E)" and "Runner_Register jb0 js = Inr (js @ [jb])" and "jb_Mode jb0 = FailClosed"
    and "cluster_run E jb (w0, \<lambda>_. None) (w, rs)"
    and "rs i = Some (le, x)" and "rs j = Some (le', y)" and "e_now E (w_step w) < x" and "e_now E (w_step w) < y"
  shows "i = j"
proof -
  have inv: "cluster_inv E jb (w, rs)"
    using cluster_run_inv [OF assms(5) cluster_start [OF assms(1)] assms(2) registered(1) [OF assms(3)]] .
  obtain l l' where l: "le = Some l" "le' = Some l'"
    using inv_open [OF inv] registered(2) [OF assms(3)] assms(4,6,7) by (cases le; cases le') auto
  have "le_token l = le_token l'"
    using covered_now [OF inv_covered [OF inv]] assms(6-9) l by (metis option.inject rval.inject(1))
  with inv_tokens [OF inv] assms(6,7) l show ?thesis by blast
qed

text \<open>
  A crashed holder never blocks a job for longer than the lease. Whatever happened before,
  once the lease's duration has passed since the last event, an instance that finds Redis
  reachable starts the job with a lease of its own.
\<close>

theorem lease_frees_itself:
  assumes "w_redis w0 (job_key jb) = None" and "mono (e_now E)" and "Runner_Register jb0 js = Inr (js @ [jb])"
    and "cluster_run E jb (w0, \<lambda>_. None) (w, rs)"
    and "w_redis w' = w_redis w" and "e_now E (w_step w) + jb_LeaseTTL jb \<le> e_now E (Suc (w_step w'))" and "faultless E"
  shows "\<exists>l w2. run_begin E jb w' = (Inr (Start (Some l)), w2) \<and> le_key l = job_key jb"
proof -
  have inv: "cluster_inv E jb (w, rs)"
    using cluster_run_inv [OF assms(4) cluster_start [OF assms(1)] assms(2) registered(1) [OF assms(3)]] .
  then have "r_get (e_now E (Suc (w_step w'))) (job_key jb) (w_redis w') = None"
    using assms(5,6) by (simp add: cluster_inv_def)
  moreover obtain f where "e_rand E (w_step w') = Some f" using assms(7) unfolding faultless_def by blast
  moreover have "e_redis E n = None" for n using assms(7) by (simp add: faultless_def)
  ultimately show ?thesis
    by (simp add: run_begin_def catchE_def Locker_Acquire_def andThen_def from_secure_def sec_Token_def wrapE_def
        redis_call_def Let_def r_setnx_def job_key_def)
qed

text \<open>
  \<open>MarkOnce\<close>, called again and again by anyone, with anything in between that leaves the marker's
  key alone: the times of the calls and their answers.
\<close>

primrec marks :: "env \<Rightarrow> string \<Rightarrow> int \<Rightarrow> (world \<Rightarrow> world) list \<Rightarrow> world \<Rightarrow> (int \<times> (gerr + bool)) list" where
  "marks E key ttl [] w = []"
| "marks E key ttl (g # gs) w =
     (e_now E (w_step (g w)), fst (MarkOnce E key ttl (g w))) # marks E key ttl gs (snd (MarkOnce E key ttl (g w)))"

definition wins :: "(int \<times> (gerr + bool)) list \<Rightarrow> int list" where
  "wins xs = map fst (filter (\<lambda>x. snd x = Inr True) xs)"

definition leaves_alone :: "string \<Rightarrow> (world \<Rightarrow> world) \<Rightarrow> bool" where
  "leaves_alone key g \<longleftrightarrow> (\<forall>w. w_redis (g w) key = w_redis w key \<and> w_step w \<le> w_step (g w))"

lemma MarkOnce_run:
  "w_step (snd (MarkOnce E key ttl w)) = Suc (w_step w)"
  "fst (MarkOnce E key ttl w) = Inr True \<Longrightarrow>
     r_get (e_now E (w_step w)) key (w_redis w) = None \<and>
     w_redis (snd (MarkOnce E key ttl w)) = r_set (e_now E (w_step w)) key (RStr ''done'') ttl (w_redis w)"
  "fst (MarkOnce E key ttl w) \<noteq> Inr True \<Longrightarrow> w_redis (snd (MarkOnce E key ttl w)) = w_redis w"
  by (auto simp: MarkOnce_def wrapE_def catchE_def redis_call_def Let_def r_setnx_def
      split: option.splits prod.splits sum.splits if_splits)

definition marked_until :: "env \<Rightarrow> string \<Rightarrow> int \<Rightarrow> world \<Rightarrow> bool" where
  "marked_until E key x w \<longleftrightarrow> (\<forall>t. e_now E (w_step w) \<le> t \<longrightarrow> t < x \<longrightarrow> r_get t key (w_redis w) \<noteq> None)"

lemma marked_later:
  "mono (e_now E) \<Longrightarrow> marked_until E key x w \<Longrightarrow> w_redis w' key = w_redis w key \<Longrightarrow> w_step w \<le> w_step w' \<Longrightarrow> marked_until E key x w'"
  by (auto simp: marked_until_def r_get_def dest: monoD)

lemma wins_after:
  assumes "mono (e_now E)" and "0 < ttl"
  shows "list_all (leaves_alone key) gs \<Longrightarrow> marked_until E key x w \<Longrightarrow> t \<in> set (wins (marks E key ttl gs w)) \<Longrightarrow> x \<le> t"
proof (induction gs arbitrary: w)
  case (Cons g gs)
  let ?w1 = "g w" and ?w2 = "snd (MarkOnce E key ttl (g w))"
  have w1: "marked_until E key x ?w1" using Cons.prems(1,2) by (auto simp: leaves_alone_def intro: marked_later [OF assms(1)])
  show ?case
  proof (cases "fst (MarkOnce E key ttl ?w1) = Inr True")
    case True
    have x: "x \<le> e_now E (w_step ?w1)"
      using w1 MarkOnce_run(2) [OF True] by (force simp: marked_until_def)
    have "marked_until E key x ?w2"
      using x monoD [OF assms(1), of "w_step ?w1" "w_step ?w2"] by (auto simp: marked_until_def MarkOnce_run(1))
    with x Cons True show ?thesis by (auto simp: wins_def)
  next
    case False
    have "marked_until E key x ?w2"
      by (rule marked_later [OF assms(1) w1]) (simp_all add: MarkOnce_run(1) MarkOnce_run(3) [OF False])
    with Cons False show ?thesis by (auto simp: wins_def)
  qed
qed (simp add: wins_def)

text \<open>
  Once per period: among any sequence of \<open>MarkOnce\<close> calls by any instances, with Redis failing
  at any of them, two answers that the work may be done lie at least the marker's TTL apart.
\<close>

theorem mark_once_wins:
  assumes "mono (e_now E)" and "0 < ttl" and "list_all (leaves_alone key) gs"
  shows "sorted_wrt (\<lambda>a b. a + ttl \<le> b) (wins (marks E key ttl gs w))"
  using assms(3)
proof (induction gs arbitrary: w)
  case (Cons g gs)
  let ?w1 = "g w" and ?w2 = "snd (MarkOnce E key ttl (g w))"
  have ih: "sorted_wrt (\<lambda>a b. a + ttl \<le> b) (wins (marks E key ttl gs ?w2))" using Cons by simp
  show ?case
  proof (cases "fst (MarkOnce E key ttl ?w1) = Inr True")
    case True
    have "marked_until E key (e_now E (w_step ?w1) + ttl) ?w2"
      using assms(2) by (auto simp: marked_until_def MarkOnce_run(2) [OF True] rs.get_put)
    then have "\<forall>t \<in> set (wins (marks E key ttl gs ?w2)). e_now E (w_step ?w1) + ttl \<le> t"
      using wins_after [OF assms(1,2)] Cons.prems by auto
    with ih True show ?thesis by (simp add: wins_def)
  qed (use ih in \<open>simp add: wins_def\<close>)
qed (simp add: wins_def)

section \<open>A worker at work\<close>

definition demo_job :: job where
  "demo_job = \<lparr>jb_Name = ''gc'', jb_Every = 60, jb_LeaseTTL = 120, jb_Mode = FailClosed, jb_Run = Some (ret ())\<rparr>"

lemma demo_registered: "Runner_Register (demo_job\<lparr>jb_LeaseTTL := 0\<rparr>) [] = Inr ([] @ [demo_job])"
  by (simp add: Runner_Register_def demo_job_def)

lemma demo_mono: "mono (e_now demo_env)"
  by (simp add: demo_env_def mono_def)

lemma demo_begin: "\<exists>l w. run_begin demo_env demo_job (demo_world empty_db) = (Inr (Start (Some l)), w) \<and> w_step w = 2"
  by (simp add: run_begin_def catchE_def Locker_Acquire_def andThen_def from_secure_def sec_Token_def wrapE_def
      redis_call_def Let_def r_setnx_def demo_env_def demo_world_def demo_job_def r_get_def)

lemma demo_cluster:
  "\<exists>l w. cluster_run demo_env demo_job (demo_world empty_db, \<lambda>_. None) (w, [0 \<mapsto> (Some l, 1700000000000121)]) \<and> w_step w = 2"
proof -
  obtain l w where run: "run_begin demo_env demo_job (demo_world empty_db) = (Inr (Start (Some l)), w)" "w_step w = 2"
    using demo_begin by blast
  have "cluster_step demo_env demo_job (demo_world empty_db, \<lambda>_. None)
      (w, (\<lambda>_. None)(0 \<mapsto> (Some l, e_now demo_env (Suc (w_step (demo_world empty_db))) + jb_LeaseTTL demo_job)))"
    by (rule cluster_step.begin_run [OF _ run(1)]) (simp_all add: token_unused_def)
  with run(2) show ?thesis by (auto simp: demo_env_def demo_world_def demo_job_def)
qed

lemma jobs_never_overlap_witness:
  "\<exists>l w. cluster_run demo_env demo_job (demo_world empty_db, \<lambda>_. None) (w, [0 \<mapsto> (Some l, 1700000000000121)]) \<and>
     (\<forall>j le y. [0 \<mapsto> (Some l, 1700000000000121)] j = Some (le, y) \<and> e_now demo_env (w_step w) < y \<longrightarrow> j = (0 :: nat))"
proof -
  obtain l w where c: "cluster_run demo_env demo_job (demo_world empty_db, \<lambda>_. None) (w, [0 \<mapsto> (Some l, 1700000000000121)])" "w_step w = 2"
    using demo_cluster by blast
  have "j = 0" if "[0 \<mapsto> (Some l, 1700000000000121)] j = Some (le, y)" "e_now demo_env (w_step w) < y" for j :: nat and le y
    by (rule jobs_never_overlap [OF _ demo_mono demo_registered _ c(1) that(1) _ that(2), of 0 "Some l" 1700000000000121])
      (simp_all add: demo_world_def demo_job_def demo_env_def c(2))
  with c(1) show ?thesis by blast
qed

lemma lease_frees_itself_witness:
  "\<exists>w l w2. run_begin demo_env demo_job (w\<lparr>w_step := 200\<rparr>) = (Inr (Start (Some l)), w2) \<and> le_key l = ''job:gc'' \<and> w_step w = 2"
proof -
  obtain l w where c: "cluster_run demo_env demo_job (demo_world empty_db, \<lambda>_. None) (w, [0 \<mapsto> (Some l, 1700000000000121)])" "w_step w = 2"
    using demo_cluster by blast
  have "\<exists>l w2. run_begin demo_env demo_job (w\<lparr>w_step := 200\<rparr>) = (Inr (Start (Some l)), w2) \<and> le_key l = job_key demo_job"
    by (rule lease_frees_itself [OF _ demo_mono demo_registered c(1) _ _ demo_faultless])
      (simp_all add: demo_world_def demo_job_def demo_env_def c(2))
  with c(2) show ?thesis by (auto simp: job_key_def demo_job_def)
qed

lemma mark_once_wins_witness:
  "sorted_wrt (\<lambda>a b. a + 3 \<le> b) (wins (marks demo_env ''report'' 3 [id, id, \<lambda>w. w\<lparr>w_step := w_step w + 10\<rparr>] (demo_world empty_db))) \<and>
   length (wins (marks demo_env ''report'' 3 [id, id, \<lambda>w. w\<lparr>w_step := w_step w + 10\<rparr>] (demo_world empty_db))) = 2"
proof
  show "sorted_wrt (\<lambda>a b. a + 3 \<le> b) (wins (marks demo_env ''report'' 3 [id, id, \<lambda>w. w\<lparr>w_step := w_step w + 10\<rparr>] (demo_world empty_db)))"
    by (rule mark_once_wins [OF demo_mono]) (simp_all add: leaves_alone_def)
  show "length (wins (marks demo_env ''report'' 3 [id, id, \<lambda>w. w\<lparr>w_step := w_step w + 10\<rparr>] (demo_world empty_db))) = 2"
    by (simp add: wins_def MarkOnce_def wrapE_def catchE_def redis_call_def Let_def r_setnx_def r_get_def r_set_def demo_env_def demo_world_def)
qed

end
