(* ===== verification/Config.thy ===== *)
theory Config
  imports GoStrings Complex_Main "HOL-Library.Signed_Division"
begin

text \<open>
  Configuration (\<^verbatim>\<open>platform/config\<close> of the core and the gateway, whose readers, dotenv loader and
  validation are the same files; \<^verbatim>\<open>platform/runtimeenv\<close>): the process environment is a map that the
  loader extends, the readers parse it, and \<open>Load\<close> collects every problem before it fails.
  Numbers are Go's 64-bit integers. \<^verbatim>\<open>strconv.ParseFloat\<close> and \<^verbatim>\<open>time.ParseDuration\<close>, which compute
  with floating point, are parameters; durations are in nanoseconds.
\<close>

unbundle bit_operations_syntax

type_synonym environ = "string \<rightharpoonup> string"

section \<open>Parsing numbers\<close>

text \<open>\<open>strconv.Atoi\<close> and \<open>ParseInt(s, 10, 64)\<close>: an optional sign, digits, and the range of an int64.\<close>

definition is_digit :: "char \<Rightarrow> bool" where
  "is_digit c \<longleftrightarrow> 48 \<le> byte_of c \<and> byte_of c \<le> 57"

definition max_int64 :: int where "max_int64 = 9223372036854775807"

definition Atoi :: "string \<Rightarrow> int option" where
  "Atoi s =
     (let neg = has_prefix s ''-''; ds = (if neg \<or> has_prefix s ''+'' then tl s else s) in
      if ds = [] \<or> \<not> list_all is_digit ds then None
      else let n = int (dec_val ds); v = (if neg then - n else n) in
        if - max_int64 - 1 \<le> v \<and> v \<le> max_int64 then Some v else None)"

definition ParseBool :: "string \<Rightarrow> bool option" where
  "ParseBool s =
     (if s \<in> {''1'', ''t'', ''T'', ''TRUE'', ''true'', ''True''} then Some True
      else if s \<in> {''0'', ''f'', ''F'', ''FALSE'', ''false'', ''False''} then Some False
      else None)"

datatype float64 = NaN | Inf bool | Finite rat

definition in_unit :: "float64 \<Rightarrow> bool" where
  "in_unit f = (case f of Finite q \<Rightarrow> 0 \<le> q \<and> q \<le> 1 | _ \<Rightarrow> False)"

record go_lib =
  gl_ParseFloat :: "string \<Rightarrow> float64 option"
  gl_ParseDuration :: "string \<Rightarrow> int option"

section \<open>Readers\<close>

definition Getenv :: "environ \<Rightarrow> string \<Rightarrow> string" where
  "Getenv m k = (case m k of None \<Rightarrow> [] | Some v \<Rightarrow> v)"

definition parsed :: "(string \<Rightarrow> 'a option) \<Rightarrow> environ \<Rightarrow> string \<Rightarrow> 'a \<Rightarrow> 'a" where
  "parsed parse m key fallback =
     (if Getenv m key \<noteq> [] then (case parse (Getenv m key) of None \<Rightarrow> fallback | Some n \<Rightarrow> n) else fallback)"

definition cfg_String :: "environ \<Rightarrow> string \<Rightarrow> string \<Rightarrow> string" where
  "cfg_String m key fallback = (if Getenv m key \<noteq> [] then Getenv m key else fallback)"

definition cfg_Int :: "environ \<Rightarrow> string \<Rightarrow> int \<Rightarrow> int" where
  "cfg_Int = parsed Atoi"

definition cfg_Int32 :: "environ \<Rightarrow> string \<Rightarrow> 32 word \<Rightarrow> 32 word" where
  "cfg_Int32 m key fallback =
     (let n = cfg_Int m key (sint fallback) in
      if n > sint (drop_bit 1 (NOT 0) :: 32 word) then drop_bit 1 (NOT 0)
      else if n < sint (NOT (drop_bit 1 (NOT 0)) :: 32 word) then NOT (drop_bit 1 (NOT 0))
      else word_of_int n)"

definition cfg_Bool :: "environ \<Rightarrow> string \<Rightarrow> bool \<Rightarrow> bool" where
  "cfg_Bool = parsed ParseBool"

definition cfg_Float64 :: "go_lib \<Rightarrow> environ \<Rightarrow> string \<Rightarrow> float64 \<Rightarrow> float64" where
  "cfg_Float64 L = parsed (gl_ParseFloat L)"

definition cfg_Duration :: "go_lib \<Rightarrow> environ \<Rightarrow> string \<Rightarrow> int \<Rightarrow> int" where
  "cfg_Duration L = parsed (gl_ParseDuration L)"

definition splitList :: "string \<Rightarrow> string list" where
  "splitList raw = (if raw = [] then [] else filter (\<lambda>t. t \<noteq> []) (map trim_space (split (CHR '','') raw)))"

section \<open>The dotenv loader\<close>

definition parseDotenvLine :: "string \<Rightarrow> (string \<times> string) option" where
  "parseDotenvLine line0 =
     (let line = trim_space line0 in
      if line = [] \<or> has_prefix line ''#'' then None
      else case cut (CHR ''='') (trim_prefix line ''export '') of
        None \<Rightarrow> None
      | Some (k, v) \<Rightarrow>
          let key = trim_space k; value = trim_space v in
          if key = [] then None
          else Some (key,
            if 2 \<le> length value \<and>
               ((hd value = CHR 0x22 \<and> last value = CHR 0x22) \<or> (hd value = CHR 0x27 \<and> last value = CHR 0x27))
            then butlast (tl value) else value))"

text \<open>
  \<open>bufio.Scanner\<close> with its default buffer: lines end at a newline, a carriage return before it is
  dropped, and a line that does not fit in 64 KiB stops the scan with an error. \<open>os.Setenv\<close>
  refuses a key or value with a zero byte.
\<close>

datatype env_file = Missing | Unreadable string | Contents string

definition drop_cr :: "string \<Rightarrow> string" where
  "drop_cr l = (if l \<noteq> [] \<and> last l = CHR 0x0D then butlast l else l)"

definition scan_lines :: "string \<Rightarrow> string list" where
  "scan_lines s = (let ls = split (CHR 0x0A) s in if last ls = [] then butlast ls else ls)"

definition too_long :: "string \<Rightarrow> bool" where
  "too_long l \<longleftrightarrow> 65536 \<le> length l"

definition Setenv :: "string \<Rightarrow> string \<Rightarrow> (environ, string, unit) act" where
  "Setenv k v =
     (if k = [] \<or> CHR ''='' \<in> set k \<or> CHR 0x00 \<in> set k \<or> CHR 0x00 \<in> set v
      then fail (''config: set '' @ k @ '': setenv: invalid argument'')
      else modify (\<lambda>m. m(k \<mapsto> v)))"

definition load_line :: "string \<Rightarrow> (environ, string, unit) act" where
  "load_line l =
     (case parseDotenvLine l of
        None \<Rightarrow> ret ()
      | Some (key, value) \<Rightarrow>
          andThen (reads (\<lambda>m. m key \<noteq> None)) (\<lambda>exists. if exists then ret () else Setenv key value))"

fun load_lines :: "string \<Rightarrow> string list \<Rightarrow> (environ, string, unit) act" where
  "load_lines path [] = ret ()"
| "load_lines path (l # ls) =
     (if too_long l then fail (''config: read '' @ path @ '': bufio.Scanner: token too long'')
      else andThen (load_line (drop_cr l)) (\<lambda>_. load_lines path ls))"

definition loadDotenvFile :: "(string \<Rightarrow> env_file) \<Rightarrow> string \<Rightarrow> (environ, string, unit) act" where
  "loadDotenvFile fs path =
     (case fs path of
        Missing \<Rightarrow> ret ()
      | Unreadable e \<Rightarrow> fail (''config: open '' @ path @ '': '' @ e)
      | Contents s \<Rightarrow> load_lines path (scan_lines s))"

definition LoadDotenv :: "(string \<Rightarrow> env_file) \<Rightarrow> string list \<Rightarrow> (environ, string, unit) act" where
  "LoadDotenv fs paths = forEach (if paths = [] then [''.env''] else paths) (loadDotenvFile fs)"

section \<open>Validation\<close>

type_synonym validation = "string list"

definition val_Require :: "string \<Rightarrow> string \<Rightarrow> validation \<Rightarrow> validation" where
  "val_Require envName value v =
     (if trim_space value = [] then v @ [''missing required environment variable '' @ envName] else v)"

definition val_Check :: "bool \<Rightarrow> string \<Rightarrow> validation \<Rightarrow> validation" where
  "val_Check ok problem v = (if \<not> ok then v @ [problem] else v)"

definition val_Err :: "validation \<Rightarrow> string option" where
  "val_Err v = (if v = [] then None else Some (''config: '' @ join ''; '' v))"

section \<open>The runtime's memory limit\<close>

text \<open>
  \<open>configureMemoryLimit\<close>: the limit handed to the runtime, if any, in 64-bit arithmetic. The file
  is \<^verbatim>\<open>/sys/fs/cgroup/memory.max\<close>.
\<close>

definition cgroupV2MemoryLimit :: "env_file \<Rightarrow> 64 word" where
  "cgroupV2MemoryLimit f =
     (case f of
        Contents s \<Rightarrow>
          (let text = trim_space s in
           if text = [] \<or> text = ''max'' then 0
           else case Atoi text of None \<Rightarrow> 0 | Some n \<Rightarrow> if n \<le> 0 then 0 else word_of_int n)
      | _ \<Rightarrow> 0)"

definition configureMemoryLimit :: "environ \<Rightarrow> env_file \<Rightarrow> 64 word option" where
  "configureMemoryLimit m f =
     (if Getenv m ''GOMEMLIMIT'' \<noteq> [] then None
      else case (if Getenv m ''MEMORY_LIMIT_MB'' = [] then None else Atoi (Getenv m ''MEMORY_LIMIT_MB'')) of
        Some mb \<Rightarrow>
          if mb > 0 then Some (word_of_int (sint (word_of_int mb * 1024 * 1024 * 9 :: 64 word) sdiv 10))
          else (let limit = cgroupV2MemoryLimit f in
                if sint limit > 0 then Some (word_of_int (sint (limit * 9) sdiv 10)) else None)
      | None \<Rightarrow>
          (let limit = cgroupV2MemoryLimit f in
           if sint limit > 0 then Some (word_of_int (sint (limit * 9) sdiv 10)) else None))"

section \<open>The services' configurations\<close>

record redis_cfg =
  rc_URL :: string
  rc_PoolSize :: int
  rc_MaxRetries :: int

record log_cfg =
  lc_Level :: string
  lc_JSON :: bool

record telemetry_cfg =
  tc_Enabled :: bool
  tc_Endpoint :: string
  tc_TraceSampleRatio :: float64

definition load_redis :: "environ \<Rightarrow> redis_cfg" where
  "load_redis m = \<lparr>rc_URL = cfg_String m ''REDIS_URL'' [], rc_PoolSize = cfg_Int m ''REDIS_POOL_SIZE'' 50,
     rc_MaxRetries = cfg_Int m ''REDIS_MAX_RETRIES'' 3\<rparr>"

definition load_log :: "environ \<Rightarrow> log_cfg" where
  "load_log m = \<lparr>lc_Level = cfg_String m ''LOG_LEVEL'' ''info'', lc_JSON = cfg_Bool m ''LOG_JSON'' False\<rparr>"

definition load_telemetry :: "go_lib \<Rightarrow> environ \<Rightarrow> telemetry_cfg" where
  "load_telemetry L m = \<lparr>tc_Enabled = cfg_Bool m ''OTEL_ENABLED'' False,
     tc_Endpoint = cfg_String m ''OTEL_ENDPOINT'' ''localhost:4317'',
     tc_TraceSampleRatio = cfg_Float64 L m ''OTEL_TRACE_SAMPLE_RATIO'' (Finite 1)\<rparr>"

definition ratio_problem :: string where
  "ratio_problem = ''OTEL_TRACE_SAMPLE_RATIO must be between 0.0 and 1.0''"

text \<open>The core's.\<close>

record core_cfg =
  cf_Env :: string
  cf_Name :: string
  cf_GRPCPort :: int
  cf_MetricsPort :: int
  cf_MaxRecvMessageBytes :: int
  cf_MaxConcurrentStreams :: "32 word"
  cf_HandlerTimeout :: int
  cf_TLSCertFile :: string
  cf_TLSKeyFile :: string
  cf_TLSClientCAFile :: string
  cf_WriteURL :: string
  cf_ReadURLs :: "string list"
  cf_MaxConns :: "32 word"
  cf_MinConns :: "32 word"
  cf_MaxConnLifetime :: int
  cf_MaxConnIdleTime :: int
  cf_Redis :: redis_cfg
  cf_NATSURL :: string
  cf_StreamReplicas :: int
  cf_PrivateKeyPEM :: string
  cf_PublicKeyPEM :: string
  cf_Issuer :: string
  cf_AccessTokenTTL :: int
  cf_RefreshTokenTTL :: int
  cf_Log :: log_cfg
  cf_Telemetry :: telemetry_cfg

definition core_IsProduction :: "core_cfg \<Rightarrow> bool" where
  "core_IsProduction c \<longleftrightarrow> cf_Env c = ''production''"

definition core_settings :: "go_lib \<Rightarrow> environ \<Rightarrow> core_cfg" where
  "core_settings L m =
     \<lparr>cf_Env = cfg_String m ''APP_ENV'' ''development'', cf_Name = cfg_String m ''APP_NAME'' ''core'',
      cf_GRPCPort = cfg_Int m ''GRPC_PORT'' 50051, cf_MetricsPort = cfg_Int m ''METRICS_PORT'' 9091,
      cf_MaxRecvMessageBytes = cfg_Int m ''GRPC_MAX_RECV_BYTES'' 4194304,
      cf_MaxConcurrentStreams = word_of_int (cfg_Int m ''GRPC_MAX_CONCURRENT_STREAMS'' 1000),
      cf_HandlerTimeout = cfg_Duration L m ''GRPC_HANDLER_TIMEOUT'' 30000000000,
      cf_TLSCertFile = cfg_String m ''GRPC_TLS_CERT_FILE'' [], cf_TLSKeyFile = cfg_String m ''GRPC_TLS_KEY_FILE'' [],
      cf_TLSClientCAFile = cfg_String m ''GRPC_TLS_CLIENT_CA_FILE'' [],
      cf_WriteURL = cfg_String m ''DB_WRITE_URL'' [], cf_ReadURLs = splitList (cfg_String m ''DB_READ_URLS'' []),
      cf_MaxConns = cfg_Int32 m ''DB_MAX_CONNS'' 0, cf_MinConns = cfg_Int32 m ''DB_MIN_CONNS'' 5,
      cf_MaxConnLifetime = cfg_Duration L m ''DB_MAX_CONN_LIFETIME'' 1800000000000,
      cf_MaxConnIdleTime = cfg_Duration L m ''DB_MAX_CONN_IDLE_TIME'' 300000000000,
      cf_Redis = load_redis m,
      cf_NATSURL = cfg_String m ''NATS_URL'' [], cf_StreamReplicas = cfg_Int m ''NATS_STREAM_REPLICAS'' 1,
      cf_PrivateKeyPEM = cfg_String m ''JWT_PRIVATE_KEY_PEM'' [], cf_PublicKeyPEM = cfg_String m ''JWT_PUBLIC_KEY_PEM'' [],
      cf_Issuer = cfg_String m ''JWT_ISSUER'' ''lynk'',
      cf_AccessTokenTTL = cfg_Duration L m ''JWT_ACCESS_TTL'' 900000000000,
      cf_RefreshTokenTTL = cfg_Duration L m ''JWT_REFRESH_TTL'' 604800000000000,
      cf_Log = load_log m, cf_Telemetry = load_telemetry L m\<rparr>"

definition core_problems :: "core_cfg \<Rightarrow> validation" where
  "core_problems c =
     (let v = val_Require ''NATS_URL'' (cf_NATSURL c)
                (val_Require ''REDIS_URL'' (rc_URL (cf_Redis c)) (val_Require ''DB_WRITE_URL'' (cf_WriteURL c) []));
          v = (if core_IsProduction c
               then val_Require ''JWT_PUBLIC_KEY_PEM'' (cf_PublicKeyPEM c) (val_Require ''JWT_PRIVATE_KEY_PEM'' (cf_PrivateKeyPEM c) v)
               else v)
      in val_Check (in_unit (tc_TraceSampleRatio (cf_Telemetry c))) ratio_problem v)"

definition core_Load :: "go_lib \<Rightarrow> (string \<Rightarrow> env_file) \<Rightarrow> (environ, string, core_cfg) act" where
  "core_Load L fs =
     andThen (LoadDotenv fs []) (\<lambda>_.
     andThen (reads (core_settings L)) (\<lambda>cfg.
       case val_Err (core_problems cfg) of Some err \<Rightarrow> fail err | None \<Rightarrow> ret cfg))"

text \<open>The gateway's.\<close>

record internal_tls =
  it_CertFile :: string
  it_KeyFile :: string
  it_CAFile :: string

definition tls_Enabled :: "internal_tls \<Rightarrow> bool" where
  "tls_Enabled t \<longleftrightarrow> it_CertFile t \<noteq> [] \<and> it_KeyFile t \<noteq> [] \<and> it_CAFile t \<noteq> []"

definition tls_partial :: "internal_tls \<Rightarrow> bool" where
  "tls_partial t \<longleftrightarrow> (let set = length (filter (\<lambda>v. v \<noteq> []) [it_CertFile t, it_KeyFile t, it_CAFile t]) in set > 0 \<and> set < 3)"

record gateway_cfg =
  gw_Env :: string
  gw_Name :: string
  gw_HTTPPort :: int
  gw_MetricsPort :: int
  gw_ReadTimeout :: int
  gw_ReadHeaderTimeout :: int
  gw_WriteTimeout :: int
  gw_IdleTimeout :: int
  gw_MaxHeaderBytes :: int
  gw_MaxBodyBytes :: int
  gw_HandlerTimeout :: int
  gw_TLSCertFile :: string
  gw_TLSKeyFile :: string
  gw_AllowedOrigins :: "string list"
  gw_GlobalPerSecond :: int
  gw_PerIPPerMinute :: int
  gw_Core :: string
  gw_TLS :: internal_tls
  gw_PublicKeyPEM :: string
  gw_Issuer :: string
  gw_Redis :: redis_cfg
  gw_Log :: log_cfg
  gw_Telemetry :: telemetry_cfg

definition gateway_IsProduction :: "gateway_cfg \<Rightarrow> bool" where
  "gateway_IsProduction c \<longleftrightarrow> gw_Env c = ''production''"

definition gateway_settings :: "go_lib \<Rightarrow> environ \<Rightarrow> gateway_cfg" where
  "gateway_settings L m =
     \<lparr>gw_Env = cfg_String m ''APP_ENV'' ''development'', gw_Name = cfg_String m ''APP_NAME'' ''gateway'',
      gw_HTTPPort = cfg_Int m ''HTTP_PORT'' 8080, gw_MetricsPort = cfg_Int m ''METRICS_PORT'' 9090,
      gw_ReadTimeout = cfg_Duration L m ''HTTP_READ_TIMEOUT'' 10000000000,
      gw_ReadHeaderTimeout = cfg_Duration L m ''HTTP_READ_HEADER_TIMEOUT'' 5000000000,
      gw_WriteTimeout = cfg_Duration L m ''HTTP_WRITE_TIMEOUT'' 30000000000,
      gw_IdleTimeout = cfg_Duration L m ''HTTP_IDLE_TIMEOUT'' 120000000000,
      gw_MaxHeaderBytes = cfg_Int m ''HTTP_MAX_HEADER_BYTES'' 1048576, gw_MaxBodyBytes = cfg_Int m ''HTTP_MAX_BODY_BYTES'' 10485760,
      gw_HandlerTimeout = cfg_Duration L m ''HTTP_HANDLER_TIMEOUT'' 30000000000,
      gw_TLSCertFile = cfg_String m ''HTTP_TLS_CERT_FILE'' [], gw_TLSKeyFile = cfg_String m ''HTTP_TLS_KEY_FILE'' [],
      gw_AllowedOrigins = splitList (cfg_String m ''CORS_ALLOWED_ORIGINS'' ''http://localhost:5173,http://localhost:3000''),
      gw_GlobalPerSecond = cfg_Int m ''RATE_LIMIT_GLOBAL_PER_SECOND'' 10000, gw_PerIPPerMinute = cfg_Int m ''RATE_LIMIT_PER_IP_PER_MINUTE'' 600,
      gw_Core = cfg_String m ''UPSTREAM_CORE'' ''localhost:50051'',
      gw_TLS = \<lparr>it_CertFile = cfg_String m ''INTERNAL_TLS_CERT_FILE'' [], it_KeyFile = cfg_String m ''INTERNAL_TLS_KEY_FILE'' [],
        it_CAFile = cfg_String m ''INTERNAL_TLS_CA_FILE'' []\<rparr>,
      gw_PublicKeyPEM = cfg_String m ''JWT_PUBLIC_KEY_PEM'' [], gw_Issuer = cfg_String m ''JWT_ISSUER'' ''lynk'',
      gw_Redis = load_redis m, gw_Log = load_log m, gw_Telemetry = load_telemetry L m\<rparr>"

definition gateway_problems :: "gateway_cfg \<Rightarrow> validation" where
  "gateway_problems c =
     (let v = val_Require ''UPSTREAM_CORE'' (gw_Core c) (val_Require ''REDIS_URL'' (rc_URL (gw_Redis c)) []);
          v = (if gateway_IsProduction c then val_Require ''JWT_PUBLIC_KEY_PEM'' (gw_PublicKeyPEM c) v else v);
          v = val_Check (\<not> tls_partial (gw_TLS c))
                ''INTERNAL_TLS_CERT_FILE, INTERNAL_TLS_KEY_FILE, INTERNAL_TLS_CA_FILE must be set together or not at all'' v
      in val_Check (in_unit (tc_TraceSampleRatio (gw_Telemetry c))) ratio_problem v)"

definition gateway_Load :: "go_lib \<Rightarrow> (string \<Rightarrow> env_file) \<Rightarrow> (environ, string, gateway_cfg) act" where
  "gateway_Load L fs =
     andThen (LoadDotenv fs []) (\<lambda>_.
     andThen (reads (gateway_settings L)) (\<lambda>cfg.
       case val_Err (gateway_problems cfg) of Some err \<Rightarrow> fail err | None \<Rightarrow> ret cfg))"

end
