(* ===== verification/ConfigFacts.thy ===== *)
theory ConfigFacts
  imports Config
begin

text \<open>
  What the configuration guarantees: the environment wins over files, files read back as they
  were written, start-up names every problem at once, and numbers stay in their ranges.
\<close>

section \<open>The environment and the files\<close>

text \<open>The pairs the files define, in order.\<close>

definition line_pairs :: "string list \<Rightarrow> (string \<times> string) list" where
  "line_pairs ls = List.map_filter (\<lambda>l. parseDotenvLine (drop_cr l)) ls"

definition file_pairs :: "(string \<Rightarrow> env_file) \<Rightarrow> string \<Rightarrow> (string \<times> string) list" where
  "file_pairs fs path = (case fs path of Contents s \<Rightarrow> line_pairs (scan_lines s) | _ \<Rightarrow> [])"

lemma Setenv_cases: "Setenv k v m = (Inr (), m(k \<mapsto> v)) \<or> (\<exists>e. Setenv k v m = (Inl e, m))"
  by (auto simp: Setenv_def)

lemma load_line_cases:
  "(load_line l m = (Inr (), (case parseDotenvLine l of None \<Rightarrow> m | Some (k, v) \<Rightarrow> [k \<mapsto> v] ++ m))) \<or>
   (\<exists>e. load_line l m = (Inl e, m))"
proof (cases "parseDotenvLine l")
  case (Some kv)
  obtain k v where kv: "kv = (k, v)" by fastforce
  have "m k \<noteq> None \<Longrightarrow> [k \<mapsto> v] ++ m = m" by (auto simp: map_add_def fun_eq_iff split: option.splits)
  moreover have "m k = None \<Longrightarrow> [k \<mapsto> v] ++ m = m(k \<mapsto> v)" by (auto simp: map_add_def fun_eq_iff split: option.splits)
  ultimately show ?thesis using Setenv_cases [of k v m] by (auto simp: load_line_def Some kv)
qed (simp add: load_line_def)

lemma map_le_add: "m \<subseteq>\<^sub>m f ++ m"
  by (simp add: map_le_map_add)

lemma load_lines_result:
  "m \<subseteq>\<^sub>m snd (load_lines p ls m) \<and>
   (fst (load_lines p ls m) = Inr () \<longrightarrow> snd (load_lines p ls m) = map_of (line_pairs ls) ++ m)"
proof (induction ls arbitrary: m)
  case (Cons l ls)
  show ?case
  proof (cases "too_long l")
    case False
    consider (ok) "load_line (drop_cr l) m = (Inr (), (case parseDotenvLine (drop_cr l) of None \<Rightarrow> m | Some (k, v) \<Rightarrow> [k \<mapsto> v] ++ m))"
      | (bad) e where "load_line (drop_cr l) m = (Inl e, m)"
      using load_line_cases by blast
    then show ?thesis
    proof cases
      case ok
      show ?thesis
      proof (cases "parseDotenvLine (drop_cr l)")
        case None
        with ok Cons False show ?thesis by (simp add: line_pairs_def map_filter_simps)
      next
        case (Some kv)
        obtain k v where kv: "kv = (k, v)" by fastforce
        let ?m = "[k \<mapsto> v] ++ m"
        have "m \<subseteq>\<^sub>m snd (load_lines p ls ?m)"
          using map_le_trans [of m ?m] map_le_add [of m "[k \<mapsto> v]"] Cons.IH [of ?m] by blast
        moreover have "map_of (line_pairs ls) ++ ?m = map_of ((k, v) # line_pairs ls) ++ m"
          by (auto simp: map_add_def fun_eq_iff split: option.splits)
        ultimately show ?thesis using ok Some kv Cons.IH [of ?m] False
          by (simp add: line_pairs_def map_filter_simps fun_upd_def del: map_add_assoc)
      qed
    qed (simp add: False)
  qed simp
qed (simp add: line_pairs_def map_filter_simps)

lemma loadDotenvFile_result:
  "m \<subseteq>\<^sub>m snd (loadDotenvFile fs p m) \<and>
   (fst (loadDotenvFile fs p m) = Inr () \<longrightarrow> snd (loadDotenvFile fs p m) = map_of (file_pairs fs p) ++ m)"
  using load_lines_result by (cases "fs p") (simp_all add: loadDotenvFile_def file_pairs_def)

lemma map_of_later: "map_of ys ++ (map_of xs ++ m) = map_of (xs @ ys) ++ m"
  by (simp add: map_add_assoc)

lemma files_result:
  "m \<subseteq>\<^sub>m snd (forEach ps (loadDotenvFile fs) m) \<and>
   (fst (forEach ps (loadDotenvFile fs) m) = Inr () \<longrightarrow>
      snd (forEach ps (loadDotenvFile fs) m) = map_of (concat (map (file_pairs fs) ps)) ++ m)"
proof (induction ps arbitrary: m)
  case (Cons p ps)
  obtain r m1 where m1: "loadDotenvFile fs p m = (r, m1)" by fastforce
  show ?case
  proof (cases r)
    case (Inl e)
    with m1 loadDotenvFile_result [of m fs p] show ?thesis by simp
  next
    case (Inr u)
    with m1 loadDotenvFile_result [of m fs p] have *: "m \<subseteq>\<^sub>m m1" "m1 = map_of (file_pairs fs p) ++ m" by simp_all
    have "m \<subseteq>\<^sub>m snd (forEach ps (loadDotenvFile fs) m1)"
      using map_le_trans [OF *(1)] Cons.IH [of m1] by blast
    with m1 Inr Cons.IH [of m1] show ?thesis by (simp add: *(2) map_add_assoc del: map_of_append) (simp add: map_of_later)
  qed
qed simp

section \<open>Text and numbers\<close>

lemma trim_space_ascii:
  assumes "s \<noteq> []" and "byte_of (hd s) < 128" "\<not> is_space (byte_of (hd s))" and "byte_of (last s) < 128" "\<not> is_space (byte_of (last s))"
  shows "trim_space s = s"
proof -
  have "fst (decode_rune s) = byte_of (hd s)" using assms(1,2) by (cases s) (simp_all add: decode_rune.simps(2))
  then have "trim_left s = s" using assms(3) by (intro trim_left_stop) simp
  moreover have "fst (decode_last_rune s) = byte_of (last s)" using assms(1,4) by (simp add: decode_last_rune_def)
  then have "trim_right s = s" using assms(5) by (intro trim_right_stop) simp
  ultimately show ?thesis by (simp add: trim_space_def)
qed

lemma dec_text_digits: "list_all is_digit (nat_dec n)"
  by (simp add: list_all_iff is_digit_def nat_dec_chars)

lemma dec_text_nonempty [simp]: "nat_dec n \<noteq> []"
  by (subst nat_dec.simps) simp

lemma digit_start: "list_all is_digit s \<Longrightarrow> \<not> has_prefix s ''-'' \<and> \<not> has_prefix s ''+''"
  by (cases s) (auto simp: is_digit_def byte_of_def)

lemma Atoi_nat_dec: "int n \<le> max_int64 \<Longrightarrow> Atoi (nat_dec n) = Some (int n)"
  using dec_text_digits [of n] digit_start [of "nat_dec n"] by (simp add: Atoi_def Let_def dec_val_nat_dec max_int64_def)

section \<open>Lines as they are written\<close>

text \<open>A key of letters, digits and underscores, and a value without line breaks or zero bytes.\<close>

definition key_char :: "char \<Rightarrow> bool" where
  "key_char c \<longleftrightarrow> is_digit c \<or> c = CHR ''_'' \<or> (65 \<le> byte_of c \<and> byte_of c \<le> 90) \<or> (97 \<le> byte_of c \<and> byte_of c \<le> 122)"

definition writable :: "string \<times> string \<Rightarrow> bool" where
  "writable kv \<longleftrightarrow> fst kv \<noteq> [] \<and> list_all key_char (fst kv) \<and> CHR 0x0A \<notin> set (snd kv) \<and> CHR 0x00 \<notin> set (snd kv) \<and>
     length (fst kv) + length (snd kv) < 65533"

definition render :: "string \<times> string \<Rightarrow> string" where
  "render kv = fst kv @ ''='' @ [CHR 0x22] @ snd kv @ [CHR 0x22]"

lemma key_char_facts:
  assumes "key_char c"
  shows "byte_of c < 128" "\<not> is_space (byte_of c)" "c \<noteq> CHR ''=''" "c \<noteq> CHR ''#''" "c \<noteq> CHR 0x0A" "c \<noteq> CHR 0x0D" "c \<noteq> CHR '' ''" "c \<noteq> CHR 0x00"
proof -
  have b: "byte_of CHR ''_'' = 95" "byte_of CHR ''='' = 61" "byte_of CHR ''#'' = 35" "byte_of CHR 0x0A = 10" "byte_of CHR 0x0D = 13"
    "byte_of CHR '' '' = 32" "byte_of CHR 0x00 = 0" by (simp_all add: byte_of_def)
  show "byte_of c < 128" "\<not> is_space (byte_of c)" using assms b by (auto simp: key_char_def is_digit_def is_space_def)
  show "c \<noteq> CHR ''=''" "c \<noteq> CHR ''#''" "c \<noteq> CHR 0x0A" "c \<noteq> CHR 0x0D" "c \<noteq> CHR '' ''" "c \<noteq> CHR 0x00"
    using assms b by (auto simp: key_char_def is_digit_def)
qed

lemma no_export: "list_all (\<lambda>c. c \<noteq> CHR '' '') k \<Longrightarrow> \<not> has_prefix (k @ CHR ''='' # t) ''export ''"
proof
  assume k: "list_all (\<lambda>c. c \<noteq> CHR '' '') k" and "has_prefix (k @ CHR ''='' # t) ''export ''"
  then obtain u where u: "k @ CHR ''='' # t = ''export'' @ CHR '' '' # u" by (auto simp: has_prefix_iff)
  show False
  proof (cases "length k \<le> 6")
    case True
    then have "CHR ''='' = (''export'' @ CHR '' '' # u) ! length k" using u by (metis nth_append_length)
    moreover have "length k = 0 \<or> length k = 1 \<or> length k = 2 \<or> length k = 3 \<or> length k = 4 \<or> length k = 5 \<or> length k = 6"
      using True by arith
    ultimately show False by auto
  next
    case False
    then have "k ! 6 = (k @ CHR ''='' # t) ! 6" by (simp add: nth_append)
    then have "k ! 6 = CHR '' ''" by (simp add: u)
    moreover have "k ! 6 \<in> set k" using False by simp
    ultimately show False using k by (auto simp: list_all_iff)
  qed
qed

lemma parse_render:
  assumes "writable kv"
  shows "parseDotenvLine (render kv) = Some kv"
proof -
  obtain k v where kv: "kv = (k, v)" by fastforce
  have k: "k \<noteq> []" "list_all key_char k" using assms by (simp_all add: writable_def kv)
  then have hd: "key_char (hd k)" and last: "key_char (last k)" by (cases k; simp add: list_all_iff)+
  note kf = key_char_facts [OF hd] and kl = key_char_facts [OF last]
  have q: "byte_of CHR 0x22 = 34" by (simp add: byte_of_def)
  have line: "trim_space (render kv) = render kv"
    using k(1) kf q by (intro trim_space_ascii) (simp_all add: render_def kv is_space_def)
  have key: "trim_space k = k" using k(1) kf kl by (intro trim_space_ascii) simp_all
  have val: "trim_space ([CHR 0x22] @ v @ [CHR 0x22]) = [CHR 0x22] @ v @ [CHR 0x22]"
    using q by (intro trim_space_ascii) (simp_all add: is_space_def)
  have "list_all (\<lambda>c. c \<noteq> CHR '' '') k" using k(2) key_char_facts(7) by (auto simp: list_all_iff)
  from no_export [OF this] have exp: "trim_prefix (render kv) ''export '' = render kv"
    by (simp add: trim_prefix_def render_def kv)
  have "\<not> has_prefix (render kv) ''#''" using k(1) kf(4) by (cases k) (simp_all add: render_def kv)
  moreover have "CHR ''='' \<notin> set k" using k(2) key_char_facts(3) by (auto simp: list_all_iff)
  then have "cut (CHR ''='') (render kv) = Some (k, [CHR 0x22] @ v @ [CHR 0x22])" by (simp add: render_def kv cut_append)
  moreover have "render kv \<noteq> []" using k(1) by (simp add: render_def kv)
  ultimately show ?thesis
    using k(1) line exp val [simplified] unfolding kv by (simp add: parseDotenvLine_def key Let_def) 
qed

text \<open>A file of such lines.\<close>

definition render_file :: "(string \<times> string) list \<Rightarrow> string" where
  "render_file kvs = concat (map (\<lambda>kv. render kv @ [CHR 0x0A]) kvs)"

lemma split_line: "d \<notin> set l \<Longrightarrow> split d (l @ d # s) = l # split d s"
  by (induction l) auto

lemma writable_line:
  assumes "writable kv"
  shows "CHR 0x0A \<notin> set (render kv)" and "\<not> too_long (render kv)" and "drop_cr (render kv) = render kv"
proof -
  have "CHR 0x0A \<notin> set (fst kv)" using assms key_char_facts(5) by (auto simp: writable_def list_all_iff)
  with assms show "CHR 0x0A \<notin> set (render kv)" by (auto simp: writable_def render_def)
  from assms show "\<not> too_long (render kv)" by (simp add: writable_def render_def too_long_def)
  show "drop_cr (render kv) = render kv" by (simp add: drop_cr_def render_def)
qed

lemma scan_render: "list_all writable kvs \<Longrightarrow> scan_lines (render_file kvs) = map render kvs"
proof -
  assume w: "list_all writable kvs"
  have "split (CHR 0x0A) (render_file kvs) = map render kvs @ [[]]"
    using w by (induction kvs) (simp_all add: render_file_def split_line writable_line)
  then show ?thesis by (simp add: scan_lines_def Let_def)
qed

lemma load_rendered:
  "list_all writable kvs \<Longrightarrow> load_lines p (map render kvs) m = (Inr (), map_of kvs ++ m)"
proof (induction kvs arbitrary: m)
  case (Cons kv kvs)
  obtain k v where kv: "kv = (k, v)" by fastforce
  have w: "writable (k, v)" using Cons.prems kv by simp
  have "CHR ''='' \<notin> set k" "CHR 0x00 \<notin> set k" "k \<noteq> []" "CHR 0x00 \<notin> set v"
    using w key_char_facts(3,8) by (auto simp: writable_def list_all_iff)
  then have "load_line (render kv) m = (Inr (), [k \<mapsto> v] ++ m)"
    using parse_render [OF w] load_line_cases [of "render kv" m] by (auto simp: load_line_def kv Setenv_def)
  moreover have "load_lines p (map render kvs) ([k \<mapsto> v] ++ m) = (Inr (), map_of kvs ++ ([k \<mapsto> v] ++ m))"
    using Cons by simp
  moreover have "map_of kvs ++ ([k \<mapsto> v] ++ m) = map_of (kv # kvs) ++ m"
    by (auto simp: kv map_add_def fun_eq_iff split: option.splits)
  ultimately show ?case
    using writable_line [OF w] kv by (simp del: map_add_assoc map_of.simps)
qed simp

section \<open>Properties\<close>

text \<open>
  The environment wins. Whatever the files hold, and also when loading fails half way, no
  variable that was set keeps any other value than its own; and when loading succeeds each
  other variable has the value of the first line, in the order of the files, that defines it.
\<close>

theorem dotenv_never_overrides:
  "m \<subseteq>\<^sub>m snd (LoadDotenv fs paths m) \<and>
   (if fst (LoadDotenv fs paths m) = Inr ()
    then snd (LoadDotenv fs paths m) = map_of (concat (map (file_pairs fs) (if paths = [] then [''.env''] else paths))) ++ m
    else True)"
  using files_result [of m "if paths = [] then [''.env''] else paths" fs] by (simp add: LoadDotenv_def)

text \<open>
  Files read back as they were written. Variables written one per line, each value between
  double quotes, load into exactly those variables, whatever spaces, quotes, hash or equals
  signs the values hold; the first of several lines for a key counts.
\<close>

theorem dotenv_roundtrip:
  assumes "list_all writable kvs"
  shows "LoadDotenv (\<lambda>_. Contents (render_file kvs)) [p] m = (Inr (), map_of kvs ++ m)"
  using load_rendered [OF assms, of p m] by (simp add: LoadDotenv_def loadDotenvFile_def scan_render [OF assms])

text \<open>
  \<open>Int32\<close> is the integer that \<open>Int\<close> reads, clamped to the range of an int32: no configured
  number wraps around.
\<close>

theorem int32_clamped:
  "sint (cfg_Int32 m key fallback) = max (- 2147483648) (min 2147483647 (cfg_Int m key (sint fallback)))"
proof -
  have c: "sint (drop_bit 1 (NOT 0) :: 32 word) = 2147483647" "sint (NOT (drop_bit 1 (NOT 0)) :: 32 word) = - 2147483648"
    by code_simp+
  have w: "sint (word_of_int n :: 32 word) = n" if "- 2147483648 \<le> n" "n \<le> 2147483647" for n
    using that by (simp add: signed_of_int signed_take_bit_int_eq_self)
  show ?thesis
    by (simp only: cfg_Int32_def Let_def c if_distrib [of sint]) (auto simp: w)
qed

text \<open>
  The memory limit is nine tenths of the configured megabytes, computed without overflow up
  to 977343669134 of them, and below the hard limit.
\<close>

theorem memory_limit_exact:
  assumes "Getenv m ''GOMEMLIMIT'' = []" and "Getenv m ''MEMORY_LIMIT_MB'' = nat_dec mb" and "0 < mb" and "mb \<le> 977343669134"
  shows "\<exists>w. configureMemoryLimit m f = Some w \<and> sint w = int mb * 1048576 * 9 div 10 \<and> 0 < sint w \<and> sint w < int mb * 1048576"
proof -
  let ?n = "int mb * 9437184"
  have n: "0 < ?n" "?n < 9223372036854775808" using assms(3,4) by simp_all
  have a: "Atoi (nat_dec mb) = Some (int mb)" using assms(4) by (intro Atoi_nat_dec) (simp add: max_int64_def)
  have s: "sint (word_of_int k :: 64 word) = k" if "0 \<le> k" "k < 9223372036854775808" for k
    using that by (simp add: signed_of_int signed_take_bit_int_eq_self)
  have "(word_of_int (int mb) * 1024 * 1024 * 9 :: 64 word) = word_of_int ?n" by simp
  moreover have "sint (word_of_int ?n :: 64 word) = ?n" using n by (intro s) simp_all
  moreover have "?n sdiv 10 = ?n div 10" using n by (simp add: signed_divide_int_def)
  ultimately have e: "sint (word_of_int (int mb) * 1024 * 1024 * 9 :: 64 word) sdiv 10 = ?n div 10" by presburger
  have "configureMemoryLimit m f = Some (word_of_int (sint (word_of_int (int mb) * 1024 * 1024 * 9 :: 64 word) sdiv 10))"
    using a assms(1-3) by (simp add: configureMemoryLimit_def)
  then have "configureMemoryLimit m f = Some (word_of_int (?n div 10))" by (simp only: e)
  moreover have "sint (word_of_int (?n div 10) :: 64 word) = ?n div 10" using n by (intro s) (simp_all add: div_less_dividend)
  moreover define q where "q = ?n div 10"
  then have "10 * q \<le> ?n" "?n < 10 * q + 10" by linarith+
  then have "0 < q" "q < int mb * 1048576" using assms(3) by linarith+
  moreover have "int mb * 1048576 * 9 = ?n" by simp
  ultimately show ?thesis by (intro exI [of _ "word_of_int q"]) (simp only: q_def simp_thms)
qed

text \<open>Above that the product wraps around: the limit that is set is negative, which the runtime ignores.\<close>

lemma memory_limit_wraps:
  "sint (word_of_int (sint (word_of_int 977343669135 * 1024 * 1024 * 9 :: 64 word) sdiv 10) :: 64 word) < 0"
  by code_simp

text \<open>What start-up demands of the core, in the order it is checked, and of the gateway.\<close>

definition blank :: "string \<Rightarrow> bool" where
  "blank s \<longleftrightarrow> trim_space s = []"

definition missing_var :: "string \<Rightarrow> string" where
  "missing_var name = ''missing required environment variable '' @ name"

definition core_demands :: "core_cfg \<Rightarrow> (bool \<times> string) list" where
  "core_demands c =
     [(\<not> blank (cf_WriteURL c), missing_var ''DB_WRITE_URL''),
      (\<not> blank (rc_URL (cf_Redis c)), missing_var ''REDIS_URL''),
      (\<not> blank (cf_NATSURL c), missing_var ''NATS_URL''),
      (cf_Env c = ''production'' \<longrightarrow> \<not> blank (cf_PrivateKeyPEM c), missing_var ''JWT_PRIVATE_KEY_PEM''),
      (cf_Env c = ''production'' \<longrightarrow> \<not> blank (cf_PublicKeyPEM c), missing_var ''JWT_PUBLIC_KEY_PEM''),
      (in_unit (tc_TraceSampleRatio (cf_Telemetry c)), ratio_problem)]"

definition gateway_demands :: "gateway_cfg \<Rightarrow> (bool \<times> string) list" where
  "gateway_demands c =
     [(\<not> blank (rc_URL (gw_Redis c)), missing_var ''REDIS_URL''),
      (\<not> blank (gw_Core c), missing_var ''UPSTREAM_CORE''),
      (gw_Env c = ''production'' \<longrightarrow> \<not> blank (gw_PublicKeyPEM c), missing_var ''JWT_PUBLIC_KEY_PEM''),
      (tls_Enabled (gw_TLS c) \<or> gw_TLS c = \<lparr>it_CertFile = [], it_KeyFile = [], it_CAFile = []\<rparr>,
         ''INTERNAL_TLS_CERT_FILE, INTERNAL_TLS_KEY_FILE, INTERNAL_TLS_CA_FILE must be set together or not at all''),
      (in_unit (tc_TraceSampleRatio (gw_Telemetry c)), ratio_problem)]"

definition broken :: "(bool \<times> string) list \<Rightarrow> string list" where
  "broken ds = map snd (filter (\<lambda>d. \<not> fst d) ds)"

lemma core_problems_broken: "core_problems c = broken (core_demands c)"
  by (simp add: core_problems_def broken_def core_demands_def Let_def val_Require_def val_Check_def core_IsProduction_def
      missing_var_def blank_def)

lemma partial_iff: "tls_partial t \<longleftrightarrow> \<not> (tls_Enabled t \<or> t = \<lparr>it_CertFile = [], it_KeyFile = [], it_CAFile = []\<rparr>)"
  by (cases t) (simp add: tls_partial_def tls_Enabled_def Let_def)

lemma gateway_problems_broken: "gateway_problems c = broken (gateway_demands c)"
  by (simp add: gateway_problems_def broken_def gateway_demands_def Let_def val_Require_def val_Check_def gateway_IsProduction_def
      missing_var_def blank_def partial_iff)


section \<open>Concrete environments\<close>

definition demo_lib :: go_lib where
  "demo_lib = \<lparr>gl_ParseFloat = (\<lambda>s. None), gl_ParseDuration = (\<lambda>s. None)\<rparr>"

lemma dotenv_roundtrip_witness:
  "LoadDotenv (\<lambda>_. Contents (render_file [(''A_1'', '' x = #'' @ [CHR 0x22]), (''B'', []), (''A_1'', ''y'')])) [''.env''] [''B'' \<mapsto> ''z''] =
     (Inr (), [''A_1'' \<mapsto> '' x = #'' @ [CHR 0x22], ''B'' \<mapsto> ''z''])"
proof -
  have "list_all writable [(''A_1'', '' x = #'' @ [CHR 0x22]), (''B'', []), (''A_1'', ''y'')]"
    by (simp add: writable_def key_char_def is_digit_def byte_of_def)
  note dotenv_roundtrip [OF this, of "''.env''" "[''B'' \<mapsto> ''z'']"]
  moreover have "map_of [(''A_1'', '' x = #'' @ [CHR 0x22]), (''B'', []), (''A_1'', ''y'')] ++ [''B'' \<mapsto> ''z''] =
      [''A_1'' \<mapsto> '' x = #'' @ [CHR 0x22], ''B'' \<mapsto> ''z'']"
    by (auto simp: fun_eq_iff map_add_def)
  ultimately show ?thesis by simp
qed

lemma memory_limit_exact_witness:
  "\<exists>w. configureMemoryLimit [''MEMORY_LIMIT_MB'' \<mapsto> ''512''] Missing = Some w \<and> sint w = 483183820"
proof -
  have d: "nat_dec 512 = ''512''" by code_simp
  have "Getenv [''MEMORY_LIMIT_MB'' \<mapsto> ''512''] ''GOMEMLIMIT'' = []" "Getenv [''MEMORY_LIMIT_MB'' \<mapsto> ''512''] ''MEMORY_LIMIT_MB'' = nat_dec 512"
    by (simp_all add: Getenv_def d)
  from memory_limit_exact [OF this, of Missing] show ?thesis by auto
qed


end
