(* ===== verification/Authz.thy ===== *)
theory Authz
  imports NotesFacts "HOL-Library.List_Lexorder" "HOL-Library.Char_ord"
begin

text \<open>
  The authorization module (\<^verbatim>\<open>modules/authz\<close>): policies as rows, the checker with its in-process
  cache of compiled policies, and the admin handlers. CEL is a parameter: what compiles, and
  what a compiled condition evaluates to on the four declared variables. A compiled program is
  represented by the condition it was compiled from.
\<close>

section \<open>Policies\<close>

definition check_violation :: gerr where
  "check_violation = PgError ''23514'' ''new row violates check constraint''"

text \<open>Text is sorted by its bytes, the C collation.\<close>

definition ListEnabledPolicies :: "db \<Rightarrow> policy_row list" where
  "ListEnabledPolicies d = sort_key pr_name (filter pr_enabled (d_policies d))"

definition ListAllPolicies :: "db \<Rightarrow> policy_row list" where
  "ListAllPolicies d = sort_key pr_name (d_policies d)"

definition UpsertPolicy :: "policy_row \<Rightarrow> db \<Rightarrow> (gerr + unit) \<times> db" where
  "UpsertPolicy r d =
     (if pr_effect r \<noteq> ''allow'' \<and> pr_effect r \<noteq> ''deny'' then (Inl check_violation, d)
      else if pr_name r \<in> pr_name ` set (d_policies d)
        then (Inr (), d\<lparr>d_policies := update_rows (\<lambda>x. pr_name x = pr_name r)
               (\<lambda>x. x\<lparr>pr_effect := pr_effect r, pr_resource_type := pr_resource_type r, pr_action := pr_action r,
                      pr_condition := pr_condition r, pr_enabled := pr_enabled r, pr_updated_at := pr_updated_at r\<rparr>)
               (d_policies d)\<rparr>)
      else if pr_id r \<in> pr_id ` set (d_policies d) then (Inl dup_key, d)
      else (Inr (), d\<lparr>d_policies := d_policies d @ [r]\<rparr>))"

definition DeletePolicy :: "string \<Rightarrow> db \<Rightarrow> (gerr + nat) \<times> db" where
  "DeletePolicy name d =
     (Inr (count_rows (\<lambda>r. pr_name r = name) (d_policies d)),
      d\<lparr>d_policies := filter (\<lambda>r. pr_name r \<noteq> name) (d_policies d)\<rparr>)"

lemmas authz_sql = ListEnabledPolicies_def ListAllPolicies_def UpsertPolicy_def DeletePolicy_def

section \<open>The checker\<close>

record authz_subject =
  s_ID :: string
  s_Role :: string
  s_TokenType :: string

record cel_vars =
  v_subject :: authz_subject
  v_resource :: "(string \<times> string) list"
  v_action :: string
  v_resource_type :: string

datatype cel_value = CelBool bool | CelOther

record cel =
  cel_compile :: "string \<Rightarrow> string option"
  cel_eval :: "string \<Rightarrow> cel_vars \<Rightarrow> cel_value option"

record compiled_policy =
  cp_name :: string
  cp_effect :: string
  cp_resourceType :: string
  cp_action :: string
  cp_program :: string

record checker =
  ck_policies :: "compiled_policy list"
  ck_loadedAt :: int
  ck_refreshing :: bool

record decision =
  dc_Allowed :: bool
  dc_DecidedBy :: string

text \<open>\<open>Compile\<close>: \<open>cel_compile\<close> gives the text of the compiler's error, \<open>None\<close> when there is none.\<close>

definition Checker_Compile :: "cel \<Rightarrow> string \<Rightarrow> gerr + string" where
  "Checker_Compile L condition =
     (case cel_compile L condition of
        Some t \<Rightarrow> Inl (Wrapped ''authz: compile condition'' (External t))
      | None \<Rightarrow> Inr condition)"

definition compile_rows :: "cel \<Rightarrow> policy_row list \<Rightarrow> compiled_policy list" where
  "compile_rows L rows =
     concat (map (\<lambda>row.
       case Checker_Compile L (pr_condition row) of
         Inl err \<Rightarrow> []
       | Inr program \<Rightarrow> [\<lparr>cp_name = pr_name row, cp_effect = pr_effect row, cp_resourceType = pr_resource_type row,
                          cp_action = pr_action row, cp_program = program\<rparr>]) rows)"

definition matches :: "string \<Rightarrow> string \<Rightarrow> bool" where
  "matches pattern v \<longleftrightarrow> pattern = ''*'' \<or> pattern = v"

text \<open>The loop of \<open>Decide\<close> over the policies, with \<open>allowedBy\<close>.\<close>

fun decide_loop :: "cel \<Rightarrow> cel_vars \<Rightarrow> string \<Rightarrow> compiled_policy list \<Rightarrow> decision" where
  "decide_loop L vars allowedBy [] =
     (if allowedBy \<noteq> [] then \<lparr>dc_Allowed = True, dc_DecidedBy = allowedBy\<rparr>
      else \<lparr>dc_Allowed = False, dc_DecidedBy = []\<rparr>)"
| "decide_loop L vars allowedBy (p # ps) =
     (if \<not> matches (cp_resourceType p) (v_resource_type vars) \<or> \<not> matches (cp_action p) (v_action vars)
      then decide_loop L vars allowedBy ps
      else
        case cel_eval L (cp_program p) vars of
          None \<Rightarrow> decide_loop L vars allowedBy ps
        | Some CelOther \<Rightarrow> decide_loop L vars allowedBy ps
        | Some (CelBool truth) \<Rightarrow>
            if \<not> truth then decide_loop L vars allowedBy ps
            else if cp_effect p = ''deny'' then \<lparr>dc_Allowed = False, dc_DecidedBy = cp_name p\<rparr>
            else decide_loop L vars (if allowedBy = [] then cp_name p else allowedBy) ps)"

definition decide :: "cel \<Rightarrow> compiled_policy list \<Rightarrow> authz_subject \<Rightarrow> string \<Rightarrow> string \<Rightarrow> (string \<times> string) list \<Rightarrow> decision" where
  "decide L ps subject resourceType action resource =
     decide_loop L \<lparr>v_subject = subject, v_resource = resource, v_action = action, v_resource_type = resourceType\<rparr> [] ps"

text \<open>
  The checker works on the world and its own state. \<open>Refresh\<close> is two steps, between which other
  requests run: it loads the rows, then stores what it compiled from them.
\<close>

type_synonym 'a checker_act = "(world \<times> checker, gerr, 'a) act"

definition on_world :: "(world, gerr, 'a) act \<Rightarrow> 'a checker_act" where
  "on_world m = (\<lambda>(w, ck). case m w of (r, w') \<Rightarrow> (r, w', ck))"

definition Refresh_load :: "env \<Rightarrow> policy_row list checker_act" where
  "Refresh_load E = on_world (wrapE ''authz: load policies'' (select_rows E ListEnabledPolicies))"

definition Refresh_store :: "cel \<Rightarrow> env \<Rightarrow> policy_row list \<Rightarrow> unit checker_act" where
  "Refresh_store L E rows =
     andThen (modify (\<lambda>(w, ck). (w, ck\<lparr>ck_policies := compile_rows L rows\<rparr>))) (\<lambda>_.
     andThen (on_world (clock_Now E)) (\<lambda>t.
       modify (\<lambda>(w, ck). (w, ck\<lparr>ck_loadedAt := t div 1000\<rparr>))))"

definition Checker_Refresh :: "cel \<Rightarrow> env \<Rightarrow> unit checker_act" where
  "Checker_Refresh L E = andThen (Refresh_load E) (Refresh_store L E)"

definition cacheTTL :: int where "cacheTTL = 60000000"

text \<open>
  \<open>maybeRefresh\<close> starts at most one background reload; \<open>background_refresh\<close> is that task, which
  resets the flag when it ends, also in an error or a panic.
\<close>

definition maybeRefresh :: "env \<Rightarrow> unit checker_act" where
  "maybeRefresh E =
     andThen (on_world (clock_Now E)) (\<lambda>t.
       modify (\<lambda>(w, ck).
         if t - ck_loadedAt ck * 1000 < cacheTTL then (w, ck)
         else if ck_refreshing ck then (w, ck)
         else (w, ck\<lparr>ck_refreshing := True\<rparr>)))"

definition background_refresh :: "cel \<Rightarrow> env \<Rightarrow> unit checker_act" where
  "background_refresh L E =
     andThen (attempt (Checker_Refresh L E)) (\<lambda>_.
       modify (\<lambda>(w, ck). (w, ck\<lparr>ck_refreshing := False\<rparr>)))"

definition Checker_Decide ::
  "cel \<Rightarrow> env \<Rightarrow> authz_subject \<Rightarrow> string \<Rightarrow> string \<Rightarrow> (string \<times> string) list \<Rightarrow> decision checker_act" where
  "Checker_Decide L E subject resourceType action resource =
     andThen (maybeRefresh E) (\<lambda>_.
       reads (\<lambda>(w, ck). decide L (ck_policies ck) subject resourceType action resource))"

text \<open>\<open>abacAccess.Allowed\<close>, the port the modules are given.\<close>

definition abacAccess_Allowed ::
  "cel \<Rightarrow> compiled_policy list \<Rightarrow> access" where
  "abacAccess_Allowed L ps subjectID role tokenType resourceType action resource =
     dc_Allowed (decide L ps \<lparr>s_ID = subjectID, s_Role = role, s_TokenType = tokenType\<rparr> resourceType action resource)"

section \<open>Handlers\<close>

definition requireAdmin :: "principal option \<Rightarrow> gerr + unit" where
  "requireAdmin ctx =
     (case ctx of
        None \<Rightarrow> Inl (apperror_New KindUnauthenticated ''unauthenticated'' ''authentication required'')
      | Some p \<Rightarrow>
          if p_Role p \<noteq> ''admin'' \<and> p_TokenType p \<noteq> ''admin''
          then Inl (apperror_New KindPermissionDenied ''admin_required'' ''admin access required'')
          else Inr ())"

record proto_policy =
  pp_Name :: string
  pp_Effect :: string
  pp_ResourceType :: string
  pp_Action :: string
  pp_Condition :: string
  pp_Enabled :: bool

definition internal :: "gerr \<Rightarrow> gerr" where
  "internal err = apperror_Wrap err KindInternal ''internal'' ''internal error''"

definition internalE :: "'a checker_act \<Rightarrow> 'a checker_act" where
  "internalE m s = (case m s of (Inl err, s') \<Rightarrow> (Inl (if err = Panicked then Panicked else internal err), s') | (Inr x, s') \<Rightarrow> (Inr x, s'))"

definition AuthzHandler_Check ::
  "cel \<Rightarrow> env \<Rightarrow> principal option \<Rightarrow> string \<Rightarrow> string \<Rightarrow> (string \<times> string) list \<Rightarrow> decision checker_act" where
  "AuthzHandler_Check L E ctx resourceType action resource =
     andThen (liftE (requirePrincipal ctx)) (\<lambda>p.
       Checker_Decide L E \<lparr>s_ID = p_UserID p, s_Role = p_Role p, s_TokenType = p_TokenType p\<rparr> resourceType action resource)"

definition AuthzHandler_ListPolicies :: "env \<Rightarrow> principal option \<Rightarrow> proto_policy list checker_act" where
  "AuthzHandler_ListPolicies E ctx =
     andThen (liftE (requireAdmin ctx)) (\<lambda>_.
     andThen (internalE (on_world (andThen Pools_Read (\<lambda>p. pool_rows E p ListAllPolicies)))) (\<lambda>rows.
       ret (map (\<lambda>r. \<lparr>pp_Name = pr_name r, pp_Effect = pr_effect r, pp_ResourceType = pr_resource_type r,
                       pp_Action = pr_action r, pp_Condition = pr_condition r, pp_Enabled = pr_enabled r\<rparr>) rows)))"

definition AuthzHandler_UpsertPolicy :: "cel \<Rightarrow> env \<Rightarrow> principal option \<Rightarrow> proto_policy \<Rightarrow> proto_policy checker_act" where
  "AuthzHandler_UpsertPolicy L E ctx policy =
     andThen (liftE (requireAdmin ctx)) (\<lambda>_.
     if pp_Name policy = [] then fail (apperror_New KindInvalidInput ''invalid_input'' ''policy name required'')
     else if pp_Effect policy \<noteq> ''allow'' \<and> pp_Effect policy \<noteq> ''deny''
       then fail (apperror_New KindInvalidInput ''invalid_input'' ''effect must be allow or deny'')
     else
       case Checker_Compile L (pp_Condition policy) of
         Inl err \<Rightarrow> fail (apperror_Wrap err KindInvalidInput ''invalid_condition''
                          (''condition does not compile: '' @ err_Error err))
       | Inr _ \<Rightarrow>
           andThen (internalE (on_world (UUIDGenerator_NewID E))) (\<lambda>rawID.
           andThen (internalE (liftE (uuidFromString E rawID))) (\<lambda>pid.
           andThen (on_world (clock_Now E)) (\<lambda>now.
           andThen (internalE (on_world (query E (UpsertPolicy
               \<lparr>pr_id = pid, pr_name = pp_Name policy, pr_effect = pp_Effect policy,
                pr_resource_type = pp_ResourceType policy, pr_action = pp_Action policy,
                pr_condition = pp_Condition policy, pr_enabled = pp_Enabled policy, pr_created_at = now, pr_updated_at = now\<rparr>)))) (\<lambda>_.
           andThen (internalE (Checker_Refresh L E)) (\<lambda>_. ret policy))))))"

definition AuthzHandler_DeletePolicy :: "cel \<Rightarrow> env \<Rightarrow> principal option \<Rightarrow> string \<Rightarrow> unit checker_act" where
  "AuthzHandler_DeletePolicy L E ctx name =
     andThen (liftE (requireAdmin ctx)) (\<lambda>_.
     andThen (internalE (on_world (query E (DeletePolicy name)))) (\<lambda>affected.
     if affected = 0 then fail (apperror_New KindNotFound ''policy_not_found'' ''policy not found'')
     else internalE (Checker_Refresh L E)))"

datatype authz_request =
  CheckRequest string string "(string \<times> string) list"
| ListPoliciesRequest
| UpsertPolicyRequest proto_policy
| DeletePolicyRequest string

datatype authz_response =
  CheckResponse decision
| PoliciesResponse "proto_policy list"
| UpsertResponse proto_policy
| DeleteResponse

fun authz_handle :: "cel \<Rightarrow> env \<Rightarrow> principal option \<Rightarrow> authz_request \<Rightarrow> authz_response checker_act" where
  "authz_handle L E ctx (CheckRequest rt a res) =
     andThen (AuthzHandler_Check L E ctx rt a res) (\<lambda>d. ret (CheckResponse d))"
| "authz_handle L E ctx ListPoliciesRequest =
     andThen (AuthzHandler_ListPolicies E ctx) (\<lambda>ps. ret (PoliciesResponse ps))"
| "authz_handle L E ctx (UpsertPolicyRequest p) =
     andThen (AuthzHandler_UpsertPolicy L E ctx p) (\<lambda>q. ret (UpsertResponse q))"
| "authz_handle L E ctx (DeletePolicyRequest name) =
     andThen (AuthzHandler_DeletePolicy L E ctx name) (\<lambda>_. ret DeleteResponse)"

lemmas authz_handlers = AuthzHandler_Check_def AuthzHandler_ListPolicies_def AuthzHandler_UpsertPolicy_def
  AuthzHandler_DeletePolicy_def

end
