(* ===== verification/AuthzFacts.thy ===== *)
theory AuthzFacts
  imports Authz
begin

text \<open>
  What the authorization module promises: the loop of \<open>Decide\<close> refines a set-based verdict, only
  administrators change policies, a change reaches the local cache before it is answered, and
  the policies stay well-formed over every interleaving of requests and background reloads.
\<close>

section \<open>The verdict\<close>

text \<open>The policies that apply to a request: their patterns match and their condition is true.\<close>

definition applies :: "cel \<Rightarrow> cel_vars \<Rightarrow> compiled_policy \<Rightarrow> bool" where
  "applies L vars p \<longleftrightarrow> matches (cp_resourceType p) (v_resource_type vars) \<and> matches (cp_action p) (v_action vars) \<and>
     cel_eval L (cp_program p) vars = Some (CelBool True)"

definition denies :: "compiled_policy \<Rightarrow> bool" where
  "denies p \<longleftrightarrow> cp_effect p = ''deny''"

text \<open>The verdict on a set of policies: deny overrides, and without an allow it is a deny.\<close>

definition permits :: "cel \<Rightarrow> cel_vars \<Rightarrow> compiled_policy set \<Rightarrow> bool" where
  "permits L vars P \<longleftrightarrow> (\<exists>p \<in> P. applies L vars p \<and> \<not> denies p) \<and> \<not> (\<exists>p \<in> P. applies L vars p \<and> denies p)"

text \<open>Which policy decides: the first deny that applies, otherwise the first allow.\<close>

definition decider :: "cel \<Rightarrow> cel_vars \<Rightarrow> compiled_policy list \<Rightarrow> compiled_policy option" where
  "decider L vars ps =
     (case find (\<lambda>p. applies L vars p \<and> denies p) ps of
        Some p \<Rightarrow> Some p
      | None \<Rightarrow> find (applies L vars) ps)"

definition vars_of :: "authz_subject \<Rightarrow> string \<Rightarrow> string \<Rightarrow> (string \<times> string) list \<Rightarrow> cel_vars" where
  "vars_of subject resourceType action resource =
     \<lparr>v_subject = subject, v_resource = resource, v_action = action, v_resource_type = resourceType\<rparr>"

lemma decide_step:
  "decide_loop L vars a (p # ps) =
     (if \<not> applies L vars p then decide_loop L vars a ps
      else if denies p then \<lparr>dc_Allowed = False, dc_DecidedBy = cp_name p\<rparr>
      else decide_loop L vars (if a = [] then cp_name p else a) ps)"
  by (auto simp: applies_def denies_def split: option.splits cel_value.splits)

lemma decide_loop_denied:
  "find (\<lambda>p. applies L vars p \<and> denies p) ps = Some q \<Longrightarrow>
   decide_loop L vars a ps = \<lparr>dc_Allowed = False, dc_DecidedBy = cp_name q\<rparr>"
  by (induction ps arbitrary: a) (auto simp: decide_step simp del: decide_loop.simps split: if_splits)

lemma decide_loop_held:
  "a \<noteq> [] \<Longrightarrow> find (\<lambda>p. applies L vars p \<and> denies p) ps = None \<Longrightarrow>
   decide_loop L vars a ps = \<lparr>dc_Allowed = True, dc_DecidedBy = a\<rparr>"
  by (induction ps) (auto simp: decide_step decide_loop.simps(1) simp del: decide_loop.simps(2) split: if_splits)

lemma decide_loop_free:
  "\<forall>p \<in> set ps. cp_name p \<noteq> [] \<Longrightarrow> find (\<lambda>p. applies L vars p \<and> denies p) ps = None \<Longrightarrow>
   decide_loop L vars [] ps =
     (case find (applies L vars) ps of
        Some q \<Rightarrow> \<lparr>dc_Allowed = True, dc_DecidedBy = cp_name q\<rparr>
      | None \<Rightarrow> \<lparr>dc_Allowed = False, dc_DecidedBy = []\<rparr>)"
  by (induction ps)
    (auto simp: decide_step decide_loop_held decide_loop.simps(1) simp del: decide_loop.simps(2) split: if_splits)

lemma decide_decider:
  assumes "\<forall>p \<in> set ps. cp_name p \<noteq> []"
  shows "decide L ps subject rt a res =
    (case decider L (vars_of subject rt a res) ps of
       Some q \<Rightarrow> \<lparr>dc_Allowed = \<not> denies q, dc_DecidedBy = cp_name q\<rparr>
     | None \<Rightarrow> \<lparr>dc_Allowed = False, dc_DecidedBy = []\<rparr>)"
proof (cases "find (\<lambda>p. applies L (vars_of subject rt a res) p \<and> denies p) ps")
  case None
  then have "\<not> denies q" if "find (applies L (vars_of subject rt a res)) ps = Some q" for q
    using that by (auto simp: find_None_iff dest: find_Some_set)
  with None assms show ?thesis
    by (auto simp: decide_def decider_def decide_loop_free vars_of_def [symmetric] split: option.splits)
next
  case (Some q)
  then have "denies q" by (auto dest: find_Some_set)
  with Some show ?thesis by (simp add: decide_def decider_def decide_loop_denied vars_of_def [symmetric])
qed

lemma decider_permits:
  "(\<exists>q. decider L vars ps = Some q \<and> \<not> denies q) \<longleftrightarrow> permits L vars (set ps)"
proof (cases "find (\<lambda>p. applies L vars p \<and> denies p) ps")
  case None
  then have "\<forall>p \<in> set ps. applies L vars p \<longrightarrow> \<not> denies p" by (auto simp: find_None_iff)
  moreover from None have "decider L vars ps = find (applies L vars) ps" by (simp add: decider_def)
  ultimately show ?thesis
    by (cases "find (applies L vars) ps") (auto simp: permits_def find_None_iff dest: find_Some_set)
next
  case (Some q)
  then have "q \<in> set ps" "applies L vars q" "denies q" by (auto dest: find_Some_set)
  with Some show ?thesis by (auto simp: decider_def permits_def)
qed

lemma decide_permits:
  "\<forall>p \<in> set ps. cp_name p \<noteq> [] \<Longrightarrow>
   dc_Allowed (decide L ps subject rt a res) \<longleftrightarrow> permits L (vars_of subject rt a res) (set ps)"
  using decider_permits [of L "vars_of subject rt a res" ps]
  by (auto simp: decide_decider split: option.splits)

text \<open>
  C14. The loop refines the verdict. For policies with names (all that can be stored), \<open>Decide\<close>
  allows exactly when some policy that applies allows and none that applies denies, whatever
  their order, and it names the first deny that applies, otherwise the first allow.
\<close>

theorem decide_refines_verdict:
  assumes "\<forall>p \<in> set ps. cp_name p \<noteq> []"
  shows "dc_Allowed (decide L ps subject rt a res) = permits L (vars_of subject rt a res) (set ps) \<and>
    dc_DecidedBy (decide L ps subject rt a res) =
      (case decider L (vars_of subject rt a res) ps of Some q \<Rightarrow> cp_name q | None \<Rightarrow> [])"
  using assms by (simp add: decide_permits) (simp add: decide_decider split: option.splits)

lemma matches_rel: "decide_loop L vars a (ps @ p # qs) = decide_loop L vars a (ps @ qs)" if "\<not> applies L vars p"
  using that by (induction ps arbitrary: a) (simp_all add: decide_step del: decide_loop.simps)

text \<open>
  A deny that fails to evaluate does not deny. A policy whose condition raises an error, a
  deny policy included, decides as if it were not there: what the remaining policies allow is
  allowed.
\<close>

theorem erring_deny_ignored:
  assumes "cel_eval L (cp_program p) (vars_of subject rt a res) = None"
  shows "decide L (ps @ p # qs) subject rt a res = decide L (ps @ qs) subject rt a res"
proof -
  have "\<not> applies L (vars_of subject rt a res) p" using assms by (simp add: applies_def)
  then show ?thesis by (simp add: decide_def matches_rel vars_of_def)
qed

section \<open>What the handlers keep\<close>

text \<open>
  A well-formed policy table: names, ids, effects, and conditions the compiler accepted. The
  cache holds well-formed compiled policies.
\<close>

definition policies_ok :: "cel \<Rightarrow> db \<Rightarrow> bool" where
  "policies_ok L d \<longleftrightarrow> distinct (map pr_name (d_policies d)) \<and> distinct (map pr_id (d_policies d)) \<and>
     (\<forall>r \<in> set (d_policies d). pr_name r \<noteq> [] \<and> pr_effect r \<in> {''allow'', ''deny''} \<and> cel_compile L (pr_condition r) = None)"

definition cache_ok :: "cel \<Rightarrow> compiled_policy list \<Rightarrow> bool" where
  "cache_ok L ps \<longleftrightarrow> distinct (map cp_name ps) \<and>
     (\<forall>p \<in> set ps. cp_name p \<noteq> [] \<and> cp_effect p \<in> {''allow'', ''deny''} \<and> cel_compile L (cp_program p) = None)"

lemma compile_rows_compiling:
  "(\<forall>r \<in> set rows. cel_compile L (pr_condition r) = None) \<Longrightarrow>
   compile_rows L rows = map (\<lambda>row. \<lparr>cp_name = pr_name row, cp_effect = pr_effect row, cp_resourceType = pr_resource_type row,
     cp_action = pr_action row, cp_program = pr_condition row\<rparr>) rows"
  by (induction rows) (auto simp: compile_rows_def Checker_Compile_def)

definition rows_ok :: "cel \<Rightarrow> policy_row list \<Rightarrow> bool" where
  "rows_ok L rows \<longleftrightarrow> distinct (map pr_name rows) \<and>
     (\<forall>r \<in> set rows. pr_name r \<noteq> [] \<and> pr_effect r \<in> {''allow'', ''deny''} \<and> cel_compile L (pr_condition r) = None)"

lemma cache_compile_rows: "rows_ok L rows \<Longrightarrow> cache_ok L (compile_rows L rows)"
  by (auto simp: rows_ok_def cache_ok_def compile_rows_compiling comp_def)

lemma ListEnabled_rows: "policies_ok L d \<Longrightarrow> rows_ok L (ListEnabledPolicies d)"
  by (auto simp: policies_ok_def rows_ok_def ListEnabledPolicies_def distinct_map inj_on_def)

text \<open>Acts on the world and the checker.\<close>

definition on_both :: "(db \<Rightarrow> bool) \<Rightarrow> (checker \<Rightarrow> bool) \<Rightarrow> world \<times> checker \<Rightarrow> bool" where
  "on_both P C s \<longleftrightarrow> P (w_db (fst s)) \<and> C (snd s)"

lemma preserves_on_world [pres]: "preserves (on_db P) m \<Longrightarrow> preserves (on_both P C) (on_world m)"
  by (rule preservesI) (auto simp: on_world_def on_both_def preserves_def on_db_def split: prod.splits)

lemma preserves_internalE [pres]: "preserves I m \<Longrightarrow> preserves I (internalE m)"
  by (simp add: preserves_def internalE_def split: prod.splits sum.splits) (metis snd_conv)

lemma preserves_modify_checker:
  "(\<And>w ck. C ck \<Longrightarrow> C (f w ck)) \<Longrightarrow> preserves (on_both P C) (modify (\<lambda>(w, ck). (w, f w ck)))"
  by (rule preservesI) (auto simp: on_both_def)

lemma on_world_Inr:
  "on_world m (w, ck) = (Inr x, s') \<Longrightarrow> \<exists>w'. m w = (Inr x, w') \<and> s' = (w', ck)"
  by (auto simp: on_world_def split: prod.splits)

lemma internalE_Inr: "internalE m s = (Inr x, s') \<Longrightarrow> m s = (Inr x, s')"
  by (auto simp: internalE_def split: prod.splits sum.splits)

lemma upsert_keeps_policies:
  assumes "pr_name r \<noteq> []" and "cel_compile L (pr_condition r) = None"
  shows "db_keeps (policies_ok L) (UpsertPolicy r)"
  using assms by (simp add: db_keeps_def UpsertPolicy_def policies_ok_def ball_update_rows map_update_rows)

lemma delete_keeps_policies: "db_keeps (policies_ok L) (DeletePolicy name)"
  by (simp add: db_keeps_def DeletePolicy_def policies_ok_def distinct_map_filter)

lemma preserves_given:
  assumes "preserves I m" and "\<And>w x w'. I w \<Longrightarrow> m w = (Inr x, w') \<Longrightarrow> R x" and "\<And>x. R x \<Longrightarrow> preserves I (k x)"
  shows "preserves I (andThen m k)"
proof (rule preservesI)
  fix w assume "I w"
  obtain r w' where m: "m w = (r, w')" by (cases "m w")
  with assms(1) \<open>I w\<close> have "I w'" by (rule preserves_run)
  then show "I (snd (andThen m k w))"
    using assms(2) [of w _ w'] assms(3) \<open>I w\<close> m by (cases r) (auto simp: preserves_def)
qed

abbreviation authz_ok :: "cel \<Rightarrow> world \<times> checker \<Rightarrow> bool" where
  "authz_ok L \<equiv> on_both (policies_ok L) (\<lambda>ck. cache_ok L (ck_policies ck))"

lemma load_rows_ok: "authz_ok L s \<Longrightarrow> Refresh_load E s = (Inr rows, s') \<Longrightarrow> rows_ok L rows"
  by (cases s) (auto simp: on_both_def Refresh_load_def ListEnabled_rows dest!: on_world_Inr select_rows_Inr elim!: wrapE_InrE)

lemma refresh_keeps:
  "preserves (authz_ok L) (Refresh_load E)"
  "rows_ok L rows \<Longrightarrow> preserves (authz_ok L) (Refresh_store L E rows)"
  "preserves (authz_ok L) (Checker_Refresh L E)"
proof -
  show load: "preserves (authz_ok L) (Refresh_load E)" unfolding Refresh_load_def by (intro pres)
  show store: "preserves (authz_ok L) (Refresh_store L E rows)" if "rows_ok L rows" for rows
    unfolding Refresh_store_def
    by (intro pres preserves_modify_checker) (simp_all add: cache_compile_rows that)
  show "preserves (authz_ok L) (Checker_Refresh L E)"
    unfolding Checker_Refresh_def by (rule preserves_given [OF load load_rows_ok store])
qed

lemma preserves_Decide: "preserves (authz_ok L) (Checker_Decide L E subject rt a res)"
  unfolding Checker_Decide_def maybeRefresh_def
  by (intro pres, rule preservesI) (auto simp: on_both_def)

lemma Upsert_keeps: "preserves (authz_ok L) (AuthzHandler_UpsertPolicy L E ctx p)"
proof (cases "pp_Name p = [] \<or> cel_compile L (pp_Condition p) \<noteq> None")
  case True
  then have "AuthzHandler_UpsertPolicy L E ctx p s = (fst (AuthzHandler_UpsertPolicy L E ctx p s), s)" for s
    by (cases "requireAdmin ctx") (auto simp: AuthzHandler_UpsertPolicy_def Checker_Compile_def apperror_New_def)
  then show ?thesis by (metis preservesI snd_conv)
next
  case False
  then show ?thesis
    unfolding AuthzHandler_UpsertPolicy_def
    by (intro pres refresh_keeps upsert_keeps_policies) simp_all
qed

lemma handle_keeps: "preserves (authz_ok L) (authz_handle L E ctx req)"
  by (cases req) (auto simp: authz_handlers(1,2,4) intro!: pres preserves_Decide refresh_keeps delete_keeps_policies Upsert_keeps)

section \<open>Interleavings with background reloads\<close>

text \<open>
  The system's steps: a request that is handled, a reload that read the rows, and a reload that
  stores what it read, at any later moment. \<open>pending\<close> holds the rows that reloads have read and
  not stored.
\<close>

inductive authz_step :: "cel \<Rightarrow> env \<Rightarrow> (world \<times> checker) \<times> policy_row list list \<Rightarrow> (world \<times> checker) \<times> policy_row list list \<Rightarrow> bool"
  for L E where
  request: "authz_step L E (s, loads) (snd (authz_handle L E ctx req s), loads)"
| load: "Refresh_load E s = (Inr rows, s') \<Longrightarrow> authz_step L E (s, loads) (s', rows # loads)"
| load_failed: "Refresh_load E s = (Inl err, s') \<Longrightarrow> authz_step L E (s, loads) (s', loads)"
| store: "rows \<in> set loads \<Longrightarrow> authz_step L E (s, loads) (snd (Refresh_store L E rows s), remove1 rows loads)"

inductive_cases authz_stepE: "authz_step L E (s, loads) t"

lemma authz_step_keeps:
  assumes "authz_step L E (s, loads) (s', loads')" and "authz_ok L s" and "list_all (rows_ok L) loads"
  shows "authz_ok L s' \<and> list_all (rows_ok L) loads'"
  using assms(1)
proof cases
  case (request ctx req)
  then show ?thesis using assms(2,3) preservesD [OF handle_keeps, of L s E ctx req] by auto
next
  case (load rows)
  then show ?thesis using assms(2,3) preserves_run [OF refresh_keeps(1), of L s E] load_rows_ok [of L s E] by auto
next
  case (load_failed err)
  then show ?thesis using assms(2,3) preserves_run [OF refresh_keeps(1), of L s E] by auto
next
  case (store rows)
  then show ?thesis
    using assms(2,3) preservesD [OF refresh_keeps(2), of L rows s E] notin_set_remove1 [of _ loads rows]
    by (auto simp: list_all_iff dest: set_remove1_subset [THEN subsetD])
qed

lemma reachable_keeps:
  assumes "(authz_step L E)\<^sup>*\<^sup>* (s, []) (s', loads)" and "authz_ok L s"
  shows "authz_ok L s'"
proof -
  have "authz_ok L s' \<and> list_all (rows_ok L) loads"
    using assms by (induction rule: rtranclp_induct2) (auto dest: authz_step_keeps)
  then show ?thesis ..
qed

text \<open>
  C25. Policies stay well-formed. From a well-formed table and cache, over every interleaving of
  requests of any callers with reloads that may store rows read long before, under any
  faults: names and ids are unique, every effect is allow or deny, every stored condition
  compiles, and so does everything in the cache that decides.
\<close>

theorem policies_well_formed:
  assumes "(authz_step L E)\<^sup>*\<^sup>* ((w, ck), []) ((w', ck'), loads)"
    and "policies_ok L (w_db w)" and "cache_ok L (ck_policies ck)"
  shows "policies_ok L (w_db w') \<and> cache_ok L (ck_policies ck')"
  using reachable_keeps [OF assms(1)] assms(2,3) by (simp add: on_both_def)

section \<open>Who changes policies\<close>

lemma load_state: "Refresh_load E (w, ck) = (r, s') \<Longrightarrow> w_db (fst s') = w_db w \<and> snd s' = ck"
  by (auto simp: Refresh_load_def on_world_def wrapE_def catchE_def split: prod.splits sum.splits if_splits
      dest!: arg_cong [where f = "\<lambda>x. w_db (snd x)"] simp: select_rows_db)

lemma policies_untouched: "preserves (on_both (\<lambda>d. d_policies d = rs) (\<lambda>ck. ck_policies ck = ps)) (Checker_Decide L E subject rt a res)"
  unfolding Checker_Decide_def maybeRefresh_def
  by (intro pres, rule preservesI) (auto simp: on_both_def)

text \<open>
  Only administrators change policies. Whatever request a caller without the admin role or
  an admin token makes, signed in or not, the policy table and the cache that decides are the
  same afterwards, and the three administrative requests are refused without touching anything.
\<close>

theorem policy_changes_need_admin:
  assumes "requireAdmin ctx = Inl e"
  shows "d_policies (w_db (fst (snd (authz_handle L E ctx req s)))) = d_policies (w_db (fst s)) \<and>
    ck_policies (snd (snd (authz_handle L E ctx req s))) = ck_policies (snd s) \<and>
    (case req of CheckRequest rt a res \<Rightarrow> True | _ \<Rightarrow> authz_handle L E ctx req s = (Inl e, s))"
proof (cases req)
  case (CheckRequest rt a res)
  have "preserves (on_both (\<lambda>d. d_policies d = d_policies (w_db (fst s))) (\<lambda>ck. ck_policies ck = ck_policies (snd s))) (authz_handle L E ctx req)"
    unfolding CheckRequest authz_handle.simps AuthzHandler_Check_def by (intro pres policies_untouched)
  from preservesD [OF this, of s] show ?thesis by (simp add: CheckRequest on_both_def)
qed (use assms in \<open>simp_all add: authz_handlers\<close>)

section \<open>A change is effective when it is answered\<close>

lemma store_Inr:
  "Refresh_store L E rows (w, ck) = (Inr x, w', ck') \<Longrightarrow>
   w_db w' = w_db w \<and> ck_policies ck' = compile_rows L rows"
  by (auto simp: Refresh_store_def on_world_def)

lemma Checker_Refresh_Inr:
  assumes "Checker_Refresh L E (w, ck) = (Inr x, w', ck')"
  shows "w_db w' = w_db w \<and> ck_policies ck' = compile_rows L (ListEnabledPolicies (w_db w))"
  using assms unfolding Checker_Refresh_def
  by (auto elim!: andThen_InrE wrapE_InrE simp: Refresh_load_def dest!: on_world_Inr select_rows_Inr store_Inr)

definition cached :: "proto_policy \<Rightarrow> compiled_policy" where
  "cached p = \<lparr>cp_name = pp_Name p, cp_effect = pp_Effect p, cp_resourceType = pp_ResourceType p,
     cp_action = pp_Action p, cp_program = pp_Condition p\<rparr>"

lemma compile_rows_filter:
  "filter (\<lambda>p. cp_name p = n) (compile_rows L rows) = compile_rows L (filter (\<lambda>r. pr_name r = n) rows)"
  by (induction rows) (auto simp: compile_rows_def Checker_Compile_def split: option.splits)

lemma filter_distinct_key:
  "distinct (map k xs) \<Longrightarrow> x \<in> set xs \<Longrightarrow> filter (\<lambda>y. k y = k x) xs = [x]"
  by (induction xs) (auto simp: filter_empty_conv image_iff)

lemma filter_swap: "filter p (filter q xs) = filter q (filter p xs)"
  by (induction xs) auto

lemma filter_sort_key: "filter p (sort_key f xs) = sort_key f (filter p xs)"
  by (induction xs) (auto simp: filter_insort filter_insort_triv)

lemma enabled_named:
  assumes "policies_ok L d" and "r \<in> set (d_policies d)"
  shows "filter (\<lambda>x. pr_name x = pr_name r) (ListEnabledPolicies d) = (if pr_enabled r then [r] else [])"
proof -
  have "filter (\<lambda>x. pr_name x = pr_name r) (d_policies d) = [r]"
    using assms by (intro filter_distinct_key) (simp_all add: policies_ok_def)
  then have "filter (\<lambda>x. pr_name x = pr_name r) (filter pr_enabled (d_policies d)) = filter pr_enabled [r]"
    by (metis filter_swap)
  then show ?thesis by (simp add: ListEnabledPolicies_def filter_sort_key)
qed

lemma upserted_row:
  assumes "UpsertPolicy r d = (Inr u, d')"
  shows "\<exists>x \<in> set (d_policies d'). pr_name x = pr_name r \<and> pr_effect x = pr_effect r \<and> pr_resource_type x = pr_resource_type r \<and>
    pr_action x = pr_action r \<and> pr_condition x = pr_condition r \<and> pr_enabled x = pr_enabled r"
proof (cases "pr_name r \<in> pr_name ` set (d_policies d)")
  case True
  then obtain y where "y \<in> set (d_policies d)" "pr_name y = pr_name r" by auto
  with assms show ?thesis by (fastforce simp: UpsertPolicy_def set_update_rows split: if_splits)
next
  case False
  with assms show ?thesis by (auto simp: UpsertPolicy_def split: if_splits)
qed

lemma Upsert_Inr:
  assumes "AuthzHandler_UpsertPolicy L E ctx policy (w, ck) = (Inr q, w', ck')"
  obtains r d where "requireAdmin ctx = Inr ()" and "q = policy" and "cel_compile L (pp_Condition policy) = None"
    and "pp_Name policy \<noteq> []" and "UpsertPolicy r (w_db w) = (Inr (), d)" and "w_db w' = d"
    and "pr_name r = pp_Name policy" "pr_effect r = pp_Effect policy" "pr_resource_type r = pp_ResourceType policy"
      "pr_action r = pp_Action policy" "pr_condition r = pp_Condition policy" "pr_enabled r = pp_Enabled policy"
    and "ck_policies ck' = compile_rows L (ListEnabledPolicies d)"
  using assms unfolding AuthzHandler_UpsertPolicy_def
  apply (elim andThen_InrE)
  apply (simp split: if_splits)
  apply (simp add: Checker_Compile_def split: option.splits)
  apply (elim andThen_InrE)
  apply (drule internalE_Inr on_world_Inr | elim exE conjE | hypsubst)+
  apply simp
  apply (drule on_world_Inr | elim exE conjE | hypsubst)+
  apply (drule Checker_Refresh_Inr, drule NewID_Inr, erule query_Inr)
  apply auto
  done

text \<open>
  C26. An upsert is effective when it is answered. When an upsert succeeds the caller is an
  administrator, the table has the policy as it was sent, and the cache of this instance holds
  under its name exactly that policy, compiled, if it is enabled and nothing otherwise: the
  next decision already follows it.
\<close>

theorem upsert_takes_effect:
  assumes "policies_ok L (w_db w)" and "AuthzHandler_UpsertPolicy L E ctx policy (w, ck) = (Inr q, w', ck')"
  shows "requireAdmin ctx = Inr () \<and> q = policy \<and>
    (\<exists>r \<in> set (d_policies (w_db w')). \<lparr>pp_Name = pr_name r, pp_Effect = pr_effect r, pp_ResourceType = pr_resource_type r,
       pp_Action = pr_action r, pp_Condition = pr_condition r, pp_Enabled = pr_enabled r\<rparr> = policy) \<and>
    filter (\<lambda>p. cp_name p = pp_Name policy) (ck_policies ck') = (if pp_Enabled policy then [cached policy] else [])"
proof -
  from assms(2) obtain r d where adm: "requireAdmin ctx = Inr ()" and q: "q = policy"
    and comp: "cel_compile L (pp_Condition policy) = None" "pp_Name policy \<noteq> []"
    and up: "UpsertPolicy r (w_db w) = (Inr (), d)" and db: "w_db w' = d"
    and r: "pr_name r = pp_Name policy" "pr_effect r = pp_Effect policy" "pr_resource_type r = pp_ResourceType policy"
      "pr_action r = pp_Action policy" "pr_condition r = pp_Condition policy" "pr_enabled r = pp_Enabled policy"
    and ck: "ck_policies ck' = compile_rows L (ListEnabledPolicies d)"
    by (rule Upsert_Inr)
  have ok: "policies_ok L d"
    using upsert_keeps_policies [of r L] comp assms(1) up by (auto simp: db_keeps_def r dest!: spec [of _ "w_db w"])
  from upserted_row [OF up] obtain x where x: "x \<in> set (d_policies d)" "pr_name x = pp_Name policy" "pr_effect x = pp_Effect policy"
     "pr_resource_type x = pp_ResourceType policy" "pr_action x = pp_Action policy" "pr_condition x = pp_Condition policy"
     "pr_enabled x = pp_Enabled policy" by (auto simp: r)
  have "filter (\<lambda>p. cp_name p = pp_Name policy) (ck_policies ck') =
      compile_rows L (filter (\<lambda>y. pr_name y = pr_name x) (ListEnabledPolicies d))"
    by (simp add: ck compile_rows_filter x)
  also have "\<dots> = (if pp_Enabled policy then [cached policy] else [])"
    unfolding enabled_named [OF ok x(1)] using comp by (simp add: x cached_def compile_rows_def Checker_Compile_def)
  finally show ?thesis using adm q x db by force
qed

lemma Delete_Inr:
  assumes "AuthzHandler_DeletePolicy L E ctx name (w, ck) = (Inr q, w', ck')"
  shows "requireAdmin ctx = Inr () \<and> d_policies (w_db w') = filter (\<lambda>r. pr_name r \<noteq> name) (d_policies (w_db w)) \<and>
    ck_policies ck' = compile_rows L (ListEnabledPolicies (w_db w'))"
  using assms unfolding AuthzHandler_DeletePolicy_def
  apply (elim andThen_InrE)
  apply (drule internalE_Inr | simp split: if_splits)+
  apply (drule on_world_Inr | elim exE conjE | hypsubst)+
  apply (drule Checker_Refresh_Inr, erule query_Inr)
  apply (auto simp: DeletePolicy_def)
  apply (drule arg_cong [where f = d_policies], simp)
  done

lemma compile_rows_named: "p \<in> set (compile_rows L rows) \<Longrightarrow> \<exists>r \<in> set rows. pr_name r = cp_name p"
  by (auto simp: compile_rows_def Checker_Compile_def split: option.splits)

text \<open>
  A deletion is effective when it is answered, unless a reload is in flight. After a
  successful deletion neither the table nor the cache has a policy of that name; but a
  background reload that read the rows before the deletion and stores them after it puts the
  deleted policy back into the cache, where it decides until the next reload.
\<close>

theorem stale_reload_restores_deleted:
  assumes "policies_ok L (w_db w)" and "Refresh_load E (w, ck) = (Inr rows, w1, ck1)"
    and "AuthzHandler_DeletePolicy L E ctx name (w1, ck1) = (Inr (), w2, ck2)"
    and "Refresh_store L E rows (w2, ck2) = (Inr (), w3, ck3)"
    and "r \<in> set (d_policies (w_db w))" and "pr_name r = name" and "pr_enabled r"
  shows "name \<notin> pr_name ` set (d_policies (w_db w3)) \<and> name \<notin> cp_name ` set (ck_policies ck2) \<and>
    name \<in> cp_name ` set (ck_policies ck3)"
proof -
  note del = Delete_Inr [OF assms(3)] and st = store_Inr [OF assms(4)]
  have "w_db w1 = w_db w" and rows: "rows = ListEnabledPolicies (w_db w)"
    using load_state [OF assms(2)] assms(2)
    by (auto simp: Refresh_load_def dest!: on_world_Inr select_rows_Inr elim!: wrapE_InrE)
  have r: "r \<in> set rows" using assms(5,7) by (simp add: rows ListEnabledPolicies_def)
  have "\<forall>r \<in> set rows. cel_compile L (pr_condition r) = None"
    using ListEnabled_rows [OF assms(1)] by (simp add: rows rows_ok_def)
  with r have "pr_name r \<in> cp_name ` set (compile_rows L rows)"
    by (simp add: compile_rows_compiling image_image)
  moreover have "name \<notin> cp_name ` set (ck_policies ck2)"
    using del by (auto simp: ListEnabledPolicies_def dest!: compile_rows_named)
  ultimately show ?thesis using del st assms(6) by auto
qed

section \<open>Policies and the example module\<close>

text \<open>
  C29. Notes are updated only under a policy. When the note handlers ask this checker, a
  successful update implies a cached policy that allows \<open>note\<close> \<open>update\<close> for this caller and no
  cached deny that applies; with an empty cache, as before the first load, every update is
  refused.
\<close>

theorem note_updates_need_a_policy:
  assumes "cache_ok L ps" and "notes_handle E (abacAccess_Allowed L ps) (Some p) (UpdateNoteRequest nid title body v) w = (Inr resp, w')"
  shows "permits L (vars_of \<lparr>s_ID = p_UserID p, s_Role = p_Role p, s_TokenType = p_TokenType p\<rparr> ''note'' ''update''
    [(''owner_id'', p_UserID p)]) (set ps)"
proof -
  have "abacAccess_Allowed L ps (p_UserID p) (p_Role p) (p_TokenType p) ''note'' ''update'' [(''owner_id'', p_UserID p)]"
    using assms(2) by (auto simp: NotesHandler_UpdateNote_def requirePrincipal_def split: if_splits)
  moreover have "\<forall>p \<in> set ps. cp_name p \<noteq> []" using assms(1) by (simp add: cache_ok_def)
  ultimately show ?thesis by (simp add: abacAccess_Allowed_def decide_permits)
qed

section \<open>Witnesses\<close>

text \<open>A demo CEL: \<open>true\<close> holds, \<open>err\<close> raises an error, an opening parenthesis does not compile.\<close>

definition demo_cel :: cel where
  "demo_cel = \<lparr>cel_compile = (\<lambda>c. if c = ''('' then Some ''syntax error'' else None),
     cel_eval = (\<lambda>c v. if c = ''true'' then Some (CelBool True) else if c = ''err'' then None else Some (CelBool False))\<rparr>"

definition demo_policy :: "string \<Rightarrow> string \<Rightarrow> string \<Rightarrow> proto_policy" where
  "demo_policy name effect condition =
     \<lparr>pp_Name = name, pp_Effect = effect, pp_ResourceType = ''note'', pp_Action = ''update'', pp_Condition = condition, pp_Enabled = True\<rparr>"

definition open_row :: policy_row where
  "open_row = \<lparr>pr_id = demo_id 7, pr_name = ''open'', pr_effect = ''allow'', pr_resource_type = ''note'', pr_action = ''update'',
     pr_condition = ''true'', pr_enabled = True, pr_created_at = 0, pr_updated_at = 0\<rparr>"

definition policy_db :: db where
  "policy_db = empty_db\<lparr>d_policies := [open_row]\<rparr>"

definition cold :: checker where
  "cold = \<lparr>ck_policies = [], ck_loadedAt = 0, ck_refreshing = False\<rparr>"

definition root :: principal where
  "root = \<lparr>p_UserID = ''root'', p_Role = ''admin'', p_TokenType = ''user''\<rparr>"

abbreviation "demo_open \<equiv> cached (demo_policy ''open'' ''allow'' ''true'')"

lemmas policy_demo = demo_cel_def demo_policy_def open_row_def policy_db_def cold_def root_def demo_world_def empty_db_def

lemma decide_refines_verdict_witness:
  "dc_Allowed (decide demo_cel [demo_open] \<lparr>s_ID = ''ann'', s_Role = ''user'', s_TokenType = ''user''\<rparr> ''note'' ''update'' []) \<and>
   \<not> dc_Allowed (decide demo_cel [demo_open, cached (demo_policy ''shut'' ''deny'' ''true'')] \<lparr>s_ID = ''ann'', s_Role = ''user'', s_TokenType = ''user''\<rparr> ''note'' ''update'' [])"
  using decide_refines_verdict [of "[demo_open]" demo_cel "\<lparr>s_ID = ''ann'', s_Role = ''user'', s_TokenType = ''user''\<rparr>" "''note''" "''update''" "[]"]
    decide_refines_verdict [of "[demo_open, cached (demo_policy ''shut'' ''deny'' ''true'')]" demo_cel "\<lparr>s_ID = ''ann'', s_Role = ''user'', s_TokenType = ''user''\<rparr>" "''note''" "''update''" "[]"]
  by (simp add: permits_def applies_def denies_def vars_of_def matches_def cached_def policy_demo)

lemma erring_deny_ignored_witness:
  "dc_Allowed (decide demo_cel [demo_open, cached (demo_policy ''shut'' ''deny'' ''err'')]
     \<lparr>s_ID = ''ann'', s_Role = ''user'', s_TokenType = ''user''\<rparr> ''note'' ''update'' [])"
  using erring_deny_ignored [of demo_cel "cached (demo_policy ''shut'' ''deny'' ''err'')"
      "\<lparr>s_ID = ''ann'', s_Role = ''user'', s_TokenType = ''user''\<rparr>" "''note''" "''update''" "[]" "[demo_open]" "[]"]
  by (simp add: decide_def decide_step applies_def denies_def matches_def cached_def policy_demo)

lemma policy_changes_need_admin_witness:
  "d_policies (w_db (fst (snd (authz_handle demo_cel demo_env None (DeletePolicyRequest ''open'') (demo_world policy_db, cold))))) = [open_row]"
  using policy_changes_need_admin [of None _ demo_cel demo_env "DeletePolicyRequest ''open''" "(demo_world policy_db, cold)"]
  by (simp add: requireAdmin_def apperror_New_def policy_demo)

lemma demo_upsert:
  "\<exists>w' ck'. AuthzHandler_UpsertPolicy demo_cel demo_env (Some root) (demo_policy ''open'' ''allow'' ''true'') (demo_world empty_db, cold) =
     (Inr (demo_policy ''open'' ''allow'' ''true''), w', ck')"
  by (simp add: AuthzHandler_UpsertPolicy_def requireAdmin_def Checker_Compile_def internalE_def on_world_def andThen_def
      NewID_drawn [OF demo_faultless] scan_text [OF demo_reads_text] query_faultless [OF demo_faultless] UpsertPolicy_def
      Checker_Refresh_def Refresh_load_def Refresh_store_def wrapE_def catchE_def select_rows_def policy_demo)

lemma upsert_takes_effect_witness:
  "\<exists>w' ck'. AuthzHandler_UpsertPolicy demo_cel demo_env (Some root) (demo_policy ''open'' ''allow'' ''true'') (demo_world empty_db, cold) =
     (Inr (demo_policy ''open'' ''allow'' ''true''), w', ck') \<and> filter (\<lambda>p. cp_name p = ''open'') (ck_policies ck') = [demo_open]"
proof -
  obtain w' ck' where run: "AuthzHandler_UpsertPolicy demo_cel demo_env (Some root) (demo_policy ''open'' ''allow'' ''true'') (demo_world empty_db, cold) =
     (Inr (demo_policy ''open'' ''allow'' ''true''), w', ck')" using demo_upsert by blast
  have "policies_ok demo_cel (w_db (demo_world empty_db))" by (simp add: policies_ok_def policy_demo)
  from upsert_takes_effect [OF this run] run show ?thesis by (simp add: demo_policy_def)
qed

lemma policies_well_formed_witness:
  "\<exists>w' ck'. authz_handle demo_cel demo_env (Some root) (UpsertPolicyRequest (demo_policy ''open'' ''allow'' ''true'')) (demo_world empty_db, cold) =
     (Inr (UpsertResponse (demo_policy ''open'' ''allow'' ''true'')), w', ck') \<and> policies_ok demo_cel (w_db w') \<and> cache_ok demo_cel (ck_policies ck')"
proof -
  let ?s = "(demo_world empty_db, cold)" and ?r = "UpsertPolicyRequest (demo_policy ''open'' ''allow'' ''true'')"
  obtain w' ck' where run: "authz_handle demo_cel demo_env (Some root) ?r ?s =
     (Inr (UpsertResponse (demo_policy ''open'' ''allow'' ''true'')), w', ck')" using demo_upsert by auto
  have "authz_step demo_cel demo_env (?s, []) ((w', ck'), [])"
    using authz_step.request [of demo_cel demo_env ?s "[]" "Some root" ?r] unfolding run by simp
  then have "(authz_step demo_cel demo_env)\<^sup>*\<^sup>* (?s, []) ((w', ck'), [])" by blast
  from policies_well_formed [OF this] run show ?thesis by (simp add: policies_ok_def cache_ok_def policy_demo)
qed

lemma stale_reload_restores_deleted_witness:
  "\<exists>rows w1 ck1 w2 ck2 w3 ck3. Refresh_load demo_env (demo_world policy_db, cold) = (Inr rows, w1, ck1) \<and>
     AuthzHandler_DeletePolicy demo_cel demo_env (Some root) ''open'' (w1, ck1) = (Inr (), w2, ck2) \<and>
     Refresh_store demo_cel demo_env rows (w2, ck2) = (Inr (), w3, ck3) \<and>
     ''open'' \<notin> cp_name ` set (ck_policies ck2) \<and> ''open'' \<in> cp_name ` set (ck_policies ck3)"
proof -
  let ?w1 = "(demo_world policy_db)\<lparr>w_step := 1\<rparr>"
  have load: "Refresh_load demo_env (demo_world policy_db, cold) = (Inr [open_row], ?w1, cold)"
    by (simp add: Refresh_load_def on_world_def wrapE_def select_rows_def query_faultless [OF demo_faultless] ListEnabledPolicies_def policy_demo)
  obtain w2 ck2 where del: "AuthzHandler_DeletePolicy demo_cel demo_env (Some root) ''open'' (?w1, cold) = (Inr (), w2, ck2)"
    by (simp add: AuthzHandler_DeletePolicy_def requireAdmin_def internalE_def on_world_def andThen_def count_rows_def
        query_faultless [OF demo_faultless] DeletePolicy_def Checker_Refresh_def Refresh_load_def Refresh_store_def wrapE_def
        catchE_def select_rows_def policy_demo)
  obtain w3 ck3 where store: "Refresh_store demo_cel demo_env [open_row] (w2, ck2) = (Inr (), w3, ck3)"
    by (simp add: Refresh_store_def on_world_def andThen_def)
  have "policies_ok demo_cel (w_db (demo_world policy_db))" by (simp add: policies_ok_def policy_demo)
  from stale_reload_restores_deleted [OF this load del store, of open_row] load del store show ?thesis
    by (auto simp: policy_demo)
qed

lemma note_updates_need_a_policy_witness:
  "\<exists>resp w'. notes_handle demo_env (abacAccess_Allowed demo_cel [demo_open]) (Some \<lparr>p_UserID = ''ann'', p_Role = ''user'', p_TokenType = ''user''\<rparr>)
       (UpdateNoteRequest (uuid_text (demo_id 5)) ''t'' ''new'' 3) (demo_world note_db) = (Inr resp, w') \<and>
     permits demo_cel (vars_of \<lparr>s_ID = ''ann'', s_Role = ''user'', s_TokenType = ''user''\<rparr> ''note'' ''update'' [(''owner_id'', ''ann'')]) {demo_open}"
proof -
  let ?p = "\<lparr>p_UserID = ''ann'', p_Role = ''user'', p_TokenType = ''user''\<rparr>"
  obtain n w' where up: "UpdateNote_Execute demo_env ''ann'' (uuid_text (demo_id 5)) ''t'' ''new'' 3 (demo_world note_db) = (Inr n, w')"
    using demo_update_note by blast
  have "abacAccess_Allowed demo_cel [demo_open] ''ann'' ''user'' ''user'' ''note'' ''update'' [(''owner_id'', ''ann'')]"
    by (simp add: abacAccess_Allowed_def decide_def matches_def cached_def policy_demo)
  with up have run: "notes_handle demo_env (abacAccess_Allowed demo_cel [demo_open]) (Some ?p)
       (UpdateNoteRequest (uuid_text (demo_id 5)) ''t'' ''new'' 3) (demo_world note_db) = (Inr (NoteResponse (toProto n)), w')"
    by (simp add: NotesHandler_UpdateNote_def requirePrincipal_def classified_def)
  have "cache_ok demo_cel [demo_open]" by (simp add: cache_ok_def cached_def policy_demo)
  from note_updates_need_a_policy [OF this run] run show ?thesis by auto
qed

end
