(* ===== verification/Http.thy ===== *)
theory Http
  imports Redis AuthCtx
begin

text \<open>
  What the gateway uses of \<^verbatim>\<open>net/http\<close>: header maps, requests, response writers, handlers and
  middlewares (\<^verbatim>\<open>services/gateway/internal/edge/middleware.go\<close>). A response writer is an interface
  that the Gzip and Timeout middlewares implement themselves, so it is a record of operations
  on the writers' state. A handler is an act on the state of the gateway process; its error is
  a panic.
\<close>

section \<open>Headers\<close>

text \<open>
  A header map gives the values of a canonical name, none when it is absent.
  \<open>CanonicalHeaderKey\<close> is the canonical form of a name made of token characters: the first
  letter and each letter after a hyphen in upper case, the others in lower case.
\<close>

type_synonym headers = "string \<Rightarrow> string list"

definition ascii_upper :: "char \<Rightarrow> char" where
  "ascii_upper c = (if 97 \<le> byte_of c \<and> byte_of c \<le> 122 then char_of (byte_of c - 32) else c)"

fun canonical_from :: "bool \<Rightarrow> string \<Rightarrow> string" where
  "canonical_from up [] = []"
| "canonical_from up (c # s) = (if up then ascii_upper c else ascii_lower c) # canonical_from (c = CHR ''-'') s"

definition CanonicalHeaderKey :: "string \<Rightarrow> string" where
  "CanonicalHeaderKey k = canonical_from True k"

definition h_Values :: "headers \<Rightarrow> string \<Rightarrow> string list" where
  "h_Values h k = h (CanonicalHeaderKey k)"

definition h_Get :: "headers \<Rightarrow> string \<Rightarrow> string" where
  "h_Get h k = (case h_Values h k of [] \<Rightarrow> [] | v # vs \<Rightarrow> v)"

definition h_Set :: "string \<Rightarrow> string \<Rightarrow> headers \<Rightarrow> headers" where
  "h_Set k v h = h(CanonicalHeaderKey k := [v])"

definition h_Add :: "string \<Rightarrow> string \<Rightarrow> headers \<Rightarrow> headers" where
  "h_Add k v h = h(CanonicalHeaderKey k := h_Values h k @ [v])"

definition h_Del :: "string \<Rightarrow> headers \<Rightarrow> headers" where
  "h_Del k h = h(CanonicalHeaderKey k := [])"

definition no_headers :: headers where
  "no_headers = (\<lambda>_. [])"

section \<open>Requests and response writers\<close>

text \<open>
  A request as the server hands it to the handlers: its parsed line, headers and cookies, the
  body with the cap \<open>MaxBytesReader\<close> put on it, and what the middlewares keep in its context.
\<close>

record request =
  rq_method :: string
  rq_path :: string
  rq_uri :: string
  rq_host :: string
  rq_tls :: bool
  rq_remote :: string
  rq_headers :: headers
  rq_cookies :: "(string \<times> string) list"
  rq_body :: string
  rq_limit :: "int option"
  rq_request_id :: "string option"
  rq_nonce :: "string option"
  rq_principal :: "principal option"

text \<open>The header is sent with the first \<open>WriteHeader\<close>; later calls do not change it.\<close>

record writer =
  wr_header :: headers
  wr_sent :: "(nat \<times> headers) option"
  wr_body :: string

record gzip_writer =
  gz_wroteHeader :: bool
  gz_open :: bool
  gz_plain :: string

record wstate =
  ws_base :: writer
  ws_gzip :: gzip_writer
  ws_timeout :: writer
  ws_status :: nat

record rw =
  rw_Header :: "wstate \<Rightarrow> headers"
  rw_update :: "(headers \<Rightarrow> headers) \<Rightarrow> wstate \<Rightarrow> wstate"
  rw_WriteHeader :: "nat \<Rightarrow> wstate \<Rightarrow> wstate"
  rw_Write :: "string \<Rightarrow> wstate \<Rightarrow> wstate"

definition fresh_writer :: writer where
  "fresh_writer = \<lparr>wr_header = no_headers, wr_sent = None, wr_body = []\<rparr>"

definition writer_WriteHeader :: "nat \<Rightarrow> writer \<Rightarrow> writer" where
  "writer_WriteHeader code w =
     (case wr_sent w of Some _ \<Rightarrow> w | None \<Rightarrow> w\<lparr>wr_sent := Some (code, wr_header w)\<rparr>)"

definition writer_Write :: "string \<Rightarrow> writer \<Rightarrow> writer" where
  "writer_Write data w = (let w1 = writer_WriteHeader 200 w in w1\<lparr>wr_body := wr_body w1 @ data\<rparr>)"

definition server_writer :: rw where
  "server_writer =
     \<lparr>rw_Header = (\<lambda>s. wr_header (ws_base s)),
      rw_update = (\<lambda>f s. s\<lparr>ws_base := (ws_base s)\<lparr>wr_header := f (wr_header (ws_base s))\<rparr>\<rparr>),
      rw_WriteHeader = (\<lambda>code s. s\<lparr>ws_base := writer_WriteHeader code (ws_base s)\<rparr>),
      rw_Write = (\<lambda>data s. s\<lparr>ws_base := writer_Write data (ws_base s)\<rparr>)\<rparr>"

section \<open>Handlers and middlewares\<close>

text \<open>A call the gateway makes to a backend: its name, the full method and the metadata.\<close>

type_synonym upstream_call = "string \<times> string \<times> metadata"

datatype log_entry = PanicRecovered string | ServerError nat | SlowRequest nat

record edge =
  ed_world :: world
  ed_filter :: "64 word list"
  ed_globalCount :: int
  ed_globalWindow :: int
  ed_ws :: wstate
  ed_calls :: "upstream_call list"
  ed_log :: "log_entry list"

type_synonym 'a edge_act = "(edge, unit, 'a) act"
type_synonym handler = "rw \<Rightarrow> request \<Rightarrow> unit edge_act"
type_synonym middleware = "handler \<Rightarrow> handler"

definition Chain :: "handler \<Rightarrow> middleware list \<Rightarrow> handler" where
  "Chain h middlewares = foldr (\<lambda>m h. m h) middlewares h"

text \<open>Acts on the writer, and calls to the clock, the random source and Redis.\<close>

definition ed_write :: "(wstate \<Rightarrow> wstate) \<Rightarrow> unit edge_act" where
  "ed_write f = modify (\<lambda>s. s\<lparr>ed_ws := f (ed_ws s)\<rparr>)"

definition outside :: "(world, gerr, 'a) act \<Rightarrow> (gerr + 'a) edge_act" where
  "outside m = (\<lambda>s. case m (ed_world s) of (r, w) \<Rightarrow> (Inr r, s\<lparr>ed_world := w\<rparr>))"

definition edge_now :: "env \<Rightarrow> int edge_act" where
  "edge_now E = andThen (outside (clock_Now E)) (\<lambda>r. case r of Inr t \<Rightarrow> ret t | Inl e \<Rightarrow> fail ())"

definition http_Error :: "rw \<Rightarrow> string \<Rightarrow> nat \<Rightarrow> unit edge_act" where
  "http_Error rw msg code =
     andThen (ed_write (rw_update rw (\<lambda>h. h_Set ''X-Content-Type-Options'' ''nosniff''
                (h_Set ''Content-Type'' ''text/plain; charset=utf-8'' (h_Del ''Content-Length'' h))))) (\<lambda>_.
     andThen (ed_write (rw_WriteHeader rw code)) (\<lambda>_.
       ed_write (rw_Write rw (msg @ [CHR 0x0A]))))"

definition edge_bearerToken :: "request \<Rightarrow> string" where
  "edge_bearerToken r =
     (let header = h_Get (rq_headers r) ''Authorization'' in
      case cut_prefix header ''Bearer '' of
        Some remainder \<Rightarrow> remainder
      | None \<Rightarrow> (case cut_prefix header ''bearer '' of Some remainder \<Rightarrow> remainder | None \<Rightarrow> []))"

lemma Chain_Nil [simp]: "Chain h [] = h"
  and Chain_Cons [simp]: "Chain h (m # ms) = m (Chain h ms)"
  by (simp_all add: Chain_def)

lemma edge_now_simp [simp]:
  "edge_now E s = (Inr (e_now E (w_step (ed_world s))),
     s\<lparr>ed_world := (ed_world s)\<lparr>w_step := Suc (w_step (ed_world s))\<rparr>\<rparr>)"
  by (simp add: edge_now_def outside_def andThen_def)

lemma ed_write_simp [simp]: "ed_write f s = (Inr (), s\<lparr>ed_ws := f (ed_ws s)\<rparr>)"
  by (simp add: ed_write_def)

lemma h_simps [simp]:
  "h_Values (h_Set k v h) k = [v]" "h_Get (h_Set k v h) k = v" "h_Get (h_Del k h) k = []" "h_Values (h_Del k h) k = []"
  by (simp_all add: h_Values_def h_Get_def h_Set_def h_Del_def)

lemma h_other:
  "CanonicalHeaderKey k \<noteq> CanonicalHeaderKey k' \<Longrightarrow> h_Values (h_Set k v h) k' = h_Values h k'"
  "CanonicalHeaderKey k \<noteq> CanonicalHeaderKey k' \<Longrightarrow> h_Values (h_Del k h) k' = h_Values h k'"
  by (simp_all add: h_Values_def h_Set_def h_Del_def)

end
