(* ===== verification/EdgeAuth.thy ===== *)
theory EdgeAuth
  imports Http
begin

text \<open>
  Edge authentication (\<^verbatim>\<open>edge/bloom.go\<close>, \<^verbatim>\<open>edge/auth.go\<close>, \<^verbatim>\<open>platform/jwt\<close>): the Bloom filter in
  front of the Redis blacklist, with its 64-bit arithmetic, the verifier, and the middleware
  that is the only source of identity headers. The parser of \<^verbatim>\<open>golang-jwt\<close> is a parameter: what
  it reads from a token's text and whether the signature is one by the configured key.
\<close>

unbundle bit_operations_syntax

section \<open>The Bloom filter\<close>

definition bloomM :: "64 word" where "bloomM = 14400000"
definition bloomK :: nat where "bloomK = 10"
definition blacklistChannel :: string where "blacklistChannel = ''jwt:blacklist:events''"

definition fnv64a :: "string \<Rightarrow> 64 word" where
  "fnv64a s = fold (\<lambda>c h. (h XOR of_nat (byte_of c)) * 1099511628211) s 14695981039346656037"

definition bloomHashes :: "string \<Rightarrow> 64 word \<times> 64 word" where
  "bloomHashes s =
     (let h1 = fnv64a s; h2 = word_rotl 17 h1 XOR 0x9e3779b97f4a7c15 in (h1, h2 OR 1))"

definition bloom_pos :: "64 word \<times> 64 word \<Rightarrow> nat \<Rightarrow> 64 word" where
  "bloom_pos h i = (fst h + of_nat i * snd h) mod bloomM"

definition bit_mask :: "64 word \<Rightarrow> 64 word" where
  "bit_mask pos = push_bit (unat (pos mod 64)) 1"

definition new_filter :: "64 word list" where
  "new_filter = replicate ((14400000 + 63) div 64) 0"

definition addToFilter :: "string \<Rightarrow> 64 word list \<Rightarrow> 64 word list" where
  "addToFilter jti fl =
     fold (\<lambda>i f. let pos = bloom_pos (bloomHashes jti) i; k = unat (pos div 64) in f[k := (f ! k) OR bit_mask pos])
       [0..<bloomK] fl"

definition inFilter :: "string \<Rightarrow> 64 word list \<Rightarrow> bool" where
  "inFilter jti fl =
     list_all (\<lambda>i. let pos = bloom_pos (bloomHashes jti) i in (fl ! unat (pos div 64)) AND bit_mask pos \<noteq> 0) [0..<bloomK]"

text \<open>\<open>IsRevoked\<close>: Redis is asked only when the filter says maybe, and a Redis error is a no.\<close>

definition redis_Exists :: "env \<Rightarrow> string \<Rightarrow> (world, gerr, int) act" where
  "redis_Exists E k = redis_call E (\<lambda>t s. (Inr (if r_get t k s = None then 0 else 1), s))"

definition IsRevoked :: "env \<Rightarrow> string \<Rightarrow> bool edge_act" where
  "IsRevoked E jti s =
     (if \<not> inFilter jti (ed_filter s) then (Inr False, s)
      else andThen (outside (redis_Exists E (''jwt:blacklist:'' @ jti)))
             (\<lambda>r. ret (case r of Inl err \<Rightarrow> False | Inr n \<Rightarrow> n > 0)) s)"

text \<open>The listener of \<open>Subscribe\<close>: one message of the channel.\<close>

definition on_message :: "string \<times> string \<Rightarrow> edge \<Rightarrow> edge" where
  "on_message m s = (if fst m = blacklistChannel then s\<lparr>ed_filter := addToFilter (snd m) (ed_filter s)\<rparr> else s)"

definition NewTokenBlacklist :: "edge \<Rightarrow> edge" where
  "NewTokenBlacklist s = s\<lparr>ed_filter := new_filter\<rparr>"

section \<open>Verification\<close>

record jwt_token =
  jt_alg :: string
  jt_claims :: claims
  jt_has_exp :: bool
  jt_signed :: bool

text \<open>
  \<open>Verify\<close> at the time \<open>t\<close>: the method is pinned to RS256, the signature must be the key's, the
  expiry must be there and ahead, the not-before behind, and the issuer the configured one.
\<close>

definition Verifier_Verify :: "(string \<Rightarrow> jwt_token option) \<Rightarrow> string \<Rightarrow> int \<Rightarrow> string \<Rightarrow> gerr + claims" where
  "Verifier_Verify parse issuer t tokenString =
     (case parse tokenString of
        None \<Rightarrow> Inl (External ''invalid token'')
      | Some tok \<Rightarrow>
          if jt_alg tok \<noteq> ''RS256'' \<or> \<not> jt_signed tok \<or> \<not> jt_has_exp tok
             \<or> c_expires_at (jt_claims tok) \<le> t \<or> t < c_not_before (jt_claims tok) \<or> c_issuer (jt_claims tok) \<noteq> issuer
          then Inl (External ''invalid token'')
          else Inr (jt_claims tok))"

section \<open>The middleware\<close>

record authenticator =
  an_verifier :: "((string \<Rightarrow> jwt_token option) \<times> string) option"
  an_blacklist :: bool

definition stripIdentityHeaders :: "request \<Rightarrow> request" where
  "stripIdentityHeaders r =
     r\<lparr>rq_headers := h_Del ''X-Token-Type'' (h_Del ''X-Role'' (h_Del ''X-User-Id'' (rq_headers r)))\<rparr>"

definition injectIdentityHeaders :: "principal \<Rightarrow> request \<Rightarrow> request" where
  "injectIdentityHeaders p r =
     r\<lparr>rq_headers := h_Set ''X-Token-Type'' (p_TokenType p) (h_Set ''X-Role'' (p_Role p) (h_Set ''X-User-Id'' (p_UserID p) (rq_headers r)))\<rparr>"

definition claims_principal :: "claims \<Rightarrow> principal" where
  "claims_principal c = \<lparr>p_UserID = c_subject c, p_Role = c_role c, p_TokenType = c_token_type c\<rparr>"

definition Authenticator_Middleware :: "env \<Rightarrow> authenticator \<Rightarrow> middleware" where
  "Authenticator_Middleware E a inner rw r0 =
     (let r = stripIdentityHeaders r0; token = edge_bearerToken r in
      case an_verifier a of
        None \<Rightarrow> inner rw r
      | Some (parse, issuer) \<Rightarrow>
          if token = [] then inner rw r
          else
            andThen (edge_now E) (\<lambda>t.
            case Verifier_Verify parse issuer t token of
              Inl err \<Rightarrow> inner rw r
            | Inr c \<Rightarrow>
                andThen (if an_blacklist a then IsRevoked E (c_id c) else ret False) (\<lambda>revoked.
                if revoked then http_Error rw ''token revoked'' 401
                else
                  let p = claims_principal c in
                  inner rw ((injectIdentityHeaders p r)\<lparr>rq_principal := Some p\<rparr>))))"

end
