(* ===== verification/EdgeLimits.thy ===== *)
theory EdgeLimits
  imports Http
begin

text \<open>
  The rate limiter (\<^verbatim>\<open>edge/ratelimit.go\<close>): the in-memory ceiling per second, the sliding window
  in Redis per client and per endpoint, and the client's address.
\<close>

section \<open>The sliding window\<close>

text \<open>
  The Lua script, run atomically by Redis at its time \<open>t\<close>. \<open>PEXPIRE\<close> takes milliseconds. The
  result is the floor of \<open>prev * weight + curr\<close>, computed exactly here; the script computes it
  in floating point.
\<close>

definition slidingWindowScript :: "string \<Rightarrow> string \<Rightarrow> int \<Rightarrow> int \<Rightarrow> int \<Rightarrow> redis \<Rightarrow> (gerr + int) \<times> redis" where
  "slidingWindowScript currKey prevKey windowMs elapsed t s =
     (case r_incr t currKey s of
        (Inl e, s1) \<Rightarrow> (Inl e, s1)
      | (Inr cnt, s1) \<Rightarrow>
          let s2 = (if cnt = 1 then r_expire t currKey (windowMs * 2 * 1000) s1 else s1) in
          case r_get t prevKey s2 of
            None \<Rightarrow> (Inr cnt, s2)
          | Some (RInt prev) \<Rightarrow> (Inr (prev * (windowMs - elapsed) div windowMs + cnt), s2)
          | Some _ \<Rightarrow> (Inl (External ''attempt to perform arithmetic on a nil value''), s2))"

fun digits_of :: "nat \<Rightarrow> string" where
  "digits_of n = (if n < 10 then [char_of (48 + n)] else digits_of (n div 10) @ [char_of (48 + n mod 10)])"

declare digits_of.simps [simp del]

definition FormatInt :: "int \<Rightarrow> string" where
  "FormatInt i = (if i < 0 then ''-'' @ digits_of (nat (- i)) else digits_of (nat i))"

definition window_key :: "string \<Rightarrow> int \<Rightarrow> string" where
  "window_key key n = ''rl:'' @ key @ '':'' @ FormatInt n"

text \<open>\<open>allow\<close>; the window is given in milliseconds, the clock in microseconds.\<close>

definition allow :: "env \<Rightarrow> string \<Rightarrow> int \<Rightarrow> int \<Rightarrow> bool edge_act" where
  "allow E key limit windowMs =
     andThen (edge_now E) (\<lambda>t.
       let nowMs = t div 1000; currWindow = nowMs div windowMs; elapsed = nowMs mod windowMs in
       andThen (outside (redis_call E (slidingWindowScript (window_key key currWindow) (window_key key (currWindow - 1)) windowMs elapsed)))
         (\<lambda>r. ret (case r of Inl err \<Rightarrow> True | Inr count \<Rightarrow> count \<le> limit)))"

section \<open>The client\<close>

text \<open>\<open>net.SplitHostPort\<close>, the host or \<open>None\<close> for an error.\<close>

definition last_colon :: "string \<Rightarrow> (string \<times> string) option" where
  "last_colon s = (case cut (CHR '':'') (rev s) of None \<Rightarrow> None | Some (p, h) \<Rightarrow> Some (rev h, rev p))"

definition SplitHostPort :: "string \<Rightarrow> string option" where
  "SplitHostPort s =
     (case last_colon s of
        None \<Rightarrow> None
      | Some (h, p) \<Rightarrow>
          if has_prefix s ''['' then
            (case cut (CHR '']'') s of
               None \<Rightarrow> None
             | Some (pre, post) \<Rightarrow>
                 if post \<noteq> CHR '':'' # p then None
                 else if CHR ''['' \<in> set (drop 1 pre) \<or> CHR ''['' \<in> set p \<or> CHR '']'' \<in> set p then None
                 else Some (drop 1 pre))
          else if CHR '':'' \<in> set h then None
          else if CHR ''['' \<in> set s \<or> CHR '']'' \<in> set s then None
          else Some h)"

definition clientIP :: "request \<Rightarrow> string" where
  "clientIP r =
     (let fwd = h_Get (rq_headers r) ''X-Forwarded-For'' in
      if fwd \<noteq> [] then
        (case cut (CHR '','') fwd of
           Some (leftmost, _) \<Rightarrow> trim_space leftmost
         | None \<Rightarrow> trim_space fwd)
      else
        (case SplitHostPort (rq_remote r) of None \<Rightarrow> rq_remote r | Some host \<Rightarrow> host))"

section \<open>The three levels\<close>

text \<open>\<open>Global\<close>: seconds since the epoch, one counter for the second it was last reset in.\<close>

definition global_claim :: "int \<Rightarrow> edge \<Rightarrow> edge" where
  "global_claim sec s =
     (if sec \<noteq> ed_globalWindow s then s\<lparr>ed_globalWindow := sec, ed_globalCount := 0\<rparr> else s)"

definition global_add :: "int edge_act" where
  "global_add = andThen (modify (\<lambda>s. s\<lparr>ed_globalCount := ed_globalCount s + 1\<rparr>)) (\<lambda>_. reads ed_globalCount)"

definition RateLimiter_Global :: "env \<Rightarrow> int \<Rightarrow> middleware" where
  "RateLimiter_Global E perSecond inner rw r =
     andThen (edge_now E) (\<lambda>t.
     andThen (modify (global_claim (t div 1000000))) (\<lambda>_.
     andThen global_add (\<lambda>n.
       if n > perSecond then
         andThen (ed_write (rw_update rw (h_Set ''Retry-After'' ''1''))) (\<lambda>_.
           http_Error rw ''server capacity exceeded'' 429)
       else inner rw r)))"

definition RateLimiter_PerIP :: "env \<Rightarrow> int \<Rightarrow> middleware" where
  "RateLimiter_PerIP E perMinute inner rw r =
     andThen (allow E (''ip:'' @ clientIP r) perMinute 60000) (\<lambda>ok.
       if \<not> ok then
         andThen (ed_write (rw_update rw (h_Set ''Retry-After'' ''60''))) (\<lambda>_.
           http_Error rw ''rate limit exceeded'' 429)
       else inner rw r)"

text \<open>The endpoint limits in the order the map is iterated in; the first match is the only one tried.\<close>

definition EndpointLimits :: "(string \<times> int) list" where
  "EndpointLimits =
     [(''Login'', 10), (''Register'', 20), (''RequestPasswordReset'', 10), (''ResetPassword'', 10),
      (''RequestEmailVerification'', 10), (''VerifyEmail'', 10), (''ValidateAPIKey'', 120)]"

definition RateLimiter_PerEndpoint :: "env \<Rightarrow> (string \<times> int) list \<Rightarrow> middleware" where
  "RateLimiter_PerEndpoint E limits inner rw r =
     (case find (\<lambda>(endpoint, limit). has_suffix (rq_path r) endpoint) limits of
        None \<Rightarrow> inner rw r
      | Some (endpoint, limit) \<Rightarrow>
          andThen (allow E (''ep:'' @ endpoint @ '':'' @ clientIP r) limit 60000) (\<lambda>ok.
            if \<not> ok then
              andThen (ed_write (rw_update rw (h_Set ''Retry-After'' ''60''))) (\<lambda>_.
                http_Error rw ''endpoint rate limit exceeded'' 429)
            else inner rw r))"

end
