(* ===== verification/EdgeChain.thy ===== *)
theory EdgeChain
  imports EdgeAuth EdgeLimits
begin

text \<open>
  The remaining middlewares of the edge (\<^verbatim>\<open>middleware.go\<close>, \<^verbatim>\<open>redirect.go\<close>, \<^verbatim>\<open>security.go\<close>,
  \<^verbatim>\<open>gzip.go\<close>, \<^verbatim>\<open>csrf.go\<close>), the bridge to the backends (\<^verbatim>\<open>proxy.go\<close>) and the chain that
  \<^verbatim>\<open>server.go\<close> builds of them. \<open>edge_env\<close> adds to the environment what the gateway's libraries
  decide: whether a request overruns its time, what gzip makes of a body, what gRPC call the
  grpc-web wrapper reads from a request, and the response it writes.
\<close>

text \<open>What became of a request at the bridge.\<close>

datatype bridged = NotGrpcWeb | NoBackend string | Called upstream_call

record edge_env =
  ee_env :: env
  ee_late :: "nat \<Rightarrow> bool"
  ee_gzip :: "string \<Rightarrow> string"
  ee_redirect_note :: "string \<Rightarrow> nat \<Rightarrow> string"
  ee_bridge :: "request \<Rightarrow> (string \<times> metadata) option"
  ee_answer :: "bridged \<Rightarrow> nat \<Rightarrow> (nat \<times> (string \<times> string) list \<times> string) option"

section \<open>Recovery, correlation, logging\<close>

definition Recovery :: middleware where
  "Recovery inner rw r s =
     (case inner rw r s of
        (Inl _, s1) \<Rightarrow>
          http_Error rw ''internal server error'' 500 (s1\<lparr>ed_log := ed_log s1 @ [PanicRecovered (rq_path r)]\<rparr>)
      | (Inr _, s1) \<Rightarrow> (Inr (), s1))"

definition RequestID :: "env \<Rightarrow> middleware" where
  "RequestID E inner rw r =
     andThen
       (let rid = h_Get (rq_headers r) ''X-Request-Id'' in
        if rid = [] then
          andThen (outside (UUIDGenerator_NewID E)) (\<lambda>g.
            ret (case g of Inl err \<Rightarrow> ''unavailable'' | Inr generated \<Rightarrow> generated))
        else ret rid) (\<lambda>rid.
     andThen (ed_write (rw_update rw (h_Set ''X-Request-Id'' rid))) (\<lambda>_.
       inner rw (r\<lparr>rq_request_id := Some rid\<rparr>)))"

text \<open>\<open>statusRecorder\<close> remembers the last status written through it.\<close>

definition statusRecorder :: "rw \<Rightarrow> rw" where
  "statusRecorder rw = rw\<lparr>rw_WriteHeader := (\<lambda>code s. rw_WriteHeader rw code (s\<lparr>ws_status := code\<rparr>))\<rparr>"

definition slowThreshold :: int where "slowThreshold = 1000000"

definition Logger :: "env \<Rightarrow> middleware" where
  "Logger E inner rw r =
     andThen (edge_now E) (\<lambda>start.
     andThen (ed_write (\<lambda>s. s\<lparr>ws_status := 200\<rparr>)) (\<lambda>_.
     andThen (inner (statusRecorder rw) r) (\<lambda>_.
     andThen (edge_now E) (\<lambda>t.
     andThen (reads (\<lambda>s. ws_status (ed_ws s))) (\<lambda>status.
       if status \<ge> 500 then modify (\<lambda>s. s\<lparr>ed_log := ed_log s @ [ServerError status]\<rparr>)
       else if t - start > slowThreshold then modify (\<lambda>s. s\<lparr>ed_log := ed_log s @ [SlowRequest status]\<rparr>)
       else ret ())))))"

section \<open>Redirect and browser headers\<close>

definition isSecureRequest :: "request \<Rightarrow> bool" where
  "isSecureRequest r \<longleftrightarrow> rq_tls r \<or> h_Get (rq_headers r) ''X-Forwarded-Proto'' = ''https''"

definition hexEscapeNonASCII :: "string \<Rightarrow> string" where
  "hexEscapeNonASCII s = concat (map (\<lambda>c. if byte_of c < 128 then [c] else ''%'' @ hex_byte (of_nat (byte_of c))) s)"

definition http_Redirect :: "edge_env \<Rightarrow> rw \<Rightarrow> request \<Rightarrow> string \<Rightarrow> nat \<Rightarrow> unit edge_act" where
  "http_Redirect X rw r url code =
     andThen (reads (\<lambda>s. h_Values (rw_Header rw (ed_ws s)) ''Content-Type'' \<noteq> [])) (\<lambda>hadCT.
     andThen (ed_write (rw_update rw (h_Set ''Location'' (hexEscapeNonASCII url)))) (\<lambda>_.
     andThen (if \<not> hadCT \<and> (rq_method r = ''GET'' \<or> rq_method r = ''HEAD'')
              then ed_write (rw_update rw (h_Set ''Content-Type'' ''text/html; charset=utf-8'')) else ret ()) (\<lambda>_.
     andThen (ed_write (rw_WriteHeader rw code)) (\<lambda>_.
       if \<not> hadCT \<and> rq_method r = ''GET'' then ed_write (rw_Write rw (ee_redirect_note X url code)) else ret ()))))"

definition HTTPSRedirect :: "edge_env \<Rightarrow> bool \<Rightarrow> middleware" where
  "HTTPSRedirect X enabled inner rw r =
     (if \<not> enabled \<or> isSecureRequest r then inner rw r
      else
        let target = ''https://'' @ rq_host r @ rq_uri r;
            status = (if rq_method r \<noteq> ''GET'' \<and> rq_method r \<noteq> ''HEAD'' then 308 else 301)
        in http_Redirect X rw r target status)"

definition edge_HexToken :: "env \<Rightarrow> nat \<Rightarrow> (gerr + string) edge_act" where
  "edge_HexToken E n = outside (andThen (rand_Read E n) (\<lambda>raw. liftE (from_secure (sec_HexToken raw))))"

definition quoted :: "string \<Rightarrow> string" where
  "quoted s = CHR 0x27 # s @ [CHR 0x27]"

definition csp :: "bool \<Rightarrow> string \<Rightarrow> string" where
  "csp isProduction nonce =
     (if isProduction then
        ''default-src '' @ quoted ''self'' @ ''; script-src '' @ quoted ''self'' @ '' '' @ quoted (''nonce-'' @ nonce) @
        ''; style-src '' @ quoted ''self'' @ '' '' @ quoted (''nonce-'' @ nonce) @ '' '' @ quoted ''unsafe-inline'' @
        ''; img-src '' @ quoted ''self'' @ '' data: https:; font-src '' @ quoted ''self'' @ '' data:; connect-src '' @ quoted ''self'' @
        ''; frame-ancestors '' @ quoted ''none'' @ ''; base-uri '' @ quoted ''self'' @ ''; form-action '' @ quoted ''self''
      else
        ''default-src '' @ quoted ''self'' @ '' '' @ quoted ''unsafe-eval'' @ ''; script-src '' @ quoted ''self'' @ '' '' @
        quoted ''unsafe-inline'' @ '' '' @ quoted ''unsafe-eval'' @ '' '' @ quoted (''nonce-'' @ nonce) @
        ''; style-src '' @ quoted ''self'' @ '' '' @ quoted ''unsafe-inline'' @ ''; connect-src '' @ quoted ''self'' @ '' ws: wss:'')"

definition security_headers :: "bool \<Rightarrow> headers \<Rightarrow> headers" where
  "security_headers isProduction h =
     (let h1 = h_Set ''Permissions-Policy'' ''geolocation=(), microphone=(), camera=()''
          (h_Set ''Referrer-Policy'' ''strict-origin-when-cross-origin'' (h_Set ''X-XSS-Protection'' ''1; mode=block''
          (h_Set ''X-Frame-Options'' ''DENY'' (h_Set ''X-Content-Type-Options'' ''nosniff'' h))))
      in if isProduction then h_Set ''Strict-Transport-Security'' ''max-age=31536000; includeSubDomains'' h1 else h1)"

definition SecurityHeaders :: "env \<Rightarrow> bool \<Rightarrow> middleware" where
  "SecurityHeaders E isProduction inner rw r =
     andThen (ed_write (rw_update rw (security_headers isProduction))) (\<lambda>_.
     andThen (edge_HexToken E 16) (\<lambda>t.
     case t of
       Inl err \<Rightarrow> inner rw r
     | Inr nonce \<Rightarrow>
         andThen (ed_write (rw_update rw (h_Set ''Content-Security-Policy'' (csp isProduction nonce)))) (\<lambda>_.
           inner rw (r\<lparr>rq_nonce := Some nonce\<rparr>))))"

definition cors_headers :: "string \<Rightarrow> headers \<Rightarrow> headers" where
  "cors_headers origin h =
     h_Add ''Vary'' ''Origin''
       (h_Set ''Access-Control-Allow-Headers''
          ''Content-Type, Authorization, X-Request-Id, X-Grpc-Web, X-User-Agent, Connect-Protocol-Version, X-XSRF-Token''
       (h_Set ''Access-Control-Allow-Methods'' ''GET, POST, OPTIONS''
       (h_Set ''Access-Control-Allow-Credentials'' ''true'' (h_Set ''Access-Control-Allow-Origin'' origin h))))"

definition CORS :: "string list \<Rightarrow> middleware" where
  "CORS allowedOrigins inner rw r =
     (let origin = h_Get (rq_headers r) ''Origin'' in
      andThen (if origin \<noteq> [] \<and> origin \<in> set allowedOrigins then ed_write (rw_update rw (cors_headers origin)) else ret ()) (\<lambda>_.
        if rq_method r = ''OPTIONS'' then ed_write (rw_WriteHeader rw 204) else inner rw r))"

section \<open>Compression\<close>

fun contains :: "string \<Rightarrow> string \<Rightarrow> bool" where
  "contains [] p = (p = [])"
| "contains (c # s) p = (has_prefix (c # s) p \<or> contains s p)"

definition compressibleTypes :: "string list" where
  "compressibleTypes = [''application/json'', ''application/javascript'', ''application/xml'', ''image/svg+xml'', ''text/'']"

definition isCompressible :: "string \<Rightarrow> bool" where
  "isCompressible contentType = list_ex (has_prefix contentType) compressibleTypes"

definition gzip_WriteHeader :: "rw \<Rightarrow> nat \<Rightarrow> wstate \<Rightarrow> wstate" where
  "gzip_WriteHeader rw code s =
     (if gz_wroteHeader (ws_gzip s) then rw_WriteHeader rw code s
      else
        let s1 = s\<lparr>ws_gzip := (ws_gzip s)\<lparr>gz_wroteHeader := True\<rparr>\<rparr>; h = rw_Header rw s1;
            s2 = (if h_Get h ''Content-Encoding'' = [] \<and> isCompressible (h_Get h ''Content-Type'')
                  then (rw_update rw (\<lambda>h. h_Del ''Content-Length'' (h_Set ''Content-Encoding'' ''gzip'' h)) s1)
                         \<lparr>ws_gzip := \<lparr>gz_wroteHeader = True, gz_open = True, gz_plain = []\<rparr>\<rparr>
                  else s1)
        in rw_WriteHeader rw code s2)"

definition gzip_Write :: "rw \<Rightarrow> string \<Rightarrow> wstate \<Rightarrow> wstate" where
  "gzip_Write rw data s =
     (let s1 = (if gz_wroteHeader (ws_gzip s) then s else gzip_WriteHeader rw 200 s) in
      if gz_open (ws_gzip s1) then s1\<lparr>ws_gzip := (ws_gzip s1)\<lparr>gz_plain := gz_plain (ws_gzip s1) @ data\<rparr>\<rparr>
      else rw_Write rw data s1)"

text \<open>The deferred \<open>close\<close>: what the compressor held goes out as one stream.\<close>

definition gzip_close :: "edge_env \<Rightarrow> rw \<Rightarrow> wstate \<Rightarrow> wstate" where
  "gzip_close X rw s =
     (if \<not> gz_open (ws_gzip s) then s
      else (rw_Write rw (ee_gzip X (gz_plain (ws_gzip s))) s)\<lparr>ws_gzip := \<lparr>gz_wroteHeader = True, gz_open = False, gz_plain = []\<rparr>\<rparr>)"

definition gzip_writer_of :: "rw \<Rightarrow> rw" where
  "gzip_writer_of rw = rw\<lparr>rw_WriteHeader := gzip_WriteHeader rw, rw_Write := gzip_Write rw\<rparr>"

definition Gzip :: "edge_env \<Rightarrow> middleware" where
  "Gzip X inner rw r =
     (if \<not> contains (h_Get (rq_headers r) ''Accept-Encoding'') ''gzip'' then inner rw r
      else if has_prefix (h_Get (rq_headers r) ''Content-Type'') ''application/grpc-web'' then inner rw r
      else
        andThen (ed_write (\<lambda>s. (rw_update rw (h_Add ''Vary'' ''Accept-Encoding'') s)
                   \<lparr>ws_gzip := \<lparr>gz_wroteHeader = False, gz_open = False, gz_plain = []\<rparr>\<rparr>)) (\<lambda>_ s.
          case inner (gzip_writer_of rw) r s of (res, s1) \<Rightarrow> (res, s1\<lparr>ed_ws := gzip_close X rw (ed_ws s1)\<rparr>)))"

section \<open>Guards\<close>

definition BodyLimit :: "int \<Rightarrow> middleware" where
  "BodyLimit maxBytes inner rw r = inner rw (r\<lparr>rq_limit := Some maxBytes\<rparr>)"

text \<open>
  \<open>http.TimeoutHandler\<close>: the handler runs on a buffer, which is copied out when it returned in
  time; when it is late its effects stay but its response is replaced.
\<close>

definition timeout_writer :: rw where
  "timeout_writer =
     \<lparr>rw_Header = (\<lambda>s. wr_header (ws_timeout s)),
      rw_update = (\<lambda>f s. s\<lparr>ws_timeout := (ws_timeout s)\<lparr>wr_header := f (wr_header (ws_timeout s))\<rparr>\<rparr>),
      rw_WriteHeader = (\<lambda>code s. s\<lparr>ws_timeout := writer_WriteHeader code (ws_timeout s)\<rparr>),
      rw_Write = (\<lambda>data s. s\<lparr>ws_timeout := writer_Write data (ws_timeout s)\<rparr>)\<rparr>"

definition timeout_flush :: "rw \<Rightarrow> wstate \<Rightarrow> wstate" where
  "timeout_flush rw s =
     (let tw = ws_timeout s; code = (case wr_sent tw of None \<Rightarrow> 200 | Some (c, _) \<Rightarrow> c) in
      rw_Write rw (wr_body tw) (rw_WriteHeader rw code
        (rw_update rw (\<lambda>h k. if wr_header tw k \<noteq> [] then wr_header tw k else h k) s)))"

definition Timeout :: "edge_env \<Rightarrow> middleware" where
  "Timeout X inner rw r s =
     (case inner timeout_writer r (s\<lparr>ed_ws := (ed_ws s)\<lparr>ws_timeout := fresh_writer\<rparr>\<rparr>) of
        (res, s1) \<Rightarrow>
          if ee_late X (w_step (ed_world s))
          then andThen (ed_write (rw_WriteHeader rw 503)) (\<lambda>_. ed_write (rw_Write rw ''request timed out'')) s1
          else (case res of Inl p \<Rightarrow> (Inl p, s1) | Inr _ \<Rightarrow> ed_write (timeout_flush rw) s1))"

definition csrfCookieName :: string where "csrfCookieName = ''XSRF-TOKEN''"
definition csrfHeaderName :: string where "csrfHeaderName = ''X-XSRF-TOKEN''"
definition csrfTokenLen :: nat where "csrfTokenLen = 32"

definition isSafeMethod :: "string \<Rightarrow> bool" where
  "isSafeMethod method \<longleftrightarrow> method \<in> {''GET'', ''HEAD'', ''OPTIONS'', ''TRACE''}"

definition csrf_cookie :: "bool \<Rightarrow> string \<Rightarrow> string" where
  "csrf_cookie isProduction token =
     csrfCookieName @ ''='' @ token @ ''; Path=/; Max-Age=86400'' @ (if isProduction then ''; Secure'' else []) @ ''; SameSite=Strict''"

definition ensureCSRFCookie :: "env \<Rightarrow> bool \<Rightarrow> rw \<Rightarrow> unit edge_act" where
  "ensureCSRFCookie E isProduction rw =
     andThen (edge_HexToken E csrfTokenLen) (\<lambda>t.
     case t of
       Inl err \<Rightarrow> ret ()
     | Inr token \<Rightarrow> ed_write (rw_update rw (h_Add ''Set-Cookie'' (csrf_cookie isProduction token))))"

definition CSRF :: "env \<Rightarrow> bool \<Rightarrow> middleware" where
  "CSRF E isProduction inner rw r =
     (if isSafeMethod (rq_method r) then
        andThen (ensureCSRFCookie E isProduction rw) (\<lambda>_. inner rw r)
      else
        let authz = h_Get (rq_headers r) ''Authorization'' in
        if has_prefix authz ''Bearer '' \<or> has_prefix authz ''bearer '' then inner rw r
        else if has_prefix (h_Get (rq_headers r) ''Content-Type'') ''application/grpc-web'' then inner rw r
        else
          case map_of (rq_cookies r) csrfCookieName of
            None \<Rightarrow> http_Error rw ''CSRF token missing'' 403
          | Some cookie \<Rightarrow>
              if cookie = [] then http_Error rw ''CSRF token missing'' 403
              else if cookie \<noteq> h_Get (rq_headers r) csrfHeaderName then http_Error rw ''CSRF token mismatch'' 403
              else andThen (ensureCSRFCookie E isProduction rw) (\<lambda>_. inner rw r))"

section \<open>The bridge\<close>

definition routes :: "(string \<times> string) list" where
  "routes = [(''example.'', ''core''), (''identity.'', ''core''), (''authz.'', ''core''), (''audit.'', ''core'')]"

definition forwardableHeaders :: "string list" where
  "forwardableHeaders = [''x-user-id'', ''x-role'', ''x-token-type'', ''x-request-id'']"

text \<open>The connections are to the one backend \<open>core\<close>, so a route that matches has its connection.\<close>

definition Proxy_resolve :: "string \<Rightarrow> string option" where
  "Proxy_resolve path =
     (let trimmed = trim_prefix path ''/'' in
      map_option snd (find (\<lambda>(packagePrefix, backend). has_prefix trimmed packagePrefix) routes))"

definition Proxy_direct :: "string \<Rightarrow> metadata \<Rightarrow> string + upstream_call" where
  "Proxy_direct fullMethod incoming =
     (case Proxy_resolve fullMethod of
        None \<Rightarrow> Inl (''no backend for method '' @ fullMethod)
      | Some backend \<Rightarrow>
          Inr (backend, fullMethod, concat (map (\<lambda>key. map (\<lambda>v. (key, v)) (md_Get incoming key)) forwardableHeaders)))"

definition bridge_answer :: "edge_env \<Rightarrow> rw \<Rightarrow> bridged \<Rightarrow> unit edge_act" where
  "bridge_answer X rw b s =
     (case ee_answer X b (w_step (ed_world s)) of
        None \<Rightarrow> (Inl (), s)
      | Some (code, hs, body) \<Rightarrow>
          andThen (ed_write (rw_update rw (fold (\<lambda>(k, v). h_Set k v) hs))) (\<lambda>_.
          andThen (ed_write (rw_WriteHeader rw code)) (\<lambda>_. ed_write (rw_Write rw body))) s)"

definition Proxy_Handler :: "edge_env \<Rightarrow> handler" where
  "Proxy_Handler X rw r =
     (case ee_bridge X r of
        None \<Rightarrow> bridge_answer X rw NotGrpcWeb
      | Some (fullMethod, incoming) \<Rightarrow>
          (case Proxy_direct fullMethod incoming of
             Inl msg \<Rightarrow> bridge_answer X rw (NoBackend msg)
           | Inr call \<Rightarrow>
               andThen (modify (\<lambda>s. s\<lparr>ed_calls := ed_calls s @ [call]\<rparr>)) (\<lambda>_. bridge_answer X rw (Called call))))"

section \<open>The chain\<close>

record gateway_config =
  gc_production :: bool
  gc_AllowedOrigins :: "string list"
  gc_MaxBodyBytes :: int
  gc_GlobalPerSecond :: int
  gc_PerIPPerMinute :: int

definition BuildHandler :: "edge_env \<Rightarrow> gateway_config \<Rightarrow> authenticator \<Rightarrow> handler" where
  "BuildHandler X cfg a =
     (let E = ee_env X; production = gc_production cfg in
      Chain (Proxy_Handler X)
        [Recovery,
         RequestID E,
         Logger E,
         HTTPSRedirect X production,
         SecurityHeaders E production,
         Gzip X,
         CORS (gc_AllowedOrigins cfg),
         BodyLimit (gc_MaxBodyBytes cfg),
         Timeout X,
         RateLimiter_Global E (gc_GlobalPerSecond cfg),
         RateLimiter_PerIP E (gc_PerIPPerMinute cfg),
         CSRF E production,
         Authenticator_Middleware E a,
         RateLimiter_PerEndpoint E EndpointLimits])"

end
