(* ===== verification/EdgeFacts.thy ===== *)
theory EdgeFacts
  imports EdgeChain IdentitySessions
begin

text \<open>
  What the edge promises. A middleware that calls the handler inside it at most once, on a
  request with the same method, path, headers and cookies, and otherwise leaves the calls to the backends, the
  Bloom filter and the blacklist alone, is a layer; facts about the handler inside pass through
  layers, so that each property is proved at the middleware that establishes it.
\<close>

section \<open>Layers\<close>

abbreviation "blacklist_entry jti \<equiv> ''jwt:blacklist:'' @ jti"

definition quiet :: "edge \<Rightarrow> edge \<Rightarrow> bool" where
  "quiet s s' \<longleftrightarrow> ed_calls s' = ed_calls s \<and> ed_filter s' = ed_filter s \<and>
     (\<forall>jti. w_redis (ed_world s') (blacklist_entry jti) = w_redis (ed_world s) (blacklist_entry jti))"

definition same_request :: "request \<Rightarrow> request \<Rightarrow> bool" where
  "same_request r r' \<longleftrightarrow> rq_headers r' = rq_headers r \<and> rq_path r' = rq_path r \<and> rq_method r' = rq_method r \<and>
     rq_cookies r' = rq_cookies r"

definition layered :: "(request \<Rightarrow> edge \<Rightarrow> edge \<Rightarrow> bool) \<Rightarrow> bool" where
  "layered R \<longleftrightarrow> (\<forall>r s s'. quiet s s' \<longrightarrow> R r s s') \<and>
     (\<forall>r r' s s1 s2 s3. same_request r r' \<longrightarrow> quiet s s1 \<longrightarrow> R r' s1 s2 \<longrightarrow> quiet s2 s3 \<longrightarrow> R r s s3)"

definition serves :: "(request \<Rightarrow> edge \<Rightarrow> edge \<Rightarrow> bool) \<Rightarrow> handler \<Rightarrow> bool" where
  "serves R h \<longleftrightarrow> (\<forall>rw r s. R r s (snd (h rw r s)))"

definition calls_once :: "request \<Rightarrow> handler \<Rightarrow> unit edge_act \<Rightarrow> bool" where
  "calls_once r inner m \<longleftrightarrow> (\<forall>s. quiet s (snd (m s)) \<or>
     (\<exists>rw' r' s1. same_request r r' \<and> quiet s s1 \<and> quiet (snd (inner rw' r' s1)) (snd (m s))))"

locale layer =
  fixes mw :: middleware
  assumes once: "calls_once r inner (mw inner rw r)"
begin

lemma passes:
  assumes "layered R" and "serves R inner"
  shows "serves R (mw inner)"
  unfolding serves_def
proof (intro allI)
  fix rw r s
  from once [of r inner rw] consider "quiet s (snd (mw inner rw r s))"
    | rw' r' s1 where "same_request r r'" "quiet s s1" "quiet (snd (inner rw' r' s1)) (snd (mw inner rw r s))"
    unfolding calls_once_def by blast
  then show "R r s (snd (mw inner rw r s))"
  proof cases
    case 1
    then show ?thesis using assms(1) by (simp add: layered_def)
  next
    case 2
    moreover have "R r' s1 (snd (inner rw' r' s1))" using assms(2) by (simp add: serves_def)
    ultimately show ?thesis using assms(1) unfolding layered_def by blast
  qed
qed

end

lemma quiet_refl [simp]: "quiet s s"
  by (simp add: quiet_def)

lemma quiet_trans: "quiet a b \<Longrightarrow> quiet b c \<Longrightarrow> quiet a c"
  by (simp add: quiet_def)

lemma quiet_fields [simp]:
  "quiet s (s'\<lparr>ed_ws := x\<rparr>) = quiet s s'" "quiet s (s'\<lparr>ed_log := l\<rparr>) = quiet s s'"
  "quiet s (s'\<lparr>ed_globalCount := n\<rparr>) = quiet s s'" "quiet s (s'\<lparr>ed_globalWindow := n\<rparr>) = quiet s s'"
  "quiet (s\<lparr>ed_ws := x\<rparr>) s' = quiet s s'" "quiet (s\<lparr>ed_log := l\<rparr>) s' = quiet s s'"
  "quiet s (s'\<lparr>ed_world := (ed_world s')\<lparr>w_step := k\<rparr>\<rparr>) = quiet s s'"
  by (simp_all add: quiet_def)

lemma same_request_refl [simp]: "same_request r r"
  and same_request_context [simp]: "same_request r (r\<lparr>rq_limit := l\<rparr>)" "same_request r (r\<lparr>rq_request_id := i\<rparr>)" "same_request r (r\<lparr>rq_nonce := n\<rparr>)"
  by (simp_all add: same_request_def)

text \<open>Acts that leave everything alone.\<close>

definition quietly :: "'a edge_act \<Rightarrow> bool" where
  "quietly m \<longleftrightarrow> (\<forall>s. quiet s (snd (m s)))"

named_theorems qui \<open>acts that are quiet\<close>

lemma quietly_andThen [qui]: "quietly m \<Longrightarrow> (\<And>x. quietly (k x)) \<Longrightarrow> quietly (andThen m k)"
  unfolding quietly_def andThen_def by (auto split: prod.splits sum.splits) (metis quiet_trans snd_conv)+

lemma quietly_basic [qui]: "quietly (ret x)" "quietly (fail e)" "quietly (reads f)" "quietly (ed_write g)" "quietly (edge_now E)"
  by (simp_all add: quietly_def)

lemma quietly_if [qui]: "(b \<Longrightarrow> quietly m) \<Longrightarrow> (\<not> b \<Longrightarrow> quietly k) \<Longrightarrow> quietly (if b then m else k)"
  by simp

lemma quietly_sum [qui]: "(\<And>e. quietly (f e)) \<Longrightarrow> (\<And>x. quietly (g x)) \<Longrightarrow> quietly (case z of Inl e \<Rightarrow> f e | Inr x \<Rightarrow> g x)"
  by (cases z) simp_all

lemma quietly_log [qui]: "quietly (modify (\<lambda>s. s\<lparr>ed_log := f s\<rparr>))"
  by (simp add: quietly_def)

lemma quietly_http_Error [qui]: "quietly (http_Error rw m c)"
  unfolding http_Error_def by (intro qui)

lemma quietly_outside:
  assumes "\<And>w jti. w_redis (snd (m w)) (blacklist_entry jti) = w_redis w (blacklist_entry jti)"
  shows "quietly (outside m)"
  unfolding quietly_def
proof
  fix s
  show "quiet s (snd (outside m s))"
    using assms [of "ed_world s"] by (cases "m (ed_world s)") (simp add: outside_def quiet_def)
qed

lemma quietly_NewID [qui]: "quietly (outside (UUIDGenerator_NewID E))"
proof (rule quietly_outside)
  show "w_redis (snd (UUIDGenerator_NewID E w)) (blacklist_entry jti) = w_redis w (blacklist_entry jti)" for w jti
    by (cases "e_rand E (w_step w)") (simp_all add: UUIDGenerator_NewID_def andThen_def)
qed

lemma quietly_HexToken [qui]: "quietly (edge_HexToken E n)"
  unfolding edge_HexToken_def by (rule quietly_outside) (simp add: andThen_split)

lemma blacklist_not_window [simp]: "blacklist_entry jti \<noteq> window_key key n"
  by (simp add: window_key_def)

lemma r_incr_other: "k \<noteq> ck \<Longrightarrow> snd (r_incr t ck s) k = s k"
  by (simp add: r_incr_def split: option.splits rval.splits)

lemma r_expire_other: "k \<noteq> ck \<Longrightarrow> r_expire t ck ttl s k = s k"
  by (simp add: r_expire_def split: option.splits)

lemma script_other:
  assumes "k \<noteq> ck"
  shows "snd (slidingWindowScript ck pk wm el t s) k = s k"
proof (cases "r_incr t ck s")
  case (Pair r s1)
  have s1: "s1 k = s k" using r_incr_other [OF assms, of t s] Pair by simp
  show ?thesis
  proof (cases r)
    case (Inr n)
    let ?s2 = "if n = 1 then r_expire t ck (wm * 2 * 1000) s1 else s1"
    have "snd (slidingWindowScript ck pk wm el t s) = ?s2"
      by (simp add: slidingWindowScript_def Pair Inr Let_def split: option.split rval.split)
    then show ?thesis using s1 assms by (simp add: r_expire_other)
  qed (simp add: slidingWindowScript_def Pair s1)
qed

lemma quietly_allow [qui]: "quietly (allow E key limit wm)"
proof -
  have "quietly (outside (redis_call E (slidingWindowScript (window_key key a) (window_key key b) wm c)))" for a b c
  proof (rule quietly_outside)
    fix w jti
    show "w_redis (snd (redis_call E (slidingWindowScript (window_key key a) (window_key key b) wm c) w)) (blacklist_entry jti) =
        w_redis w (blacklist_entry jti)"
      using script_other [OF blacklist_not_window [of jti key a], of "window_key key b" wm c "e_now E (w_step w)" "w_redis w"]
      by (cases "slidingWindowScript (window_key key a) (window_key key b) wm c (e_now E (w_step w)) (w_redis w)")
        (simp add: redis_call_def Let_def split: option.splits)
  qed
  then show ?thesis unfolding allow_def Let_def by (intro qui)
qed

lemma quietD: "quietly m \<Longrightarrow> quiet s (snd (m s))"
  by (simp add: quietly_def)

lemma calls_onceI: "(\<And>s. \<exists>rw' r' s1. same_request r r' \<and> quiet s s1 \<and> quiet (snd (inner rw' r' s1)) (snd (m s))) \<Longrightarrow> calls_once r inner m"
  by (simp add: calls_once_def)

lemma once_on:
  assumes "same_request r r'" and "\<And>s. quiet s (f s)" and "\<And>s. quiet (snd (inner rw' r' (f s))) (snd (m s))"
  shows "calls_once r inner m"
  using assms by (intro calls_onceI) blast

lemma once_direct [qui]: "same_request r r' \<Longrightarrow> calls_once r inner (inner rw' r')"
  by (rule calls_onceI) (metis quiet_refl)

lemma once_quiet: "quietly m \<Longrightarrow> calls_once r inner m"
  by (simp add: calls_once_def quietly_def)

lemma once_after [qui]:
  assumes "quietly m" and "\<And>x. calls_once r inner (k x)"
  shows "calls_once r inner (andThen m k)"
  unfolding calls_once_def
proof
  fix s
  show "quiet s (snd (andThen m k s)) \<or>
    (\<exists>rw' r' s1. same_request r r' \<and> quiet s s1 \<and> quiet (snd (inner rw' r' s1)) (snd (andThen m k s)))"
  proof (cases "m s")
    case (Pair res s1)
    then have q: "quiet s s1" using quietD [OF assms(1), of s] by simp
    show ?thesis
    proof (cases res)
      case (Inr x)
      from assms(2) [of x] have "quiet s1 (snd (k x s1)) \<or>
          (\<exists>rw' r' s2. same_request r r' \<and> quiet s1 s2 \<and> quiet (snd (inner rw' r' s2)) (snd (k x s1)))"
        by (simp add: calls_once_def)
      then have "quiet s (snd (k x s1)) \<or>
          (\<exists>rw' r' s2. same_request r r' \<and> quiet s s2 \<and> quiet (snd (inner rw' r' s2)) (snd (k x s1)))"
        using quiet_trans [OF q] by blast
      with Pair Inr show ?thesis by simp
    qed (use Pair q in simp)
  qed
qed

lemma quiet_tail:
  assumes "\<And>x. quietly (k x)"
  shows "quiet (snd (m s)) (snd (andThen m k s))"
proof (cases "m s")
  case (Pair r t)
  then show ?thesis using quietD [OF assms] by (cases r) auto
qed

lemma once_before:
  assumes "same_request r r'" and "\<And>x. quietly (k x)"
  shows "calls_once r inner (andThen (inner rw' r') k)"
  using assms(1) quiet_tail [of k "inner rw' r'", OF assms(2)] quiet_refl by (intro calls_onceI) blast

lemma once_if [qui]: "(b \<Longrightarrow> calls_once r i m) \<Longrightarrow> (\<not> b \<Longrightarrow> calls_once r i k) \<Longrightarrow> calls_once r i (if b then m else k)"
  by simp

lemma once_sum [qui]: "(\<And>e. calls_once r i (f e)) \<Longrightarrow> (\<And>x. calls_once r i (g x)) \<Longrightarrow> calls_once r i (case z of Inl e \<Rightarrow> f e | Inr x \<Rightarrow> g x)"
  by (cases z) simp_all

lemma once_option [qui]: "calls_once r i m \<Longrightarrow> (\<And>x. calls_once r i (f x)) \<Longrightarrow> calls_once r i (case z of None \<Rightarrow> m | Some x \<Rightarrow> f x)"
  by (cases z) simp_all

lemma once_prod [qui]: "(\<And>a b. calls_once r i (f a b)) \<Longrightarrow> calls_once r i (case z of (a, b) \<Rightarrow> f a b)"
  by (cases z) simp

section \<open>The middlewares are layers\<close>

interpretation recovery: layer Recovery
proof
  fix r :: request and inner :: handler and rw :: rw
  have "quiet s1 (snd (http_Error rw m c (s1\<lparr>ed_log := l\<rparr>)))" for m c l s1
    using quietD [OF quietly_http_Error, of "s1\<lparr>ed_log := l\<rparr>" rw m c] by simp
  then have "quiet (snd (inner rw r s)) (snd (Recovery inner rw r s))" for s
    by (cases "inner rw r s"; cases "fst (inner rw r s)") (simp_all add: Recovery_def)
  then show "calls_once r inner (Recovery inner rw r)"
    by (intro once_on [where f = "\<lambda>s. s", OF same_request_refl quiet_refl])
qed

interpretation request_id: layer "RequestID E" for E
  unfolding RequestID_def Let_def by unfold_locales (intro qui same_request_context)

interpretation logger: layer "Logger E" for E
  unfolding Logger_def
  by unfold_locales (rule once_after, (intro qui)[1], rule once_after, (intro qui)[1], rule once_before, simp, intro qui)

interpretation redirect: layer "HTTPSRedirect X enabled" for X enabled
  unfolding HTTPSRedirect_def http_Redirect_def Let_def
  by unfold_locales (rule once_if, rule once_direct, simp, rule once_quiet, intro qui)

interpretation security: layer "SecurityHeaders E production" for E production
  unfolding SecurityHeaders_def by unfold_locales (intro qui same_request_context same_request_refl)

interpretation gzip: layer "Gzip X" for X
proof
  fix r :: request and inner :: handler and rw :: rw
  have "quiet (snd (inner (gzip_writer_of rw) r s)) (snd (case inner (gzip_writer_of rw) r s of (res, s1) \<Rightarrow> (res, s1\<lparr>ed_ws := gzip_close X rw (ed_ws s1)\<rparr>)))" for s
    by (cases "inner (gzip_writer_of rw) r s") simp
  then have "calls_once r inner (\<lambda>s. case inner (gzip_writer_of rw) r s of (res, s1) \<Rightarrow> (res, s1\<lparr>ed_ws := gzip_close X rw (ed_ws s1)\<rparr>))"
    by (intro once_on [where f = "\<lambda>s. s", OF same_request_refl quiet_refl])
  then show "calls_once r inner (Gzip X inner rw r)"
    unfolding Gzip_def by (intro once_if once_after once_direct same_request_refl quietly_basic)
qed

interpretation cors: layer "CORS origins" for origins
  unfolding CORS_def Let_def
  by unfold_locales (intro once_if once_after once_direct same_request_refl once_quiet quietly_basic quietly_if)

interpretation body_limit: layer "BodyLimit n" for n
  unfolding BodyLimit_def by unfold_locales (intro qui same_request_context)

interpretation timeout: layer "Timeout X" for X
proof
  fix r :: request and inner :: handler and rw :: rw
  let ?f = "\<lambda>s. s\<lparr>ed_ws := (ed_ws s)\<lparr>ws_timeout := fresh_writer\<rparr>\<rparr>"
  have "quiet (snd (inner timeout_writer r (?f s))) (snd (Timeout X inner rw r s))" for s
    by (cases "inner timeout_writer r (?f s)"; cases "fst (inner timeout_writer r (?f s))")
      (simp_all add: Timeout_def andThen_split)
  then show "calls_once r inner (Timeout X inner rw r)"
    by (intro once_on [where f = ?f, OF same_request_refl]) simp_all
qed

lemma quietly_global: "quietly (modify (global_claim t))" "quietly global_add"
  by (auto simp: quietly_def global_claim_def global_add_def quiet_def andThen_split)

interpretation global: layer "RateLimiter_Global E n" for E n
  unfolding RateLimiter_Global_def
  by unfold_locales
    (rule once_after, (intro qui)[1], rule once_after, rule quietly_global, rule once_after, rule quietly_global,
      rule once_if, rule once_quiet, intro qui, rule once_direct, simp)

interpretation per_ip: layer "RateLimiter_PerIP E n" for E n
  unfolding RateLimiter_PerIP_def
  by unfold_locales (rule once_after, (intro qui)[1], rule once_if, rule once_quiet, intro qui, rule once_direct, simp)

interpretation per_endpoint: layer "RateLimiter_PerEndpoint E limits" for E limits
  unfolding RateLimiter_PerEndpoint_def
  by unfold_locales
    (rule once_option, rule once_direct, simp, rule once_prod, rule once_after, (intro qui)[1], rule once_if,
      rule once_quiet, intro qui, rule once_direct, simp)

lemma quietly_cookie [qui]: "quietly (ensureCSRFCookie E production rw)"
  unfolding ensureCSRFCookie_def by (intro qui)

interpretation csrf: layer "CSRF E production" for E production
  unfolding CSRF_def Let_def
  by unfold_locales
    (intro once_if once_option once_after quietly_cookie once_direct same_request_refl once_quiet quietly_http_Error)

section \<open>Identity\<close>

text \<open>
  What the gateway relies on of the grpc-web wrapper: the gRPC method is the request's path, and
  the metadata under a name are the values of the header of that name.
\<close>

definition bridge_faithful :: "edge_env \<Rightarrow> bool" where
  "bridge_faithful X \<longleftrightarrow> (\<forall>r m md. ee_bridge X r = Some (m, md) \<longrightarrow>
     m = rq_path r \<and> (\<forall>k \<in> set forwardableHeaders. md_Get md k = h_Values (rq_headers r) k))"

text \<open>The principal that the headers of a request spell.\<close>

definition header_principal :: "request \<Rightarrow> principal option" where
  "header_principal r =
     (if h_Get (rq_headers r) ''X-User-Id'' = [] then None
      else Some \<lparr>p_UserID = h_Get (rq_headers r) ''X-User-Id'', p_Role = h_Get (rq_headers r) ''X-Role'',
                 p_TokenType = h_Get (rq_headers r) ''X-Token-Type''\<rparr>)"

lemma canonical_names:
  "CanonicalHeaderKey ''x-user-id'' = ''X-User-Id''" "CanonicalHeaderKey ''x-role'' = ''X-Role''"
  "CanonicalHeaderKey ''x-token-type'' = ''X-Token-Type''" "CanonicalHeaderKey ''X-User-Id'' = ''X-User-Id''"
  "CanonicalHeaderKey ''X-Role'' = ''X-Role''" "CanonicalHeaderKey ''X-Token-Type'' = ''X-Token-Type''"
  "CanonicalHeaderKey ''Authorization'' = ''Authorization''"
  by code_simp+

lemma forwarded_Get:
  "k \<in> set forwardableHeaders \<Longrightarrow>
   md_Get (concat (map (\<lambda>key. map (\<lambda>v. (key, v)) (f key)) forwardableHeaders)) k = f k"
proof -
  have "filter (\<lambda>(x, v). x = k) (map (\<lambda>v. (key, v)) vs) = (if key = k then map (\<lambda>v. (key, v)) vs else [])" for key and vs :: "string list"
    by (induction vs) auto
  then show "k \<in> set forwardableHeaders \<Longrightarrow> ?thesis"
    by (auto simp: md_Get_def forwardableHeaders_def comp_def)
qed

text \<open>The calls made for a request, with the principal the backend will read from each.\<close>

definition principal_of :: "upstream_call \<Rightarrow> principal option" where
  "principal_of call = withPrincipalFromMetadata (Some (snd (snd call)))"

definition at_most_one_call :: "(upstream_call \<Rightarrow> bool) \<Rightarrow> edge \<Rightarrow> edge \<Rightarrow> bool" where
  "at_most_one_call P s s' \<longleftrightarrow> ed_calls s' = ed_calls s \<or> (\<exists>call. ed_calls s' = ed_calls s @ [call] \<and> P call)"

lemma at_most_one_mono: "at_most_one_call P s s' \<Longrightarrow> (\<And>c. P c \<Longrightarrow> Q c) \<Longrightarrow> at_most_one_call Q s s'"
  by (auto simp: at_most_one_call_def)

definition carries_headers :: "request \<Rightarrow> edge \<Rightarrow> edge \<Rightarrow> bool" where
  "carries_headers r = at_most_one_call (\<lambda>call. principal_of call = header_principal r)"

lemma layered_carries: "layered carries_headers"
  by (auto simp: layered_def carries_headers_def at_most_one_call_def quiet_def same_request_def header_principal_def)

lemma quietly_answer: "quietly (bridge_answer X rw b)"
proof -
  have "quiet s (snd (bridge_answer X rw b s))" for s
    by (cases "ee_answer X b (w_step (ed_world s))") (auto simp: bridge_answer_def andThen_split split: prod.splits)
  then show ?thesis by (simp add: quietly_def)
qed

lemma proxy_carries: "bridge_faithful X \<Longrightarrow> serves carries_headers (Proxy_Handler X)"
  unfolding serves_def
proof (intro allI)
  fix rw r s
  assume X: "bridge_faithful X"
  have q: "ed_calls (snd (bridge_answer X rw b s')) = ed_calls s'" for b s'
    using quietD [OF quietly_answer, of s' X rw b] by (simp add: quiet_def)
  show "carries_headers r s (snd (Proxy_Handler X rw r s))"
  proof (cases "ee_bridge X r")
    case (Some mm)
    obtain m md where mm: "mm = (m, md)" by (cases mm)
    show ?thesis
    proof (cases "Proxy_direct m md")
      case (Inr call)
      then have md': "snd (snd call) = concat (map (\<lambda>key. map (\<lambda>v. (key, v)) (md_Get md key)) forwardableHeaders)"
        by (auto simp: Proxy_direct_def split: option.splits)
      have "md_Get (snd (snd call)) k = h_Values (rq_headers r) k" if "k \<in> set forwardableHeaders" for k
        using X Some mm that unfolding md' by (simp add: bridge_faithful_def forwarded_Get)
      then have "principal_of call = header_principal r"
        by (simp add: principal_of_def withPrincipalFromMetadata_def firstValue_def headerUserID_def headerRole_def headerTokenType_def
            forwardableHeaders_def header_principal_def h_Get_def h_Values_def canonical_names Let_def)
      then show ?thesis
        using Some mm Inr by (simp add: Proxy_Handler_def carries_headers_def at_most_one_call_def q)
    qed (use Some mm in \<open>simp add: Proxy_Handler_def carries_headers_def at_most_one_call_def q\<close>)
  qed (simp add: Proxy_Handler_def carries_headers_def at_most_one_call_def q)
qed

text \<open>
  A token id is blocked when the filter has it and Redis answers, at every time the clock shows,
  that it is on the blacklist.
\<close>

definition blocked :: "env \<Rightarrow> edge \<Rightarrow> string \<Rightarrow> bool" where
  "blocked E s jti \<longleftrightarrow> inFilter jti (ed_filter s) \<and> (\<forall>n. e_redis E n = None) \<and>
     (\<forall>n. r_get (e_now E n) (blacklist_entry jti) (w_redis (ed_world s)) \<noteq> None)"

definition verified :: "env \<Rightarrow> authenticator \<Rightarrow> request \<Rightarrow> claims \<Rightarrow> bool" where
  "verified E a r c \<longleftrightarrow> (\<exists>parse issuer n. an_verifier a = Some (parse, issuer) \<and> edge_bearerToken r \<noteq> [] \<and>
     Verifier_Verify parse issuer (e_now E n) (edge_bearerToken r) = Inr c)"

definition identified :: "env \<Rightarrow> authenticator \<Rightarrow> request \<Rightarrow> edge \<Rightarrow> upstream_call \<Rightarrow> bool" where
  "identified E a r s call \<longleftrightarrow>
     (case principal_of call of
        None \<Rightarrow> True
      | Some p \<Rightarrow> \<exists>c. verified E a r c \<and> p = claims_principal c \<and> (an_blacklist a \<longrightarrow> \<not> blocked E s (c_id c)))"

definition authentic :: "env \<Rightarrow> authenticator \<Rightarrow> request \<Rightarrow> edge \<Rightarrow> edge \<Rightarrow> bool" where
  "authentic E a r s = at_most_one_call (identified E a r s) s"

lemma blocked_quiet: "quiet s s' \<Longrightarrow> blocked E s' jti = blocked E s jti"
  by (simp add: blocked_def quiet_def r_get_def)

lemma bearer_same: "rq_headers r' = rq_headers r \<Longrightarrow> edge_bearerToken r' = edge_bearerToken r"
  by (simp add: edge_bearerToken_def)

lemma layered_authentic: "layered (authentic E a)"
proof -
  have same: "identified E a r' s' = identified E a r s" if "same_request r r'" "quiet s s'" for r r' s s'
    using that blocked_quiet [OF that(2), of E]
    by (auto simp: identified_def verified_def same_request_def fun_eq_iff bearer_same [of r' r] split: option.splits)
  have "authentic E a r s s3"
    if "same_request r r'" "quiet s s1" "authentic E a r' s1 s2" "quiet s2 s3" for r r' s s1 s2 s3
    using that same [OF that(1,2)] by (simp add: authentic_def at_most_one_call_def quiet_def)
  moreover have "authentic E a r s s'" if "quiet s s'" for r s s'
    using that by (simp add: authentic_def at_most_one_call_def quiet_def)
  ultimately show ?thesis unfolding layered_def by blast
qed

lemma strip_simps:
  "header_principal (stripIdentityHeaders r) = None"
  "edge_bearerToken (stripIdentityHeaders r) = edge_bearerToken r"
  by (simp_all add: header_principal_def stripIdentityHeaders_def h_Get_def h_Values_def h_Del_def canonical_names edge_bearerToken_def)

lemma inject_principal:
  "header_principal ((injectIdentityHeaders p r)\<lparr>rq_principal := q\<rparr>) = (if p_UserID p = [] then None else Some p)"
  by (simp add: header_principal_def injectIdentityHeaders_def h_Get_def h_Values_def h_Set_def canonical_names)

lemma IsRevoked_False:
  assumes "IsRevoked E jti s = (Inr False, s')"
  shows "\<not> blocked E s jti"
  using assms
  by (auto simp: IsRevoked_def blocked_def outside_def redis_Exists_def redis_call_def Let_def andThen_split
      split: if_splits option.splits prod.splits)

lemma quietly_IsRevoked [qui]: "quietly (IsRevoked E jti)"
proof -
  have "quietly (outside (redis_Exists E k))" for k
    by (rule quietly_outside) (simp add: redis_Exists_def redis_call_def Let_def split: option.split)
  then have "quietly (andThen (outside (redis_Exists E k)) (\<lambda>r. ret (f r)))" for k and f :: "gerr + int \<Rightarrow> bool"
    by (intro qui)
  then show ?thesis by (simp add: quietly_def IsRevoked_def)
qed

lemma carries_none: "carries_headers r s s' \<Longrightarrow> header_principal r = None \<Longrightarrow> quiet t s \<Longrightarrow> authentic E a q t s'"
  by (auto simp: carries_headers_def authentic_def at_most_one_call_def identified_def quiet_def)

lemma auth_authentic:
  assumes "serves carries_headers inner"
  shows "serves (authentic E a) (Authenticator_Middleware E a inner)"
  unfolding serves_def
proof (intro allI)
  fix rw r0 s
  let ?r = "stripIdentityHeaders r0"
  have pass: "authentic E a r0 s (snd (inner rw ?r s1))" if "quiet s s1" for s1
    using assms that by (intro carries_none [of ?r s1]) (simp_all add: serves_def strip_simps)
  show "authentic E a r0 s (snd (Authenticator_Middleware E a inner rw r0 s))"
  proof (cases "an_verifier a")
    case None
    then show ?thesis using pass by (simp add: Authenticator_Middleware_def)
  next
    case (Some v)
    obtain parse issuer where v: "v = (parse, issuer)" by (cases v)
    let ?t = "e_now E (w_step (ed_world s))" and ?s1 = "s\<lparr>ed_world := (ed_world s)\<lparr>w_step := Suc (w_step (ed_world s))\<rparr>\<rparr>"
    have q1: "quiet s ?s1" by (simp add: quiet_def)
    show ?thesis
    proof (cases "edge_bearerToken r0 = []")
      case True
      then show ?thesis using Some v pass by (simp add: Authenticator_Middleware_def Let_def strip_simps)
    next
      case False
      note tok = this
      show ?thesis
      proof (cases "Verifier_Verify parse issuer ?t (edge_bearerToken r0)")
        case (Inl e)
        then show ?thesis using Some v tok pass [OF q1] by (simp add: Authenticator_Middleware_def Let_def strip_simps)
      next
        case (Inr c)
        then have ver: "verified E a r0 c" using Some v tok by (auto simp: verified_def)
        let ?m = "if an_blacklist a then IsRevoked E (c_id c) else ret False"
        obtain res s2 where m: "?m ?s1 = (res, s2)" by (cases "?m ?s1")
        have "quietly ?m" by (intro qui)
        then have "quiet ?s1 s2" using quietD [of ?m ?s1] m by simp
        with q1 have q2: "quiet s s2" by (rule quiet_trans)
        let ?p = "claims_principal c" and ?r' = "(injectIdentityHeaders (claims_principal c) ?r)\<lparr>rq_principal := Some (claims_principal c)\<rparr>"
        have run: "snd (Authenticator_Middleware E a inner rw r0 s) =
            snd (case res of Inl x \<Rightarrow> (Inl x, s2) | Inr revoked \<Rightarrow> if revoked then http_Error rw ''token revoked'' 401 s2 else inner rw ?r' s2)"
          using Some v tok Inr m by (simp add: Authenticator_Middleware_def Let_def strip_simps andThen_split split: sum.splits)
        show ?thesis
        proof (cases "res = Inr False")
          case True
          have "\<not> blocked E s (c_id c)" if "an_blacklist a"
            using IsRevoked_False [of E "c_id c" ?s1 s2] m that True blocked_quiet [OF q1] by simp
          moreover have "carries_headers ?r' s2 (snd (inner rw ?r' s2))" using assms by (simp add: serves_def)
          moreover have "identified E a r0 s call" if "principal_of call = header_principal ?r'" "an_blacklist a \<longrightarrow> \<not> blocked E s (c_id c)" for call
            using that ver by (auto simp: inject_principal identified_def split: if_splits)
          ultimately show ?thesis
            using q2 unfolding run True
            by (auto simp: authentic_def at_most_one_call_def carries_headers_def quiet_def)
        next
          case False
          have "quiet s2 (snd (http_Error rw ''token revoked'' 401 s2))" by (rule quietD) (intro qui)
          with False have "quiet s (snd (Authenticator_Middleware E a inner rw r0 s))"
            unfolding run using q2 by (cases res) (auto intro: quiet_trans)
          then show ?thesis by (simp add: authentic_def at_most_one_call_def quiet_def)
        qed
      qed
    qed
  qed
qed

lemmas layers_pass = recovery.passes request_id.passes logger.passes redirect.passes security.passes gzip.passes
  cors.passes body_limit.passes timeout.passes global.passes per_ip.passes csrf.passes

lemma chain_authentic:
  assumes "bridge_faithful X"
  shows "serves (authentic (ee_env X) a) (BuildHandler X cfg a)"
  unfolding BuildHandler_def Let_def Chain_Cons Chain_Nil
  by (intro layers_pass layered_authentic auth_authentic per_endpoint.passes layered_carries proxy_carries assms)

text \<open>
  C1. The edge is the only source of identity. Whatever request arrives, with whatever headers,
  the gateway makes at most one call to a backend for it, and if the backend reads a
  principal from that call's metadata, then the request's bearer token verified under the
  configured key and issuer at a time the clock showed, and the principal is the one of its
  claims: identity headers of the client never get through.
\<close>

theorem edge_identity_authentic:
  assumes "bridge_faithful X"
  shows "at_most_one_call (\<lambda>call. \<forall>p. principal_of call = Some p \<longrightarrow>
      (\<exists>c. verified (ee_env X) a r c \<and> p = claims_principal c)) s (snd (BuildHandler X cfg a rw r s))"
proof -
  have "authentic (ee_env X) a r s (snd (BuildHandler X cfg a rw r s))"
    using chain_authentic [OF assms] by (simp add: serves_def)
  then show ?thesis unfolding authentic_def
    by (rule at_most_one_mono) (auto simp: identified_def)
qed

section \<open>The Bloom filter\<close>

lemma length_addToFilter [simp]: "length (addToFilter jti fl) = length fl"
proof -
  have "length (fold (\<lambda>i f. let pos = p i; k = unat (pos div 64) in f[k := (f ! k) OR bit_mask pos]) is fl) = length fl"
    for p :: "nat \<Rightarrow> 64 word" and "is"
    by (induction "is" arbitrary: fl) (simp_all add: Let_def)
  then show ?thesis by (simp add: addToFilter_def)
qed

lemma bloom_pos_less: "unat (bloom_pos h i) < 14400000"
proof -
  have "bloom_pos h i < bloomM"
    unfolding bloom_pos_def by (rule word_mod_less_divisor) (simp add: bloomM_def word_less_nat_alt)
  then show ?thesis by (simp add: word_less_nat_alt bloomM_def)
qed

lemma bloom_index: "unat (bloom_pos h i div 64) < 225000"
  using bloom_pos_less [of h i] by (simp add: unat_div)

text \<open>A bit of the filter; setting bits keeps those that are set.\<close>

definition marked :: "64 word list \<Rightarrow> 64 word \<Rightarrow> bool" where
  "marked fl pos \<longleftrightarrow> (fl ! unat (pos div 64)) AND bit_mask pos \<noteq> 0"

lemma and_mask_or: "x AND m \<noteq> 0 \<Longrightarrow> (x OR y) AND m \<noteq> (0 :: 64 word)"
proof
  assume "x AND m \<noteq> 0" and "(x OR y) AND m = 0"
  then have "bit ((x OR y) AND m) n = False" for n by simp
  then have "\<not> bit (x AND m) n" for n by (metis bit_and_iff bit_or_iff)
  then have "x AND m = 0" by (intro bit_eqI) simp
  with \<open>x AND m \<noteq> 0\<close> show False by simp
qed

lemma bit_mask_nonzero: "bit_mask pos \<noteq> 0"
proof -
  have "unat (pos mod 64) < 64" by (simp add: unat_mod)
  then have "bit (bit_mask pos) (unat (pos mod 64))" by (simp add: bit_mask_def bit_simps)
  then show ?thesis by (metis bit_0_eq bot_apply bot_bool_def)
qed

lemma marked_step:
  assumes "unat (p div 64) < length fl"
  shows "marked (fl[unat (p div 64) := (fl ! unat (p div 64)) OR bit_mask p]) p"
    and "marked fl q \<Longrightarrow> marked (fl[unat (p div 64) := (fl ! unat (p div 64)) OR bit_mask p]) q"
  using assms by (auto simp: and_mask_or marked_def nth_list_update bit_mask_nonzero)

lemma marked_fold:
  assumes "length fl = 225000" and "\<And>i. unat (p i div 64) < 225000"
  shows "(marked fl q \<or> q \<in> p ` set is) \<longrightarrow>
    marked (fold (\<lambda>i f. let pos = p i; k = unat (pos div 64) in f[k := (f ! k) OR bit_mask pos]) is fl) q"
  using assms(1)
proof (induction "is" arbitrary: fl)
  case (Cons i "is")
  then show ?case using marked_step [of "p i" fl] assms(2) [of i] by (auto simp: Let_def)
qed simp

lemma inFilter_marked: "inFilter jti fl \<longleftrightarrow> (\<forall>i < bloomK. marked fl (bloom_pos (bloomHashes jti) i))"
  by (auto simp: inFilter_def marked_def list_all_iff Let_def)

lemma inFilter_add:
  assumes "length fl = 225000"
  shows "inFilter jti (addToFilter jti fl)" and "inFilter x fl \<Longrightarrow> inFilter x (addToFilter jti fl)"
proof -
  have m: "marked (addToFilter jti fl) q" if "marked fl q \<or> q \<in> bloom_pos (bloomHashes jti) ` set [0..<bloomK]" for q
    using marked_fold [of fl "bloom_pos (bloomHashes jti)" q "[0..<bloomK]"] that assms bloom_index
    unfolding addToFilter_def by blast
  show "inFilter jti (addToFilter jti fl)" unfolding inFilter_marked using m by auto
  show "inFilter x (addToFilter jti fl)" if "inFilter x fl" using m that unfolding inFilter_marked by blast
qed

definition on_messages :: "(string \<times> string) list \<Rightarrow> edge \<Rightarrow> edge" where
  "on_messages ms s = fold on_message ms s"

lemma on_message_length: "length (ed_filter (on_message m s)) = length (ed_filter s)"
  by (simp add: on_message_def)

lemma on_messages_filter:
  "length (ed_filter s) = 225000 \<Longrightarrow> length (ed_filter (on_messages ms s)) = 225000 \<and>
   (inFilter jti (ed_filter s) \<or> (blacklistChannel, jti) \<in> set ms \<longrightarrow> inFilter jti (ed_filter (on_messages ms s)))"
proof (induction ms arbitrary: s)
  case (Cons m ms)
  have "inFilter jti (ed_filter (on_message m s))" if "inFilter jti (ed_filter s) \<or> m = (blacklistChannel, jti)"
    using that Cons.prems inFilter_add by (auto simp: on_message_def)
  with Cons.IH [of "on_message m s"] Cons.prems show ?case by (auto simp: on_messages_def on_message_length)
qed (simp add: on_messages_def)

text \<open>
  C36. The filter has no false negatives and stays in bounds. From the filter the process starts
  with, after any sequence of messages every id that was published is in the filter, and for
  every id all ten positions, computed with 64-bit wrap-around, index inside the array.
\<close>

theorem bloom_no_false_negative:
  "list_all (\<lambda>m. inFilter (snd m) (ed_filter (on_messages ms (NewTokenBlacklist s)))) (filter (\<lambda>m. fst m = blacklistChannel) ms) \<and>
   unat (bloom_pos (bloomHashes x) i div 64) < length (ed_filter (on_messages ms (NewTokenBlacklist s)))"
proof -
  have "length (ed_filter (NewTokenBlacklist s)) = 225000" by (simp add: NewTokenBlacklist_def new_filter_def)
  from on_messages_filter [OF this, of ms] show ?thesis using bloom_index by (auto simp: list_all_iff)
qed

text \<open>
  A restarted gateway forgets revocations. With the filter a process starts with, no token
  is revoked, whatever Redis says: only messages that arrive after the subscription count.
\<close>

theorem restart_forgets_revocations:
  "IsRevoked E jti (NewTokenBlacklist s) = (Inr False, NewTokenBlacklist s)"
proof -
  have "new_filter ! unat (bloom_pos (bloomHashes jti) 0 div 64) = 0"
    using bloom_index unfolding new_filter_def by simp
  then have "\<not> marked new_filter (bloom_pos (bloomHashes jti) 0)" by (simp add: marked_def)
  then have "\<not> inFilter jti new_filter" unfolding inFilter_marked by (intro notI) (simp add: bloomK_def)
  then show ?thesis by (simp add: IsRevoked_def NewTokenBlacklist_def)
qed

section \<open>Revocation from end to end\<close>

lemma Blacklist_Revoke_entry:
  assumes "Blacklist_Revoke E jti ttl w = (Inr (), w')" and "0 < ttl"
  shows "\<exists>n. \<forall>t. r_get t (blacklist_entry jti) (w_redis w') = (if t < e_now E n + ttl then Some (RStr ''1'') else None)"
proof -
  from assms(1) obtain w1 where "redis_Set E (blacklist_key jti) (RStr ''1'') ttl w = (Inr (), w1)" "w_redis w' = w_redis w1"
    unfolding Blacklist_Revoke_def by (auto elim!: andThen_InrE wrapE_InrE)
  then have "w_redis w' = r_set (e_now E (w_step w)) (blacklist_entry jti) (RStr ''1'') ttl (w_redis w)"
    by (auto simp: redis_Set_def blacklist_key_def dest!: redis_call_Inr)
  then show ?thesis using rs.get_put [OF assms(2)] by (intro exI [of _ "w_step w"]) simp
qed

lemma Logout_entry:
  assumes "Logout_Execute E raw jti w = (Inr (), w')" and "jti \<noteq> []" and "0 < e_access_ttl E"
  shows "\<exists>n. \<forall>t. r_get t (blacklist_entry jti) (w_redis w') = (if t < e_now E n + e_access_ttl E then Some (RStr ''1'') else None)"
proof -
  from assms(1,2) obtain w1 where "Blacklist_Revoke E jti (e_access_ttl E) w1 = (Inr (), w')"
    unfolding Logout_Execute_def by (elim andThen_InrE) auto
  from Blacklist_Revoke_entry [OF this assms(3)] show ?thesis .
qed


end
