(* ===== verification/EdgeGuards.thy ===== *)
theory EdgeGuards
  imports EdgeFacts
begin

text \<open>
  The guards of the edge: forged cross-site requests never reach a backend, the ceiling per
  second and the sliding windows hold, and a token the core issued identifies its user at the
  edge for its lifetime; with the witnesses of the edge's properties.
\<close>

section \<open>Cross-site requests\<close>

text \<open>
  A state-changing request that neither carries a bearer token nor is a gRPC-Web call, and
  whose token header does not repeat a cookie of the gateway.
\<close>

definition forgeable :: "request \<Rightarrow> bool" where
  "forgeable r \<longleftrightarrow> \<not> isSafeMethod (rq_method r) \<and>
     \<not> has_prefix (h_Get (rq_headers r) ''Authorization'') ''Bearer '' \<and>
     \<not> has_prefix (h_Get (rq_headers r) ''Authorization'') ''bearer '' \<and>
     \<not> has_prefix (h_Get (rq_headers r) ''Content-Type'') ''application/grpc-web'' \<and>
     (case map_of (rq_cookies r) csrfCookieName of
        None \<Rightarrow> True
      | Some cookie \<Rightarrow> cookie = [] \<or> cookie \<noteq> h_Get (rq_headers r) csrfHeaderName)"

definition no_forgery :: "request \<Rightarrow> edge \<Rightarrow> edge \<Rightarrow> bool" where
  "no_forgery r s s' \<longleftrightarrow> (forgeable r \<longrightarrow> ed_calls s' = ed_calls s)"

lemma forgeable_same: "same_request r r' \<Longrightarrow> forgeable r' = forgeable r"
  by (simp add: same_request_def forgeable_def split: option.split)

lemma layered_no_forgery: "layered no_forgery"
  by (simp add: layered_def no_forgery_def quiet_def forgeable_same)

lemma csrf_no_forgery: "serves no_forgery (CSRF E production inner)"
  unfolding serves_def
proof (intro allI)
  fix rw r s
  have e: "ed_calls (snd (http_Error rw m c s)) = ed_calls s" for m c
    using quietD [OF quietly_http_Error, of s rw m c] by (simp add: quiet_def)
  show "no_forgery r s (snd (CSRF E production inner rw r s))"
    by (cases "map_of (rq_cookies r) csrfCookieName")
      (auto simp: no_forgery_def forgeable_def CSRF_def Let_def e)
qed

text \<open>
  C33. Forged requests stop at the edge. A state-changing request without a bearer token that is
  not a gRPC-Web call reaches no backend unless its token header equals the non-empty cookie,
  whatever else it carries and wherever in the chain it is answered.
\<close>

theorem csrf_blocks_forgery:
  assumes "forgeable r"
  shows "ed_calls (snd (BuildHandler X cfg a rw r s)) = ed_calls s"
proof -
  have "serves no_forgery (BuildHandler X cfg a)"
    unfolding BuildHandler_def Let_def Chain_Cons Chain_Nil
    by (intro recovery.passes request_id.passes logger.passes redirect.passes security.passes gzip.passes
        cors.passes body_limit.passes timeout.passes global.passes per_ip.passes layered_no_forgery csrf_no_forgery)
  with assms show ?thesis by (simp add: serves_def no_forgery_def)
qed

section \<open>The ceiling per second\<close>

text \<open>A handler that makes at most one call and leaves the limiter's counters alone.\<close>

definition one_call :: "handler \<Rightarrow> bool" where
  "one_call h \<longleftrightarrow> (\<forall>rw r s. at_most_one_call (\<lambda>_. True) s (snd (h rw r s)) \<and>
     ed_globalCount (snd (h rw r s)) = ed_globalCount s \<and> ed_globalWindow (snd (h rw r s)) = ed_globalWindow s)"

definition serve_all :: "handler \<Rightarrow> (rw \<times> request) list \<Rightarrow> edge \<Rightarrow> edge" where
  "serve_all h reqs s = fold (\<lambda>(rw, r) s. snd (h rw r s)) reqs s"

lemma http_Error_counts:
  "ed_globalCount (snd (http_Error rw m c s)) = ed_globalCount s" "ed_globalWindow (snd (http_Error rw m c s)) = ed_globalWindow s"
  "ed_calls (snd (http_Error rw m c s)) = ed_calls s"
  by (simp_all add: http_Error_def andThen_def)

lemma global_one:
  assumes "one_call inner" and "\<forall>k. e_now E k div 1000000 = sec"
  shows "ed_globalWindow (snd (RateLimiter_Global E n inner rw r s)) = sec \<and>
    (let c = (if ed_globalWindow s = sec then ed_globalCount s else 0) in
     ed_globalCount (snd (RateLimiter_Global E n inner rw r s)) = c + 1 \<and>
     length (ed_calls (snd (RateLimiter_Global E n inner rw r s))) \<le> length (ed_calls s) + (if c < n then 1 else 0))"
proof -
  let ?s1 = "s\<lparr>ed_world := (ed_world s)\<lparr>w_step := Suc (w_step (ed_world s))\<rparr>\<rparr>"
  let ?c = "if ed_globalWindow s = sec then ed_globalCount s else 0"
  let ?s2 = "(global_claim sec ?s1)\<lparr>ed_globalCount := ?c + 1\<rparr>"
  have s2: "ed_globalWindow ?s2 = sec" "ed_globalCount ?s2 = ?c + 1" "ed_calls ?s2 = ed_calls s"
    by (simp_all add: global_claim_def)
  have run: "RateLimiter_Global E n inner rw r s =
      (if ?c + 1 > n then andThen (ed_write (rw_update rw (h_Set ''Retry-After'' ''1''))) (\<lambda>_. http_Error rw ''server capacity exceeded'' 429)
       else inner rw r) ?s2"
    using assms(2) by (simp add: RateLimiter_Global_def andThen_def global_add_def global_claim_def)
  show ?thesis
  proof (cases "?c + 1 > n")
    case True
    then show ?thesis unfolding run using s2 by (simp add: andThen_split http_Error_counts Let_def)
  next
    case False
    have "ed_globalWindow (snd (inner rw r ?s2)) = sec" "ed_globalCount (snd (inner rw r ?s2)) = ?c + 1"
      "at_most_one_call (\<lambda>_. True) ?s2 (snd (inner rw r ?s2))"
      using assms(1) s2 unfolding one_call_def by metis+
    with False s2 show ?thesis unfolding run by (auto simp: at_most_one_call_def Let_def)
  qed
qed

lemma global_all:
  assumes "one_call inner" and "\<forall>k. e_now E k div 1000000 = sec" and "ed_globalWindow s = sec" and "0 \<le> ed_globalCount s"
  shows "int (length (ed_calls (serve_all (RateLimiter_Global E n inner) reqs s))) \<le>
    int (length (ed_calls s)) + max 0 (n - ed_globalCount s)"
  using assms(3,4)
proof (induction reqs arbitrary: s)
  case (Cons q reqs)
  obtain rw r where q: "q = (rw, r)" by (cases q)
  let ?s' = "snd (RateLimiter_Global E n inner rw r s)"
  have one: "ed_globalWindow ?s' = sec" "ed_globalCount ?s' = ed_globalCount s + 1"
    "length (ed_calls ?s') \<le> length (ed_calls s) + (if ed_globalCount s < n then 1 else 0)"
    using global_one [OF assms(1,2), of n rw r s] Cons.prems by (simp_all add: Let_def)
  from Cons.IH [of ?s'] one Cons.prems show ?case by (auto simp: serve_all_def q split: if_splits)
qed (simp add: serve_all_def)


section \<open>The sliding window\<close>

text \<open>\<open>n\<close> checks of one key, one after the other, with their answers.\<close>

fun allow_run :: "env \<Rightarrow> string \<Rightarrow> int \<Rightarrow> int \<Rightarrow> nat \<Rightarrow> edge \<Rightarrow> bool list" where
  "allow_run E key limit W 0 s = []"
| "allow_run E key limit W (Suc n) s =
     (case allow E key limit W s of
        (Inl _, s1) \<Rightarrow> []
      | (Inr ok, s1) \<Rightarrow> ok # allow_run E key limit W n s1)"

text \<open>
  All clock readings lie in window \<open>k\<close>; \<open>j\<close> requests of the key were counted in it, \<open>p\<close> in the
  window before.
\<close>

definition in_window :: "env \<Rightarrow> int \<Rightarrow> int \<Rightarrow> bool" where
  "in_window E W k \<longleftrightarrow> (\<forall>m. e_now E m div 1000 div W = k)"

definition counted :: "env \<Rightarrow> string \<Rightarrow> int \<Rightarrow> int \<Rightarrow> int \<Rightarrow> nat \<Rightarrow> redis \<Rightarrow> bool" where
  "counted E key W k p j s \<longleftrightarrow>
     (\<forall>m. r_get (e_now E m) (window_key key k) s = (if j = 0 then None else Some (RInt (int j)))) \<and>
     (\<forall>m. case r_get (e_now E m) (window_key key (k - 1)) s of None \<Rightarrow> p = 0 | Some v \<Rightarrow> v = RInt p)"

lemma digits_of_less: "n < 10 \<Longrightarrow> digits_of n = [char_of (48 + n)]"
  and digits_of_ge: "\<not> n < 10 \<Longrightarrow> digits_of n = digits_of (n div 10) @ [char_of (48 + n mod 10)]"
  by (subst digits_of.simps; simp)+

definition number_of :: "string \<Rightarrow> nat" where
  "number_of s = foldl (\<lambda>n c. 10 * n + (byte_of c - 48)) 0 s"

lemma number_of_digits: "number_of (digits_of n) = n"
proof (induction n rule: digits_of.induct)
  case (1 n)
  then show ?case
    by (cases "n < 10") (simp_all add: digits_of_less digits_of_ge byte_of_def number_of_def)
qed

lemma digits_no_minus: "digits_of n = c # s \<Longrightarrow> c \<noteq> CHR ''-''"
proof (induction n arbitrary: s rule: digits_of.induct)
  case (1 n)
  show ?case
  proof (cases "n < 10")
    case True
    then have "byte_of c = 48 + n" using 1(2) by (auto simp: digits_of_less byte_of_def)
    then show ?thesis by (auto simp: byte_of_def)
  next
    case False
    then have d: "digits_of (n div 10) @ [char_of (48 + n mod 10)] = c # s" using 1(2) digits_of_ge by simp
    have "digits_of (n div 10) \<noteq> []" by (subst digits_of.simps) simp
    with d obtain s' where "digits_of (n div 10) = c # s'" by (cases "digits_of (n div 10)") auto
    with 1(1) False show ?thesis by blast
  qed
qed

lemma FormatInt_inj: "FormatInt i = FormatInt j \<Longrightarrow> i = j"
proof -
  assume eq: "FormatInt i = FormatInt j"
  have sign: "hd (FormatInt x) = CHR ''-'' \<longleftrightarrow> x < 0" for x
  proof -
    have "digits_of (nat x) \<noteq> []" by (subst digits_of.simps) simp
    then obtain c s where "digits_of (nat x) = c # s" by (cases "digits_of (nat x)") auto
    then show ?thesis using digits_no_minus by (auto simp: FormatInt_def)
  qed
  have s: "i < 0 \<longleftrightarrow> j < 0" using sign [of i] sign [of j] eq by simp
  show "i = j"
  proof (cases "i < 0")
    case True
    with s eq have "digits_of (nat (- i)) = digits_of (nat (- j))" by (simp add: FormatInt_def)
    then have "nat (- i) = nat (- j)" by (metis number_of_digits)
    with True s show ?thesis by simp
  next
    case False
    with s eq have "digits_of (nat i) = digits_of (nat j)" by (simp add: FormatInt_def)
    then have "nat i = nat j" by (metis number_of_digits)
    with False s show ?thesis by simp
  qed
qed

lemma window_key_other: "window_key key (k - 1) \<noteq> window_key key k"
  using FormatInt_inj [of "k - 1" k] by (auto simp: window_key_def)

lemma window_times:
  assumes "in_window E W k" and "0 < W"
  shows "e_now E a < e_now E b + W * 2 * 1000"
proof -
  let ?a = "e_now E a div 1000" and ?b = "e_now E b div 1000"
  have "?a mod W < W" "0 \<le> ?b mod W" using assms(2) by simp_all
  moreover have "W * k + ?a mod W = ?a" "W * k + ?b mod W = ?b"
    using mult_div_mod_eq [of W ?a] mult_div_mod_eq [of W ?b] assms(1) unfolding in_window_def by metis+
  ultimately have "?a < W * k + W" "W * k \<le> ?b" by linarith+
  then have "e_now E a div 1000 < W * (k + 1)" "W * k \<le> e_now E b div 1000" by (simp_all add: algebra_simps)
  then have "e_now E a < 1000 * (W * (k + 1))" "1000 * (W * k) \<le> e_now E b" by linarith+
  with assms(2) show ?thesis by (simp add: algebra_simps)
qed

lemma script_counts:
  assumes "counted E key W k p j s" and "in_window E W k" and "0 < W"
  shows "\<exists>s'. slidingWindowScript (window_key key k) (window_key key (k - 1)) W el (e_now E m) s =
    (Inr (p * (W - el) div W + (int j + 1)), s') \<and> counted E key W k p (Suc j) s'"
proof -
  let ?ck = "window_key key k" and ?pk = "window_key key (k - 1)" and ?t = "e_now E m"
  have prev: "case r_get t' ?pk s' of None \<Rightarrow> p = 0 | Some v \<Rightarrow> v = RInt p"
    if "r_get t' ?pk s' = r_get t' ?pk s" "t' = e_now E m'" for t' m' s'
    using assms(1) that by (simp add: counted_def)
  obtain s1 where s1: "r_incr ?t ?ck s = (Inr (int j + 1), s1)"
    and other: "s1 ?pk = s ?pk" and own: "\<exists>x. s1 ?ck = Some (RInt (int j + 1), x)"
    and live: "j \<noteq> 0 \<Longrightarrow> \<forall>m'. r_get (e_now E m') ?ck s1 = Some (RInt (int j + 1))"
  proof (cases "j = 0")
    case True
    then have "r_get ?t ?ck s = None" using assms(1) by (simp add: counted_def)
    then show thesis using True window_key_other [of key k] by (intro that [of "s(?ck \<mapsto> (RInt 1, None))"]) (simp_all add: r_incr_def)
  next
    case False
    then have g: "r_get (e_now E m') ?ck s = Some (RInt (int j))" for m' using assms(1) by (simp add: counted_def)
    then obtain v x where sx: "s ?ck = Some (v, x)" using g [of m] by (cases "s ?ck") (auto simp: r_get_def)
    have "r_get (e_now E m') ?ck (s(?ck \<mapsto> (RInt (int j + 1), x))) = Some (RInt (int j + 1))" for m'
      using g [of m'] sx by (auto simp: r_get_def split: option.splits if_splits)
    then show thesis using False g sx window_key_other [of key k]
      by (intro that [of "s(?ck \<mapsto> (RInt (int j + 1), x))"]) (simp_all add: r_incr_def)
  qed
  define s2 where "s2 = (if int j + 1 = 1 then r_expire ?t ?ck (W * 2 * 1000) s1 else s1)"
  have s2_other: "s2 ?pk = s ?pk" using other r_expire_other [OF window_key_other] by (simp add: s2_def)
  have s2_own: "r_get (e_now E m') ?ck s2 = Some (RInt (int j + 1))" for m'
  proof (cases "j = 0")
    case True
    then have "r_get ?t ?ck s = None" using assms(1) by (simp add: counted_def)
    with s1 have "s1 ?ck = Some (RInt 1, None)" by (auto simp: r_incr_def)
    then have "s2 ?ck = Some (RInt 1, Some (?t + W * 2 * 1000))"
      using True by (simp add: s2_def r_expire_def r_get_def)
    then show ?thesis using window_times [OF assms(2,3), of m' m] True by (simp add: r_get_def)
  next
    case False
    with live show ?thesis by (simp add: s2_def)
  qed
  have p2: "case r_get (e_now E m') ?pk s2 of None \<Rightarrow> p = 0 | Some v \<Rightarrow> v = RInt p" for m'
    using prev [where s' = s2 and m' = m', OF _ refl] s2_other by (simp add: r_get_def)
  have "slidingWindowScript ?ck ?pk W el ?t s =
      (case r_get ?t ?pk s2 of None \<Rightarrow> (Inr (int j + 1), s2)
       | Some (RInt prev) \<Rightarrow> (Inr (prev * (W - el) div W + (int j + 1)), s2)
       | Some _ \<Rightarrow> (Inl (External ''attempt to perform arithmetic on a nil value''), s2))"
    unfolding slidingWindowScript_def s1 s2_def by (simp only: Let_def prod.case sum.case)
  also have "\<dots> = (Inr (p * (W - el) div W + (int j + 1)), s2)"
    using p2 [of m] by (cases "r_get ?t ?pk s2") simp_all
  finally have "slidingWindowScript ?ck ?pk W el ?t s = (Inr (p * (W - el) div W + (int j + 1)), s2)" .
  moreover have "counted E key W k p (Suc j) s2" using s2_own p2 by (simp add: counted_def add.commute)
  ultimately show ?thesis by blast
qed

definition elapsed_at :: "env \<Rightarrow> int \<Rightarrow> nat \<Rightarrow> int" where
  "elapsed_at E W step = e_now E step div 1000 mod W"

lemma allow_counts:
  assumes "counted E key W k p j (w_redis (ed_world s))" and "in_window E W k" and "0 < W" and "\<forall>m. e_redis E m = None"
  shows "\<exists>s1. allow E key limit W s =
      (Inr (p * (W - elapsed_at E W (w_step (ed_world s))) div W + int j + 1 \<le> limit), s1) \<and>
    counted E key W k p (Suc j) (w_redis (ed_world s1)) \<and> w_step (ed_world s1) = w_step (ed_world s) + 2"
proof -
  let ?n = "w_step (ed_world s)"
  have k: "e_now E ?n div 1000 div W = k" using assms(2) by (simp add: in_window_def)
  from script_counts [OF assms(1-3), of "elapsed_at E W ?n" "Suc ?n"] obtain s' where
    "slidingWindowScript (window_key key k) (window_key key (k - 1)) W (elapsed_at E W ?n) (e_now E (Suc ?n)) (w_redis (ed_world s)) =
      (Inr (p * (W - elapsed_at E W ?n) div W + (int j + 1)), s')" and "counted E key W k p (Suc j) s'" by blast
  with assms(4) show ?thesis
    by (simp add: allow_def andThen_def Let_def k outside_def redis_call_def elapsed_at_def add.assoc)
qed

lemma allow_run_bounds:
  assumes "counted E key W k p j (w_redis (ed_world s))" and "in_window E W k" and "0 < W" and "\<forall>m. e_redis E m = None" and "0 \<le> p"
  shows "length (allow_run E key limit W n s) = n \<and>
    (\<forall>i < n. allow_run E key limit W n s ! i \<longleftrightarrow> p * (W - elapsed_at E W (w_step (ed_world s) + 2 * i)) div W + int (j + i) + 1 \<le> limit) \<and>
    int (length (filter (\<lambda>b. b) (allow_run E key limit W n s))) \<le> max 0 (limit - int j)"
  using assms(1)
proof (induction n arbitrary: j s)
  case (Suc n)
  from allow_counts [OF Suc.prems assms(2-4), of limit] obtain s1 where
    a: "allow E key limit W s = (Inr (p * (W - elapsed_at E W (w_step (ed_world s))) div W + int j + 1 \<le> limit), s1)"
    and c: "counted E key W k p (Suc j) (w_redis (ed_world s1))" and st: "w_step (ed_world s1) = w_step (ed_world s) + 2" by blast
  note IH = Suc.IH [OF c]
  have "elapsed_at E W (w_step (ed_world s)) \<le> W" using assms(3) pos_mod_bound [of W] by (simp add: elapsed_at_def less_imp_le)
  then have "0 \<le> p * (W - elapsed_at E W (w_step (ed_world s))) div W" using assms(3,5) by (simp add: pos_imp_zdiv_nonneg_iff)
  then have "int (length (filter (\<lambda>b. b) (allow_run E key limit W (Suc n) s))) \<le> max 0 (limit - int j)"
    using IH a by auto
  moreover have "allow_run E key limit W (Suc n) s ! i \<longleftrightarrow>
      p * (W - elapsed_at E W (w_step (ed_world s) + 2 * i)) div W + int (j + i) + 1 \<le> limit" if "i < Suc n" for i
    using IH a st that by (cases i) (auto simp: algebra_simps)
  ultimately show ?case using IH a by simp
qed simp


section \<open>Tokens\<close>

text \<open>
  What the gateway relies on of the key pair and of \<^verbatim>\<open>golang-jwt\<close>: the text the core's signer makes
  parses to the claims that were signed, with the method and a valid signature.
\<close>

definition parses_signed :: "env \<Rightarrow> (string \<Rightarrow> jwt_token option) \<Rightarrow> bool" where
  "parses_signed E parse \<longleftrightarrow> (\<forall>c tok. e_jwt_sign E c = Some tok \<longrightarrow>
     parse tok = Some \<lparr>jt_alg = ''RS256'', jt_claims = c, jt_has_exp = True, jt_signed = True\<rparr>)"

text \<open>
  C5. Tokens survive the trip. A token the core's signer issued verifies at a gateway with the
  same issuer at every time from its whole second of issue up to its expiry, and yields the
  user, role and token id it was issued with; from its expiry on it does not verify.
\<close>

theorem issued_token_verifies:
  assumes "parses_signed E parse" and "AccessTokenSigner_Issue E uid role w = (Inr tok, w')"
  shows "\<exists>n. (\<forall>t. numeric_date (e_now E n) \<le> t \<longrightarrow> t < numeric_date (e_now E n + e_access_ttl E) \<longrightarrow>
      (\<exists>c. Verifier_Verify parse (e_issuer E) t (at_Token tok) = Inr c \<and> c_id c = at_ID tok \<and>
        claims_principal c = \<lparr>p_UserID = uid, p_Role = role, p_TokenType = TokenTypeUser\<rparr>)) \<and>
    (\<forall>t. numeric_date (e_now E n + e_access_ttl E) \<le> t \<longrightarrow>
      (\<exists>err. Verifier_Verify parse (e_issuer E) t (at_Token tok) = Inl err))"
proof -
  from assms(2) obtain n c where "e_jwt_sign E c = Some (at_Token tok)" and "c_id c = at_ID tok" and
    c: "c_subject c = uid" "c_role c = role" "c_token_type c = TokenTypeUser" "c_issuer c = e_issuer E"
      "c_not_before c = numeric_date (e_now E n)" "c_expires_at c = numeric_date (e_now E n + e_access_ttl E)"
    unfolding AccessTokenSigner_Issue_def Signer_IssueAccessToken_def Let_def
    by (auto elim!: andThen_InrE split: option.splits)
  with assms(1) show ?thesis
    by (intro exI [of _ n]) (auto simp: parses_signed_def Verifier_Verify_def claims_principal_def)
qed

end
