(* ===== verification/EdgeDemo.thy ===== *)
theory EdgeDemo
  imports EdgeGuards
begin

text \<open>
  A concrete gateway, in which the hypotheses of the edge's properties hold: a bridge that
  passes headers on as metadata, a clock that stands still, and one signed token.
\<close>

definition gw_time :: int where "gw_time = 1700000000000000"

definition gw_env :: env where
  "gw_env = demo_env\<lparr>e_now := \<lambda>_. gw_time\<rparr>"

definition demo_edge :: edge_env where
  "demo_edge = \<lparr>ee_env = gw_env, ee_late = \<lambda>_. False, ee_gzip = (\<lambda>b. b), ee_redirect_note = \<lambda>_ _. [],
     ee_bridge = (\<lambda>r. Some (rq_path r, concat (map (\<lambda>k. map (\<lambda>v. (k, v)) (h_Values (rq_headers r) k)) forwardableHeaders))),
     ee_answer = \<lambda>_ _. Some (200, [], [])\<rparr>"

definition demo_config :: gateway_config where
  "demo_config = \<lparr>gc_production = False, gc_AllowedOrigins = [], gc_MaxBodyBytes = 1000, gc_GlobalPerSecond = 10,
     gc_PerIPPerMinute = 10\<rparr>"

definition demo_request :: "headers \<Rightarrow> request" where
  "demo_request h = \<lparr>rq_method = ''POST'', rq_path = ''/example.v1.ExampleService/ListNotes'', rq_uri = ''/'', rq_host = ''h'', rq_tls = False,
     rq_remote = ''10.0.0.1:99'', rq_headers = h, rq_cookies = [], rq_body = [], rq_limit = None, rq_request_id = None,
     rq_nonce = None, rq_principal = None\<rparr>"

definition demo_gateway :: "world \<Rightarrow> edge" where
  "demo_gateway w = \<lparr>ed_world = w, ed_filter = new_filter, ed_globalCount = 0, ed_globalWindow = 0,
     ed_ws = \<lparr>ws_base = fresh_writer, ws_gzip = \<lparr>gz_wroteHeader = False, gz_open = False, gz_plain = []\<rparr>, ws_timeout = fresh_writer, ws_status = 0\<rparr>,
     ed_calls = [], ed_log = []\<rparr>"

lemma demo_bridge: "bridge_faithful demo_edge"
  by (simp add: bridge_faithful_def demo_edge_def forwarded_Get)

lemma edge_identity_authentic_witness:
  "at_most_one_call (\<lambda>call. principal_of call = None) (demo_gateway (demo_world empty_db))
     (snd (BuildHandler demo_edge demo_config \<lparr>an_verifier = None, an_blacklist = True\<rparr> server_writer
        (demo_request (h_Set ''X-User-Id'' ''root'' (h_Set ''X-Role'' ''admin'' no_headers))) (demo_gateway (demo_world empty_db))))"
  by (rule at_most_one_mono [OF edge_identity_authentic [OF demo_bridge]]) (auto simp: verified_def)

definition demo_claims :: claims where
  "demo_claims = \<lparr>c_subject = ''ann'', c_issuer = ''lynk'', c_id = ''id1'', c_issued_at = 0, c_expires_at = gw_time + 1, c_not_before = 0,
     c_role = ''user'', c_token_type = ''user''\<rparr>"

definition demo_verifier :: authenticator where
  "demo_verifier = \<lparr>an_verifier = Some (\<lambda>tok. Some \<lparr>jt_alg = ''RS256'', jt_claims = demo_claims, jt_has_exp = True, jt_signed = (tok = ''t'')\<rparr>, ''lynk''),
     an_blacklist = True\<rparr>"


lemma csrf_blocks_forgery_witness:
  "ed_calls (snd (BuildHandler demo_edge demo_config demo_verifier server_writer (demo_request no_headers) (demo_gateway (demo_world empty_db)))) = []"
proof -
  have "forgeable (demo_request no_headers)"
    by (simp add: forgeable_def demo_request_def isSafeMethod_def h_Get_def h_Values_def no_headers_def)
  from csrf_blocks_forgery [OF this] show ?thesis by (simp add: demo_gateway_def)
qed



text \<open>The token id drawn first in the demo world.\<close>

definition drawn_bytes :: "byte list" where
  "drawn_bytes = map of_nat [0..<16]"

definition drawn_claims :: claims where
  "drawn_claims = \<lparr>c_subject = ''ann'', c_issuer = ''lynk'', c_id = hex_encode drawn_bytes, c_issued_at = gw_time,
     c_expires_at = gw_time + 900000000, c_not_before = gw_time, c_role = ''user'', c_token_type = ''user''\<rparr>"

definition signing_env :: env where
  "signing_env = gw_env\<lparr>e_jwt_sign := \<lambda>c. if c = drawn_claims then Some ''t'' else None\<rparr>"

definition signing_parse :: "string \<Rightarrow> jwt_token option" where
  "signing_parse tok = Some \<lparr>jt_alg = ''RS256'', jt_claims = drawn_claims, jt_has_exp = True, jt_signed = (tok = ''t'')\<rparr>"

lemma signing_facts:
  "e_now signing_env n = gw_time" "e_issuer signing_env = ''lynk''" "e_access_ttl signing_env = 900000000"
  "e_jwt_sign signing_env drawn_claims = Some ''t''" "numeric_date gw_time = gw_time" "numeric_date (gw_time + 900000000) = gw_time + 900000000"
  "w_step w = 0 \<Longrightarrow> rand_Read signing_env 16 w = (Inr (Some drawn_bytes), w\<lparr>w_step := 1\<rparr>)"
  by (simp_all add: signing_env_def gw_env_def demo_env_def numeric_date_def gw_time_def drawn_bytes_def)

lemma issued_token_verifies_witness:
  "\<exists>tok w' c. AccessTokenSigner_Issue signing_env ''ann'' ''user'' (demo_world empty_db) = (Inr tok, w') \<and>
     Verifier_Verify signing_parse ''lynk'' (gw_time + 5) (at_Token tok) = Inr c \<and> c_id c = at_ID tok"
proof -
  have p: "parses_signed signing_env signing_parse"
    by (simp add: parses_signed_def signing_env_def signing_parse_def)
  obtain tok w' where run: "AccessTokenSigner_Issue signing_env ''ann'' ''user'' (demo_world empty_db) = (Inr tok, w')"
    by (simp add: AccessTokenSigner_Issue_def Signer_IssueAccessToken_def andThen_def from_secure_def sec_HexToken_def Let_def
        signing_facts demo_world_def TokenTypeUser_def drawn_claims_def [symmetric] del: rand_Read_simp)
  from issued_token_verifies [OF p run] obtain n where
    v: "\<forall>t. numeric_date (e_now signing_env n) \<le> t \<longrightarrow> t < numeric_date (e_now signing_env n + e_access_ttl signing_env) \<longrightarrow>
      (\<exists>c. Verifier_Verify signing_parse (e_issuer signing_env) t (at_Token tok) = Inr c \<and> c_id c = at_ID tok \<and>
        claims_principal c = \<lparr>p_UserID = ''ann'', p_Role = ''user'', p_TokenType = TokenTypeUser\<rparr>)"
    by blast
  have "\<exists>c. Verifier_Verify signing_parse ''lynk'' (gw_time + 5) (at_Token tok) = Inr c \<and> c_id c = at_ID tok"
    using v [rule_format, of "gw_time + 5"] unfolding signing_facts by auto
  with run show ?thesis by blast
qed

end
