(* ===== verification/Forward.thy ===== *)
theory Forward
  imports LynkPrelude "HOL-Library.Sublist"
begin

text \<open>
  The transparent stream proxy (\<^verbatim>\<open>edge/forward.go\<close>, with the raw frames of \<^verbatim>\<open>edge/rawcodec.go\<close>): two
  pumps that copy frames in opposite directions and a handler that waits for their outcomes.
  Pumps and handler run concurrently, so the model is a step relation; what the two gRPC
  streams do (deliver a frame, end, fail) is chosen by the rules.
\<close>

section \<open>The state machine\<close>

text \<open>\<open>EOF\<close> is \<open>io.EOF\<close>: the client half-closed, or the upstream completed with the status OK.\<close>

datatype stream_err = EOF | Failed string

text \<open>Where a pump is; \<open>Finished\<close> is an error waiting in its channel, \<open>Consumed\<close> one the handler took.\<close>

datatype pump = Receiving | Sending string | Finished stream_err | Consumed

datatype outcome = ProxyOK | UpstreamStatus string | ClientBroke string | Exhausted

record fw =
  cl_frames :: "string list"
  cl_end :: stream_err
  up_frames :: "string list"
  up_end :: stream_err
  up_got :: "string list"
  up_halfClosed :: bool
  cl_header :: bool
  cl_got :: "string list"
  c2u :: pump
  u2c :: pump
  selects :: nat
  trailer :: bool
  cancelled :: bool
  fw_result :: "outcome option"

text \<open>
  The start of a proxied call: what the client will send and how its side ends, what the
  upstream will answer and with which status.
\<close>

definition transparentHandler :: "string list \<Rightarrow> stream_err \<Rightarrow> string list \<Rightarrow> stream_err \<Rightarrow> fw" where
  "transparentHandler cs ce us ue =
     \<lparr>cl_frames = cs, cl_end = ce, up_frames = us, up_end = ue, up_got = [], up_halfClosed = False, cl_header = False,
      cl_got = [], c2u = Receiving, u2c = Receiving, selects = 2, trailer = False, cancelled = False, fw_result = None\<rparr>"

inductive pumpClientToUpstream :: "fw \<Rightarrow> fw \<Rightarrow> bool" where
  recv: "c2u s = Receiving \<Longrightarrow> cl_frames s = f # fs \<Longrightarrow>
     pumpClientToUpstream s (s\<lparr>cl_frames := fs, c2u := Sending f\<rparr>)"
| recv_end: "c2u s = Receiving \<Longrightarrow> cl_frames s = [] \<Longrightarrow>
     pumpClientToUpstream s (s\<lparr>c2u := Finished (cl_end s)\<rparr>)"
| send: "c2u s = Sending f \<Longrightarrow>
     pumpClientToUpstream s (s\<lparr>up_got := up_got s @ [f], c2u := Receiving\<rparr>)"
| send_failed: "c2u s = Sending f \<Longrightarrow>
     pumpClientToUpstream s (s\<lparr>c2u := Finished e\<rparr>)"

text \<open>The headers go out before the first frame; a server stream reports a failed send as a status.\<close>

inductive pumpUpstreamToClient :: "fw \<Rightarrow> fw \<Rightarrow> bool" where
  recv: "u2c s = Receiving \<Longrightarrow> up_frames s = f # fs \<Longrightarrow>
     pumpUpstreamToClient s (s\<lparr>up_frames := fs, cl_header := True, u2c := Sending f\<rparr>)"
| recv_end: "u2c s = Receiving \<Longrightarrow> up_frames s = [] \<Longrightarrow>
     pumpUpstreamToClient s (s\<lparr>u2c := Finished (up_end s)\<rparr>)"
| header_failed: "u2c s = Receiving \<Longrightarrow> up_frames s = f # fs \<Longrightarrow>
     pumpUpstreamToClient s (s\<lparr>up_frames := fs, u2c := Finished (Failed e)\<rparr>)"
| send: "u2c s = Sending f \<Longrightarrow>
     pumpUpstreamToClient s (s\<lparr>cl_got := cl_got s @ [f], u2c := Receiving\<rparr>)"
| send_failed: "u2c s = Sending f \<Longrightarrow>
     pumpUpstreamToClient s (s\<lparr>u2c := Finished (Failed e)\<rparr>)"

text \<open>The loop \<open>for range 2\<close> around the \<open>select\<close>.\<close>

inductive select_step :: "fw \<Rightarrow> fw \<Rightarrow> bool" where
  half_close: "selects s = Suc n \<Longrightarrow> c2u s = Finished EOF \<Longrightarrow>
     select_step s (s\<lparr>c2u := Consumed, up_halfClosed := True, selects := n\<rparr>)"
| client_broke: "selects s = Suc n \<Longrightarrow> c2u s = Finished (Failed e) \<Longrightarrow>
     select_step s (s\<lparr>c2u := Consumed, cancelled := True, selects := n, fw_result := Some (ClientBroke e)\<rparr>)"
| upstream_ok: "selects s = Suc n \<Longrightarrow> u2c s = Finished EOF \<Longrightarrow>
     select_step s (s\<lparr>u2c := Consumed, trailer := True, selects := n, fw_result := Some ProxyOK\<rparr>)"
| upstream_status: "selects s = Suc n \<Longrightarrow> u2c s = Finished (Failed e) \<Longrightarrow>
     select_step s (s\<lparr>u2c := Consumed, trailer := True, selects := n, fw_result := Some (UpstreamStatus e)\<rparr>)"
| exhausted: "selects s = 0 \<Longrightarrow>
     select_step s (s\<lparr>fw_result := Some Exhausted\<rparr>)"

text \<open>Until the handler returns, any of the three moves.\<close>

inductive fw_step :: "fw \<Rightarrow> fw \<Rightarrow> bool" where
  client: "fw_result s = None \<Longrightarrow> pumpClientToUpstream s t \<Longrightarrow> fw_step s t"
| upstream: "fw_result s = None \<Longrightarrow> pumpUpstreamToClient s t \<Longrightarrow> fw_step s t"
| select: "fw_result s = None \<Longrightarrow> select_step s t \<Longrightarrow> fw_step s t"

code_pred pumpClientToUpstream .
code_pred select_step .

section \<open>What is delivered\<close>

text \<open>
  \<open>held p\<close> is the frame in a pump's hands. A frame is lost only when a send failed, and then the
  pump has finished with an error.
\<close>

fun held :: "pump \<Rightarrow> string list" where
  "held (Sending f) = [f]"
| "held _ = []"

fun copying :: "pump \<Rightarrow> bool" where
  "copying Receiving = True"
| "copying (Sending f) = True"
| "copying _ = False"

definition copied :: "string list \<Rightarrow> string list \<Rightarrow> pump \<Rightarrow> string list \<Rightarrow> bool" where
  "copied src got p left \<longleftrightarrow> prefix (got @ held p) src \<and> (copying p \<longrightarrow> src = got @ held p @ left)"

lemma copied_recv: "copied src got Receiving (f # fs) \<Longrightarrow> copied src got (Sending f) fs"
  and copied_send: "copied src got (Sending f) left \<Longrightarrow> copied src (got @ [f]) Receiving left"
  and copied_finished: "copied src got p left \<Longrightarrow> copied src got (Finished e) left'"
  and copied_consumed: "copied src got p left \<Longrightarrow> copied src got Consumed left'"
  and copied_all: "copied src got Receiving [] \<Longrightarrow> got = src"
  by (auto simp: copied_def dest: append_prefixD)

definition fw_inv :: "string list \<Rightarrow> stream_err \<Rightarrow> string list \<Rightarrow> stream_err \<Rightarrow> fw \<Rightarrow> bool" where
  "fw_inv cs ce us ue s \<longleftrightarrow>
     cl_end s = ce \<and> up_end s = ue \<and> copied cs (up_got s) (c2u s) (cl_frames s) \<and> copied us (cl_got s) (u2c s) (up_frames s) \<and>
     (cl_got s \<noteq> [] \<or> held (u2c s) \<noteq> [] \<longrightarrow> cl_header s) \<and>
     (u2c s = Finished EOF \<or> fw_result s = Some ProxyOK \<longrightarrow> ue = EOF \<and> cl_got s = us) \<and>
     (\<forall>e. fw_result s = Some (UpstreamStatus e) \<longrightarrow> trailer s) \<and>
     (\<forall>e. fw_result s = Some (ClientBroke e) \<longrightarrow> cancelled s) \<and>
     (fw_result s = None \<longrightarrow> selects s = (if c2u s = Consumed then 1 else 2) \<and> u2c s \<noteq> Consumed) \<and>
     fw_result s \<noteq> Some Exhausted"

lemma fw_inv_start: "fw_inv cs ce us ue (transparentHandler cs ce us ue)"
  by (simp add: fw_inv_def transparentHandler_def copied_def)

lemma client_inv:
  assumes "pumpClientToUpstream s t" and "fw_result s = None" and "fw_inv cs ce us ue s"
  shows "fw_inv cs ce us ue t"
  using assms(1)
  by cases (use assms(2,3) in \<open>auto simp: fw_inv_def copied_recv copied_send intro: copied_finished copied_consumed\<close>)

lemma upstream_inv:
  assumes "pumpUpstreamToClient s t" and "fw_result s = None" and "fw_inv cs ce us ue s"
  shows "fw_inv cs ce us ue t"
  using assms(1)
  by cases (use assms(2,3) in \<open>auto simp: fw_inv_def copied_recv copied_send copied_all intro: copied_finished copied_consumed\<close>)

lemma select_inv:
  assumes "select_step s t" and "fw_result s = None" and "fw_inv cs ce us ue s"
  shows "fw_inv cs ce us ue t"
  using assms(1)
  by cases (use assms(2,3) in \<open>auto simp: fw_inv_def intro: copied_consumed split: if_splits\<close>)

lemma fw_reachable: "fw_step\<^sup>*\<^sup>* (transparentHandler cs ce us ue) s \<Longrightarrow> fw_inv cs ce us ue s"
  by (induction rule: rtranclp_induct)
    (auto simp: fw_inv_start elim!: fw_step.cases intro: client_inv upstream_inv select_inv)

text \<open>
  C12. The proxy is transparent. However the pumps and the handler interleave and whatever sends
  fail: what the upstream got is a prefix of what the client sent and the other way round,
  headers precede frames, the handler reports OK only when the upstream completed with OK and
  every one of its frames was delivered, a broken client cancels the upstream call, and the
  loop never runs out without an outcome.
\<close>

theorem forward_faithful:
  assumes "fw_step\<^sup>*\<^sup>* (transparentHandler cs ce us ue) s"
  shows "prefix (up_got s) cs \<and> prefix (cl_got s) us \<and> (cl_got s \<noteq> [] \<longrightarrow> cl_header s) \<and>
    (fw_result s = Some ProxyOK \<longrightarrow> ue = EOF \<and> cl_got s = us) \<and>
    (\<forall>e. fw_result s = Some (ClientBroke e) \<longrightarrow> cancelled s) \<and> fw_result s \<noteq> Some Exhausted"
  using fw_reachable [OF assms] by (auto simp: fw_inv_def copied_def dest: append_prefixD)

section \<open>Termination\<close>

fun pump_work :: "pump \<Rightarrow> nat" where
  "pump_work Receiving = 2"
| "pump_work (Sending f) = 3"
| "pump_work (Finished e) = 1"
| "pump_work Consumed = 0"

definition work :: "fw \<Rightarrow> nat" where
  "work s = 2 * length (cl_frames s) + 2 * length (up_frames s) + pump_work (c2u s) + pump_work (u2c s) +
     selects s + (if fw_result s = None then 1 else 0)"

lemma client_work: "pumpClientToUpstream s t \<Longrightarrow> work t < work s"
  by (induction rule: pumpClientToUpstream.induct) (simp_all add: work_def)

lemma upstream_work: "pumpUpstreamToClient s t \<Longrightarrow> work t < work s"
  by (induction rule: pumpUpstreamToClient.induct) (simp_all add: work_def)

lemma select_work: "select_step s t \<Longrightarrow> fw_result s = None \<Longrightarrow> work t < work s"
  by (induction rule: select_step.induct) (simp_all add: work_def)

lemma fw_step_work: "fw_step s t \<Longrightarrow> work t < work s"
  by (cases rule: fw_step.cases) (auto intro: client_work upstream_work select_work)

lemma fw_progress:
  assumes "fw_inv cs ce us ue s" and "fw_result s = None"
  shows "\<exists>t. fw_step s t"
proof (cases "u2c s")
  case Receiving
  then show ?thesis using assms(2) by (cases "up_frames s") (blast intro: fw_step.upstream pumpUpstreamToClient.intros)+
next
  case (Sending f)
  then show ?thesis using assms(2) by (blast intro: fw_step.upstream pumpUpstreamToClient.intros)
next
  case (Finished e)
  moreover obtain n where "selects s = Suc n" using assms by (auto simp: fw_inv_def split: if_splits)
  ultimately show ?thesis using assms(2) by (cases e) (blast intro: fw_step.select select_step.intros)+
next
  case Consumed
  with assms show ?thesis by (simp add: fw_inv_def)
qed

lemma steps_work: "(fw_step ^^ n) s t \<Longrightarrow> work t + n \<le> work s"
proof (induction n arbitrary: t)
  case (Suc n)
  then obtain u where "(fw_step ^^ n) s u" "fw_step u t" by auto
  with Suc.IH fw_step_work show ?case by fastforce
qed simp


section \<open>Witnesses\<close>

definition echo_end :: fw where
  "echo_end = (transparentHandler [] EOF [] EOF)\<lparr>u2c := Consumed, selects := 1, trailer := True, fw_result := Some ProxyOK\<rparr>"

lemma echo_run: "(fw_step ^^ 2) (transparentHandler [] EOF [] EOF) echo_end"
proof -
  let ?a = "transparentHandler [] EOF [] EOF"
  have "fw_step ?a (?a\<lparr>u2c := Finished EOF\<rparr>)"
    using pumpUpstreamToClient.recv_end [of ?a] by (intro fw_step.upstream) (simp_all add: transparentHandler_def)
  moreover have "fw_step (?a\<lparr>u2c := Finished EOF\<rparr>) echo_end"
    using select_step.upstream_ok [of "?a\<lparr>u2c := Finished EOF\<rparr>" 1]
    by (intro fw_step.select) (simp_all add: transparentHandler_def echo_end_def)
  ultimately show ?thesis by (auto simp: numeral_2_eq_2)
qed

lemma forward_faithful_witness: "fw_result echo_end = Some ProxyOK \<and> cl_got echo_end = []"
  using forward_faithful [OF relpowp_imp_rtranclp [OF echo_run]] by (simp add: echo_end_def)


end
