(* ===== verification/RpcServer.thy ===== *)
theory RpcServer
  imports Redis AuthCtx Demo
begin

text \<open>
  The gRPC server of the core (\<^verbatim>\<open>platform/grpcserver\<close>) and the interceptors of \<^verbatim>\<open>platform/auth\<close>: the
  unary chain that \<open>New\<close> installs, each interceptor as a function on handlers, in the order of
  the code, and the choice of transport security. A handler acts on the world and the log. The
  validator generated from the \<^verbatim>\<open>.proto\<close> files, grpc-go, and the reading of key files are
  parameters; the deadline of a context only makes calls of the handler fail, which the
  environment's faults cover.
\<close>

section \<open>Contexts and handlers\<close>

record call_ctx =
  cx_md :: "metadata option"
  cx_method :: string
  cx_request_id :: "string option"
  cx_deadline :: "int option"
  cx_principal :: "principal option"

datatype rpc_log =
  PanicLogged string
| AppErrorLogged string string string
| UnexpectedLogged rpc_error
| SlowLogged

type_synonym 'a rpc_act = "(world \<times> rpc_log list, rpc_error, 'a) act"
type_synonym ('q, 'a) unary = "call_ctx \<Rightarrow> 'q \<Rightarrow> 'a rpc_act"
type_synonym ('q, 'a) interceptor = "('q, 'a) unary \<Rightarrow> ('q, 'a) unary"

definition rpc_world :: "(world, gerr, 'a) act \<Rightarrow> 'a rpc_act" where
  "rpc_world m = (\<lambda>(w, lg). case m w of (r, w') \<Rightarrow> (case r of Inl e \<Rightarrow> Inl (RawError e) | Inr x \<Rightarrow> Inr x, w', lg))"

definition rpc_log :: "rpc_log \<Rightarrow> unit rpc_act" where
  "rpc_log l = modify (\<lambda>(w, lg). (w, lg @ [l]))"

definition rpc_now :: "env \<Rightarrow> int rpc_act" where
  "rpc_now E = rpc_world (clock_Now E)"

text \<open>\<open>resp, err := handler(ctx, req)\<close>; a panic unwinds past the caller.\<close>

definition rpc_call :: "'a rpc_act \<Rightarrow> ((rpc_error + 'a) \<Rightarrow> 'a rpc_act) \<Rightarrow> 'a rpc_act" where
  "rpc_call m k s =
     (case m s of
        (Inl (RawError Panicked), s') \<Rightarrow> (Inl (RawError Panicked), s')
      | (r, s') \<Rightarrow> k r s')"

definition answer :: "(rpc_error + 'a) \<Rightarrow> 'a rpc_act" where
  "answer r = (\<lambda>s. (r, s))"

text \<open>\<open>apperror.As\<close> walks through the status error's cause.\<close>

fun apperror_node :: "gerr \<Rightarrow> gerr" where
  "apperror_node (Wrapped p e) = apperror_node e"
| "apperror_node e = e"

fun rpc_node :: "rpc_error \<Rightarrow> gerr" where
  "rpc_node (StatusError c msg cause) = apperror_node cause"
| "rpc_node (RawError e) = apperror_node e"
| "rpc_node (PlainStatus c msg) = External msg"

fun rpc_As :: "rpc_error \<Rightarrow> (kind \<times> string \<times> string) option" where
  "rpc_As (StatusError c msg cause) = apperror_As cause"
| "rpc_As (RawError e) = apperror_As e"
| "rpc_As (PlainStatus c msg) = None"

section \<open>Interceptors\<close>

definition recoveryInterceptor :: "('q, 'a) interceptor" where
  "recoveryInterceptor handler ctx req s =
     (case handler ctx req s of
        (Inl (RawError Panicked), s') \<Rightarrow>
          andThen (rpc_log (PanicLogged (cx_method ctx))) (\<lambda>_. fail (PlainStatus Internal ''internal server error'')) s'
      | r \<Rightarrow> r)"

definition requestIDMetadataKey :: string where "requestIDMetadataKey = ''x-request-id''"

definition incomingRequestID :: "call_ctx \<Rightarrow> string" where
  "incomingRequestID ctx = (case cx_md ctx of None \<Rightarrow> [] | Some md \<Rightarrow> firstValue md requestIDMetadataKey)"

definition RequestIDFromContext :: "call_ctx \<Rightarrow> string" where
  "RequestIDFromContext ctx = (case cx_request_id ctx of None \<Rightarrow> [] | Some i \<Rightarrow> i)"

definition requestIDInterceptor :: "env \<Rightarrow> ('q, 'a) interceptor" where
  "requestIDInterceptor E handler ctx req =
     (if incomingRequestID ctx = []
      then andThen (rpc_world (attempt (UUIDGenerator_NewID E))) (\<lambda>g.
             handler (ctx\<lparr>cx_request_id := Some (case g of Inl _ \<Rightarrow> ''unavailable'' | Inr i \<Rightarrow> i)\<rparr>) req)
      else handler (ctx\<lparr>cx_request_id := Some (incomingRequestID ctx)\<rparr>) req)"

definition slowRequestThreshold :: int where "slowRequestThreshold = 1000000"

definition loggingInterceptor :: "env \<Rightarrow> ('q, 'a) interceptor" where
  "loggingInterceptor E handler ctx req =
     andThen (rpc_now E) (\<lambda>start.
     rpc_call (handler ctx req) (\<lambda>r.
     andThen (rpc_now E) (\<lambda>now.
     andThen (case r of
         Inl err \<Rightarrow> if rpc_As err = None then rpc_log (UnexpectedLogged err) else ret ()
       | Inr _ \<Rightarrow> if now - start > slowRequestThreshold then rpc_log SlowLogged else ret ()) (\<lambda>_.
       answer r))))"

definition errorMappingInterceptor :: "(string \<Rightarrow> byte list) \<Rightarrow> ('q, 'a) interceptor" where
  "errorMappingInterceptor sha256 handler ctx req =
     rpc_call (handler ctx req) (\<lambda>r.
       case r of
         Inr resp \<Rightarrow> answer (Inr resp)
       | Inl err \<Rightarrow>
           (case rpc_As err of
              None \<Rightarrow> answer (Inl err)
            | Some (k, c, msg) \<Rightarrow>
                andThen (rpc_log (AppErrorLogged (kind_String k) c (apperror_Fingerprint sha256 (k, c, msg)))) (\<lambda>_.
                  answer (Inl (StatusError (toGRPCCode k) msg (rpc_node err))))))"

definition timeoutInterceptor :: "env \<Rightarrow> int \<Rightarrow> ('q, 'a) interceptor" where
  "timeoutInterceptor E timeout handler ctx req =
     (if timeout \<le> 0 then handler ctx req
      else andThen (rpc_now E) (\<lambda>now.
        handler (ctx\<lparr>cx_deadline := Some (case cx_deadline ctx of None \<Rightarrow> now + timeout | Some d \<Rightarrow> min d (now + timeout))\<rparr>) req))"

definition validationInterceptor :: "('q \<Rightarrow> gerr option) \<Rightarrow> ('q, 'a) interceptor" where
  "validationInterceptor validate handler ctx req =
     (case validate req of
        Some err \<Rightarrow> fail (RawError (apperror_Wrap err KindInvalidInput ''invalid_input'' ''request validation failed''))
      | None \<Rightarrow> handler ctx req)"

definition TrustedHeaderInterceptor :: "('q, 'a) interceptor" where
  "TrustedHeaderInterceptor handler ctx req =
     handler (case withPrincipalFromMetadata (cx_md ctx) of None \<Rightarrow> ctx | Some p \<Rightarrow> ctx\<lparr>cx_principal := Some p\<rparr>) req"

definition VerifyTokenInterceptor :: "(string \<Rightarrow> claims option) \<Rightarrow> ('q, 'a) interceptor" where
  "VerifyTokenInterceptor verify handler ctx req =
     (let token = bearerToken (cx_md ctx) in
      if token = [] then handler ctx req
      else case verify token of
        None \<Rightarrow> handler ctx req
      | Some c \<Rightarrow> handler (ctx\<lparr>cx_principal := Some \<lparr>p_UserID = c_subject c, p_Role = c_role c, p_TokenType = c_token_type c\<rparr>\<rparr>) req)"

section \<open>The server\<close>

record rpc_config =
  sc_Port :: int
  sc_MaxRecvMessageBytes :: int
  sc_MaxConcurrentStreams :: "32 word"
  sc_HandlerTimeout :: int
  sc_TLSCertFile :: string
  sc_TLSKeyFile :: string
  sc_TLSClientCAFile :: string
  sc_Reflection :: bool

definition withDefaults :: "rpc_config \<Rightarrow> rpc_config" where
  "withDefaults c =
     (let c1 = (if sc_MaxRecvMessageBytes c \<le> 0 then c\<lparr>sc_MaxRecvMessageBytes := 4194304\<rparr> else c);
          c2 = (if sc_MaxConcurrentStreams c1 = 0 then c1\<lparr>sc_MaxConcurrentStreams := 1000\<rparr> else c1)
      in if sc_HandlerTimeout c2 = 0 then c2\<lparr>sc_HandlerTimeout := 30000000\<rparr> else c2)"

text \<open>\<open>grpc.ChainUnaryInterceptor\<close>: the first interceptor is the outermost.\<close>

definition chain_unary :: "('q, 'a) interceptor list \<Rightarrow> ('q, 'a) interceptor" where
  "chain_unary is handler = foldr (\<lambda>i h. i h) is handler"

definition unary_chain ::
  "env \<Rightarrow> ('q \<Rightarrow> gerr option) \<Rightarrow> rpc_config \<Rightarrow> ('q, 'a) interceptor list \<Rightarrow> ('q, 'a) interceptor" where
  "unary_chain E validate cfg extras =
     chain_unary ([recoveryInterceptor, requestIDInterceptor E, loggingInterceptor E, errorMappingInterceptor (e_sha256 E),
        timeoutInterceptor E (sc_HandlerTimeout (withDefaults cfg)), validationInterceptor validate] @ extras)"

text \<open>
  Transport security: what \<open>loadTransportCredentials\<close> makes of the configured files. \<open>tf_pair\<close> is
  \<^verbatim>\<open>tls.LoadX509KeyPair\<close>, \<open>tf_read\<close> reads a file, \<open>tf_certs\<close> says whether a PEM text holds a certificate.
\<close>

record tls_files =
  tf_pair :: "string \<Rightarrow> string \<Rightarrow> string + string"
  tf_read :: "string \<Rightarrow> string + string"
  tf_certs :: "string \<Rightarrow> bool"

record tls_config =
  tl_Certificate :: string
  tl_MinVersion13 :: bool
  tl_ClientCAs :: "string option"

definition loadTransportCredentials :: "tls_files \<Rightarrow> rpc_config \<Rightarrow> string + tls_config option" where
  "loadTransportCredentials F cfg =
     (if sc_TLSCertFile cfg = [] \<and> sc_TLSKeyFile cfg = [] then Inr None
      else if sc_TLSCertFile cfg = [] \<or> sc_TLSKeyFile cfg = []
        then Inl ''grpcserver: TLS requires both cert and key files''
      else case tf_pair F (sc_TLSCertFile cfg) (sc_TLSKeyFile cfg) of
        Inl err \<Rightarrow> Inl (''grpcserver: load tls keypair: '' @ err)
      | Inr cert \<Rightarrow>
          let config = \<lparr>tl_Certificate = cert, tl_MinVersion13 = True, tl_ClientCAs = None\<rparr> in
          if sc_TLSClientCAFile cfg = [] then Inr (Some config)
          else case tf_read F (sc_TLSClientCAFile cfg) of
            Inl err \<Rightarrow> Inl (''grpcserver: read client CA: '' @ err)
          | Inr pem \<Rightarrow>
              if \<not> tf_certs F pem then Inl ''grpcserver: client CA file contained no valid certificates''
              else Inr (Some (config\<lparr>tl_ClientCAs := Some pem\<rparr>)))"

record ('q, 'a) rpc_server =
  sv_unary :: "('q, 'a) interceptor"
  sv_tls :: "tls_config option"
  sv_reflection :: bool
  sv_addr :: string

definition grpcserver_New ::
  "env \<Rightarrow> tls_files \<Rightarrow> ('q \<Rightarrow> gerr option) \<Rightarrow> rpc_config \<Rightarrow> ('q, 'a) interceptor list \<Rightarrow> string + ('q, 'a) rpc_server" where
  "grpcserver_New E F validate cfg extras =
     (case loadTransportCredentials F (withDefaults cfg) of
        Inl err \<Rightarrow> Inl err
      | Inr creds \<Rightarrow> Inr \<lparr>sv_unary = unary_chain E validate cfg extras, sv_tls = creds, sv_reflection = sc_Reflection cfg,
                          sv_addr = '':'' @ int_dec (sc_Port cfg)\<rparr>)"

section \<open>What the chain makes of a call\<close>

text \<open>A module's handler under the guards closest to it: it does not log and its errors are raw.\<close>

definition module_handler :: "(call_ctx \<Rightarrow> 'q \<Rightarrow> (world, gerr, 'a) act) \<Rightarrow> ('q, 'a) unary" where
  "module_handler h ctx req = rpc_world (h ctx req)"

definition raw :: "('q, 'a) unary \<Rightarrow> bool" where
  "raw u \<longleftrightarrow> (\<forall>ctx req w lg. snd (snd (u ctx req (w, lg))) = lg \<and>
     (\<forall>e. fst (u ctx req (w, lg)) = Inl e \<longrightarrow> (\<exists>g. e = RawError g)))"

lemma rpc_now_simp [simp]: "rpc_now E (w, lg) = (Inr (e_now E (w_step w)), (w\<lparr>w_step := Suc (w_step w)\<rparr>, lg))"
  by (simp add: rpc_now_def rpc_world_def)

lemma rpc_log_simp [simp]: "rpc_log l (w, lg) = (Inr (), (w, lg @ [l]))"
  by (simp add: rpc_log_def)

lemma answer_simp [simp]: "answer r s = (r, s)"
  by (simp add: answer_def)

lemma raw_module: "raw (module_handler h)"
  by (auto simp: raw_def module_handler_def rpc_world_def split: prod.splits sum.splits)

lemma raw_timeout: "raw u \<Longrightarrow> raw (timeoutInterceptor E t u)"
  by (auto simp: raw_def timeoutInterceptor_def andThen_def)

lemma raw_validation: "raw u \<Longrightarrow> raw (validationInterceptor v u)"
  by (auto simp: raw_def validationInterceptor_def split: option.splits)

lemma raw_trusted: "raw u \<Longrightarrow> raw (TrustedHeaderInterceptor u)"
  by (auto simp: raw_def TrustedHeaderInterceptor_def)

text \<open>The three outcomes of the error mapping, and what it logged.\<close>

definition mapped :: "(string \<Rightarrow> byte list) \<Rightarrow> (rpc_error + 'a) \<Rightarrow> rpc_log list \<Rightarrow> bool" where
  "mapped sha256 r ls \<longleftrightarrow>
     (case r of
        Inr x \<Rightarrow> ls = []
      | Inl (RawError e) \<Rightarrow> ls = [] \<and> apperror_As e = None
      | Inl (StatusError c msg cause) \<Rightarrow>
          (\<exists>k code. c = toGRPCCode k \<and> apperror_As cause = Some (k, code, msg) \<and>
             ls = [AppErrorLogged (kind_String k) code (apperror_Fingerprint sha256 (k, code, msg))])
      | Inl (PlainStatus c msg) \<Rightarrow> False)"

lemma As_node: "apperror_As (apperror_node e) = apperror_As e"
  by (induction e rule: apperror_node.induct) simp_all

lemma mapped_by:
  assumes "raw u" and "errorMappingInterceptor sha256 u ctx req (w, lg) = (r, (w', lg'))"
  shows "\<exists>ls. lg' = lg @ ls \<and> mapped sha256 r ls"
proof -
  obtain q v l where q: "u ctx req (w, lg) = (q, (v, l))" by (metis prod.collapse)
  then have l: "l = lg" and e: "\<And>e. q = Inl e \<Longrightarrow> \<exists>g. e = RawError g"
    using assms(1) [unfolded raw_def, rule_format, of ctx req w lg] by auto
  show ?thesis
  proof (cases q)
    case (Inr x)
    with assms(2) q l show ?thesis by (auto simp: errorMappingInterceptor_def rpc_call_def mapped_def)
  next
    case (Inl e')
    then obtain g where g: "q = Inl (RawError g)" using e by blast
    show ?thesis
    proof (cases "apperror_As g")
      case None
      with assms(2) q l g show ?thesis
        by (cases "g = Panicked") (auto simp: errorMappingInterceptor_def rpc_call_def mapped_def split: gerr.splits)
    next
      case (Some x)
      then obtain k c msg where x: "apperror_As g = Some (k, c, msg)" by (cases x) auto
      then have "g \<noteq> Panicked" by auto
      then have "rpc_call (u ctx req) f (w, lg) = f q (v, l)" for f
        using q g by (auto simp: rpc_call_def split: gerr.splits)
      with assms(2) q l g x show ?thesis by (auto simp: errorMappingInterceptor_def mapped_def As_node)
    qed
  qed
qed

definition logged_once :: "(string \<Rightarrow> byte list) \<Rightarrow> string \<Rightarrow> (rpc_error + 'a) \<Rightarrow> rpc_log list \<Rightarrow> bool" where
  "logged_once sha256 name r ls \<longleftrightarrow>
     (case r of
        Inr x \<Rightarrow> ls = [] \<or> ls = [SlowLogged]
      | Inl (PlainStatus c msg) \<Rightarrow> c = Internal \<and> msg = ''internal server error'' \<and> ls = [PanicLogged name]
      | Inl (StatusError c msg cause) \<Rightarrow>
          (\<exists>k code. c = toGRPCCode k \<and> apperror_As cause = Some (k, code, msg) \<and>
             ls = [AppErrorLogged (kind_String k) code (apperror_Fingerprint sha256 (k, code, msg))])
      | Inl (RawError e) \<Rightarrow> e \<noteq> Panicked \<and> apperror_As e = None \<and> ls = [UnexpectedLogged (RawError e)])"

lemma logging_by:
  assumes "raw u" and run: "loggingInterceptor E (errorMappingInterceptor sha256 u) ctx req (w, lg) = (r, (w', lg'))"
  shows "(r = Inl (RawError Panicked) \<and> lg' = lg) \<or> (\<exists>ls. lg' = lg @ ls \<and> logged_once sha256 name r ls)"
proof -
  let ?w = "w\<lparr>w_step := Suc (w_step w)\<rparr>"
  obtain q v l where q: "errorMappingInterceptor sha256 u ctx req (?w, lg) = (q, (v, l))" by (metis prod.collapse)
  from mapped_by [OF assms(1) q] obtain ls where ls: "l = lg @ ls" "mapped sha256 q ls" by blast
  show ?thesis
  proof (cases "q = Inl (RawError Panicked)")
    case True
    then have "ls = []" using ls(2) by (simp add: mapped_def)
    with run q ls True show ?thesis by (simp add: loggingInterceptor_def rpc_call_def)
  next
    case False
    then have "rpc_call (errorMappingInterceptor sha256 u ctx req) f (?w, lg) = f q (v, l)" for f
      using q by (auto simp: rpc_call_def split: sum.splits rpc_error.splits gerr.splits)
    with run ls have "r = q \<and> (case q of
        Inl err \<Rightarrow> lg' = l @ (if rpc_As err = None then [UnexpectedLogged err] else [])
      | Inr x \<Rightarrow> lg' = l \<or> lg' = l @ [SlowLogged])"
      by (cases q) (auto simp: loggingInterceptor_def split: if_splits)
    with ls False show ?thesis
      by (cases q; cases "projl q") (auto simp: mapped_def logged_once_def)
  qed
qed

lemma recovery_by:
  assumes "\<And>c v l r' v' l'. inner c req (v, l) = (r', (v', l')) \<Longrightarrow>
      (r' = Inl (RawError Panicked) \<and> l' = l) \<or> (\<exists>ls. l' = l @ ls \<and> logged_once sha256 (cx_method ctx) r' ls)"
    and run: "recoveryInterceptor (requestIDInterceptor E inner) ctx req (w, lg) = (r, (w', lg'))"
  shows "\<exists>ls. lg' = lg @ ls \<and> logged_once sha256 (cx_method ctx) r ls"
proof -
  obtain q v l where q: "requestIDInterceptor E inner ctx req (w, lg) = (q, (v, l))" by (metis prod.collapse)
  have "\<exists>c w0. inner c req (w0, lg) = (q, (v, l))"
    using q by (auto simp: requestIDInterceptor_def rpc_world_def andThen_def split: if_splits)
  then have "(q = Inl (RawError Panicked) \<and> l = lg) \<or> (\<exists>ls. l = lg @ ls \<and> logged_once sha256 (cx_method ctx) q ls)"
    using assms(1) by blast
  then show ?thesis
  proof
    assume "q = Inl (RawError Panicked) \<and> l = lg"
    with run q show ?thesis by (auto simp: recoveryInterceptor_def logged_once_def)
  next
    assume ls: "\<exists>ls. l = lg @ ls \<and> logged_once sha256 (cx_method ctx) q ls"
    then have "q \<noteq> Inl (RawError Panicked)" by (auto simp: logged_once_def)
    then have "(r, (w', lg')) = (q, (v, l))"
      using run q by (auto simp: recoveryInterceptor_def split: sum.splits rpc_error.splits gerr.splits)
    with ls show ?thesis by simp
  qed
qed


section \<open>What a handler is given\<close>

text \<open>Two handlers that agree on what they can be called with are not told apart.\<close>

definition agree :: "(call_ctx \<Rightarrow> bool) \<Rightarrow> 'q \<Rightarrow> ('q, 'a) unary \<Rightarrow> ('q, 'a) unary \<Rightarrow> bool" where
  "agree P req u u' \<longleftrightarrow> (\<forall>c s. P c \<longrightarrow> u c req s = u' c req s)"

definition incoming :: "metadata option \<Rightarrow> call_ctx \<Rightarrow> bool" where
  "incoming md c \<longleftrightarrow> cx_md c = md \<and> cx_principal c = None"

definition identified :: "metadata option \<Rightarrow> call_ctx \<Rightarrow> bool" where
  "identified md c \<longleftrightarrow> cx_md c = md \<and> cx_principal c = withPrincipalFromMetadata md \<and> cx_request_id c \<noteq> None"

definition correlated :: "metadata option \<Rightarrow> call_ctx \<Rightarrow> bool" where
  "correlated md c \<longleftrightarrow> incoming md c \<and> cx_request_id c \<noteq> None"

lemma agree_trusted: "agree (identified md) req u u' \<Longrightarrow> agree (correlated md) req (TrustedHeaderInterceptor u) (TrustedHeaderInterceptor u')"
  by (auto simp: agree_def identified_def correlated_def incoming_def TrustedHeaderInterceptor_def split: option.splits)

lemma agree_validation: "agree P req u u' \<Longrightarrow> agree P req (validationInterceptor v u) (validationInterceptor v u')"
  by (simp add: agree_def validationInterceptor_def split: option.splits)

lemma agree_timeout: "agree (correlated md) req u u' \<Longrightarrow> agree (correlated md) req (timeoutInterceptor E t u) (timeoutInterceptor E t u')"
  by (auto simp: agree_def correlated_def incoming_def timeoutInterceptor_def andThen_def split: prod.splits sum.splits)

lemma agree_mapping: "agree P req u u' \<Longrightarrow> agree P req (errorMappingInterceptor f u) (errorMappingInterceptor f u')"
  by (simp add: agree_def errorMappingInterceptor_def rpc_call_def)

lemma agree_logging: "agree P req u u' \<Longrightarrow> agree P req (loggingInterceptor E u) (loggingInterceptor E u')"
  by (auto simp: agree_def loggingInterceptor_def rpc_call_def andThen_def split: prod.splits sum.splits)

lemma agree_requestID: "agree (correlated md) req u u' \<Longrightarrow> agree (incoming md) req (requestIDInterceptor E u) (requestIDInterceptor E u')"
  by (auto simp: agree_def correlated_def incoming_def requestIDInterceptor_def andThen_def split: prod.splits sum.splits)

lemma agree_recovery: "agree P req u u' \<Longrightarrow> agree P req (recoveryInterceptor u) (recoveryInterceptor u')"
  by (simp add: agree_def recoveryInterceptor_def)

lemma chain_agree:
  assumes "agree (correlated md) req (validationInterceptor validate (TrustedHeaderInterceptor u)) (validationInterceptor validate (TrustedHeaderInterceptor u'))"
    and "incoming md ctx"
  shows "unary_chain E validate cfg [TrustedHeaderInterceptor] u ctx req s = unary_chain E validate cfg [TrustedHeaderInterceptor] u' ctx req s"
proof -
  have "agree (incoming md) req (unary_chain E validate cfg [TrustedHeaderInterceptor] u) (unary_chain E validate cfg [TrustedHeaderInterceptor] u')"
    unfolding unary_chain_def chain_unary_def
    by (simp, intro agree_recovery agree_requestID agree_logging agree_mapping agree_timeout assms(1))
  with assms(2) show ?thesis by (cases s) (simp add: agree_def)
qed

text \<open>
  C21. A handler acts on the identity the gateway forwarded and on nothing else. The principal it
  is called with is the one the trusted headers of the call's metadata name, whatever else the
  call carries, and a request id is always set; and a request that breaks the contract of its
  message never reaches it: the answer is the same for every handler.
\<close>

theorem handlers_get_the_forwarded_identity:
  assumes "cx_principal ctx = None"
    and "(\<forall>c w. cx_md c = cx_md ctx \<and> cx_principal c = withPrincipalFromMetadata (cx_md ctx) \<and> cx_request_id c \<noteq> None \<longrightarrow>
           h c req w = h' c req w) \<or> validate req \<noteq> None"
  shows "unary_chain E validate cfg [TrustedHeaderInterceptor] (module_handler h) ctx req s =
         unary_chain E validate cfg [TrustedHeaderInterceptor] (module_handler h') ctx req s"
proof (rule chain_agree)
  show "incoming (cx_md ctx) ctx" using assms(1) by (simp add: incoming_def)
  show "agree (correlated (cx_md ctx)) req (validationInterceptor validate (TrustedHeaderInterceptor (module_handler h)))
      (validationInterceptor validate (TrustedHeaderInterceptor (module_handler h')))"
  proof (cases "validate req")
    case None
    with assms(2) have "agree (identified (cx_md ctx)) req (module_handler h) (module_handler h')"
      by (auto simp: agree_def identified_def module_handler_def rpc_world_def)
    then show ?thesis by (intro agree_validation agree_trusted)
  qed (simp add: agree_def validationInterceptor_def)
qed

text \<open>
  The server is never served with half of its TLS. If it comes up without TLS neither a
  certificate nor a key was configured; with TLS it is 1.3, and a client CA that was configured
  is one whose certificates clients must present.
\<close>

theorem tls_not_downgraded:
  assumes "grpcserver_New E F validate cfg extras = Inr sv"
  shows "(sv_tls sv = None \<longleftrightarrow> sc_TLSCertFile cfg = [] \<and> sc_TLSKeyFile cfg = []) \<and>
    (case sv_tls sv of None \<Rightarrow> True | Some t \<Rightarrow> tl_MinVersion13 t \<and>
       (tl_ClientCAs t = None \<longleftrightarrow> sc_TLSClientCAFile cfg = []))"
proof -
  have "sc_TLSCertFile (withDefaults cfg) = sc_TLSCertFile cfg" "sc_TLSKeyFile (withDefaults cfg) = sc_TLSKeyFile cfg"
    "sc_TLSClientCAFile (withDefaults cfg) = sc_TLSClientCAFile cfg" by (simp_all add: withDefaults_def Let_def)
  with assms show ?thesis
    by (auto simp: grpcserver_New_def loadTransportCredentials_def Let_def split: if_splits sum.splits)
qed

text \<open>But a client CA without a certificate and a key is dropped: the server comes up in plain text.\<close>

lemma client_ca_alone_is_plaintext:
  "sc_TLSCertFile cfg = [] \<Longrightarrow> sc_TLSKeyFile cfg = [] \<Longrightarrow> loadTransportCredentials F cfg = Inr None"
  by (simp add: loadTransportCredentials_def)

section \<open>A server at work\<close>

definition demo_ctx :: call_ctx where
  "demo_ctx = \<lparr>cx_md = Some [(''x-user-id'', ''ann'')], cx_method = ''/m'', cx_request_id = None, cx_deadline = None, cx_principal = None\<rparr>"

definition demo_rpc :: rpc_config where
  "demo_rpc = \<lparr>sc_Port = 1, sc_MaxRecvMessageBytes = 0, sc_MaxConcurrentStreams = 0, sc_HandlerTimeout = 0, sc_TLSCertFile = ''c'',
     sc_TLSKeyFile = ''k'', sc_TLSClientCAFile = ''a'', sc_Reflection = False\<rparr>"

lemma tls_not_downgraded_witness:
  "\<exists>sv. grpcserver_New demo_env \<lparr>tf_pair = \<lambda>_ _. Inr ''cert'', tf_read = \<lambda>_. Inr ''pem'', tf_certs = \<lambda>_. True\<rparr> (\<lambda>_ :: unit. None) demo_rpc
      ([] :: (unit, unit) interceptor list) = Inr sv \<and> sv_tls sv \<noteq> None"
proof -
  let ?F = "\<lparr>tf_pair = \<lambda>_ _. Inr ''cert'', tf_read = \<lambda>_. Inr ''pem'', tf_certs = \<lambda>_. True\<rparr>"
  obtain sv where sv: "grpcserver_New demo_env ?F (\<lambda>_ :: unit. None) demo_rpc ([] :: (unit, unit) interceptor list) = Inr sv"
    by (simp add: grpcserver_New_def loadTransportCredentials_def withDefaults_def Let_def demo_rpc_def)
  with tls_not_downgraded [OF this] show ?thesis by (auto simp: demo_rpc_def)
qed


lemma handlers_get_the_forwarded_identity_witness:
  "unary_chain demo_env (\<lambda>_ :: unit. None) demo_rpc [TrustedHeaderInterceptor]
     (module_handler (\<lambda>c q. ret (cx_principal c))) demo_ctx () (demo_world empty_db, []) =
   unary_chain demo_env (\<lambda>_ :: unit. None) demo_rpc [TrustedHeaderInterceptor]
     (module_handler (\<lambda>c q. ret (Some \<lparr>p_UserID = ''ann'', p_Role = [], p_TokenType = []\<rparr>))) demo_ctx () (demo_world empty_db, [])"
  by (rule handlers_get_the_forwarded_identity)
    (simp_all add: demo_ctx_def withPrincipalFromMetadata_def firstValue_def md_Get_def headerUserID_def headerRole_def headerTokenType_def)

end
