(* ===== verification/RpcStreams.thy ===== *)
theory RpcStreams
  imports RpcServer
begin

text \<open>
  The stream side of \<^verbatim>\<open>platform/grpcserver\<close> and \<^verbatim>\<open>platform/auth\<close>, the options of \<open>New\<close>, and the life of
  the server from \<open>Start\<close> to \<open>Stop\<close>. Streams bypass the unary chain; what guards them is what
  \<open>WithStreamInterceptors\<close> was given.
\<close>

section \<open>Streams\<close>

text \<open>
  A stream is its \<open>Context()\<close> and the methods that receive and send, which the interceptors hand
  on untouched. An interceptor is given the method's name (\<open>info\<close>) and the stream.
\<close>

record 'm server_stream =
  ss_Context :: call_ctx
  ss_inner :: 'm

type_synonym 'm stream_handler = "'m server_stream \<Rightarrow> unit rpc_act"
type_synonym 'm stream_interceptor = "'m stream_handler \<Rightarrow> string \<Rightarrow> 'm server_stream \<Rightarrow> unit rpc_act"

definition streamRecoveryInterceptor :: "'m stream_interceptor" where
  "streamRecoveryInterceptor handler info ss s =
     (case handler ss s of
        (Inl (RawError Panicked), s') \<Rightarrow>
          andThen (rpc_log (PanicLogged info)) (\<lambda>_. fail (PlainStatus Internal ''internal server error'')) s'
      | r \<Rightarrow> r)"

text \<open>\<open>principalServerStream\<close> is the stream with its \<open>Context()\<close> overridden.\<close>

definition principalServerStream :: "'m server_stream \<Rightarrow> call_ctx \<Rightarrow> 'm server_stream" where
  "principalServerStream ss ctx = ss\<lparr>ss_Context := ctx\<rparr>"

definition TrustedHeaderStreamInterceptor :: "'m stream_interceptor" where
  "TrustedHeaderStreamInterceptor handler info ss =
     (let ctx = ss_Context ss in
      handler (principalServerStream ss
        (case withPrincipalFromMetadata (cx_md ctx) of None \<Rightarrow> ctx | Some p \<Rightarrow> ctx\<lparr>cx_principal := Some p\<rparr>)))"

section \<open>The options of the server\<close>

record ('q, 'a, 'm) rpc_options =
  op_unary :: "('q, 'a) interceptor list"
  op_stream :: "'m stream_interceptor list"

type_synonym ('q, 'a, 'm) rpc_option = "('q, 'a, 'm) rpc_options \<Rightarrow> ('q, 'a, 'm) rpc_options"

definition WithUnaryInterceptors :: "('q, 'a) interceptor list \<Rightarrow> ('q, 'a, 'm) rpc_option" where
  "WithUnaryInterceptors is opts = opts\<lparr>op_unary := op_unary opts @ is\<rparr>"

definition WithStreamInterceptors :: "'m stream_interceptor list \<Rightarrow> ('q, 'a, 'm) rpc_option" where
  "WithStreamInterceptors is opts = opts\<lparr>op_stream := op_stream opts @ is\<rparr>"

definition applied :: "('q, 'a, 'm) rpc_option list \<Rightarrow> ('q, 'a, 'm) rpc_options" where
  "applied fs = fold (\<lambda>f opts. f opts) fs \<lparr>op_unary = [], op_stream = []\<rparr>"

text \<open>\<open>grpc.ChainStreamInterceptor\<close>: the first interceptor is the outermost, \<open>info\<close> is the same for all.\<close>

definition stream_chain :: "'m stream_interceptor list \<Rightarrow> 'm stream_interceptor" where
  "stream_chain extras handler info = foldr (\<lambda>i h. i h info) (streamRecoveryInterceptor # extras) handler"

text \<open>The server of \<^verbatim>\<open>bootstrap/app.go\<close>: the trusted headers guard calls and streams.\<close>

definition core_options :: "('q, 'a, 'm) rpc_options" where
  "core_options = applied [WithUnaryInterceptors [TrustedHeaderInterceptor], WithStreamInterceptors [TrustedHeaderStreamInterceptor]]"

lemma core_guards [simp]: "op_unary core_options = [TrustedHeaderInterceptor]" "op_stream core_options = [TrustedHeaderStreamInterceptor]"
  by (simp_all add: core_options_def applied_def WithUnaryInterceptors_def WithStreamInterceptors_def)

text \<open>Options add up in the order they are given, each kind on its own.\<close>

lemma unary_options_append:
  "fold (\<lambda>f opts. f opts) (map WithUnaryInterceptors uss) opts = opts\<lparr>op_unary := op_unary opts @ concat uss\<rparr>"
  by (induction uss arbitrary: opts) (simp_all add: WithUnaryInterceptors_def)

lemma stream_options_append:
  "fold (\<lambda>f opts. f opts) (map WithStreamInterceptors sss) opts = opts\<lparr>op_stream := op_stream opts @ concat sss\<rparr>"
  by (induction sss arbitrary: opts) (simp_all add: WithStreamInterceptors_def)

lemma options_append:
  "applied (map WithUnaryInterceptors uss @ map WithStreamInterceptors sss) = \<lparr>op_unary = concat uss, op_stream = concat sss\<rparr>"
  unfolding applied_def fold_append comp_apply unary_options_append stream_options_append by simp

section \<open>What the stream chain makes of a stream\<close>

text \<open>A panic of a stream's handler, or of a guard, never leaves the chain.\<close>

lemma stream_panics_stop: "fst (stream_chain extras handler info ss s) \<noteq> Inl (RawError Panicked)"
  by (auto simp: stream_chain_def streamRecoveryInterceptor_def andThen_def rpc_log_def modify_def
      split: prod.splits sum.splits rpc_error.splits gerr.splits)

text \<open>
  A handler behind the core's options sees the caller of the trusted headers: on a stream that arrived
  without a principal it cannot be told from one that reads the metadata itself.
\<close>

lemma streams_get_the_forwarded_identity:
  assumes "cx_principal (ss_Context ss) = None"
    and "\<And>st. ss_inner st = ss_inner ss \<Longrightarrow> cx_md (ss_Context st) = cx_md (ss_Context ss) \<Longrightarrow>
      cx_principal (ss_Context st) = withPrincipalFromMetadata (cx_md (ss_Context ss)) \<Longrightarrow> h st = h' st"
  shows "stream_chain (op_stream core_options) h info ss = stream_chain (op_stream core_options) h' info ss"
proof
  fix s
  have "TrustedHeaderStreamInterceptor h info ss = TrustedHeaderStreamInterceptor h' info ss"
    unfolding TrustedHeaderStreamInterceptor_def Let_def
    by (rule assms(2)) (use assms(1) in \<open>auto simp: principalServerStream_def split: option.splits\<close>)
  then show "stream_chain (op_stream core_options) h info ss s = stream_chain (op_stream core_options) h' info ss s"
    by (simp add: stream_chain_def streamRecoveryInterceptor_def)
qed

text \<open>Without the option a stream runs unauthenticated, whatever the metadata say.\<close>

lemma unguarded_streams_are_anonymous:
  assumes "\<And>st. cx_principal (ss_Context st) = None \<Longrightarrow> h st = h' st" and "cx_principal (ss_Context ss) = None"
  shows "stream_chain [] h info ss = stream_chain [] h' info ss"
  using assms by (intro ext) (simp add: stream_chain_def streamRecoveryInterceptor_def)

section \<open>Limits of connections\<close>

text \<open>What \<open>New\<close> hands to grpc-go beside the chains; durations are in microseconds.\<close>

record keepalive_policy =
  ka_MinTime :: int
  ka_PermitWithoutStream :: bool

record keepalive_params =
  ka_Time :: int
  ka_Timeout :: int
  ka_MaxConnectionAge :: int
  ka_MaxConnectionAgeGrace :: int

definition keepaliveEnforcement :: keepalive_policy where
  "keepaliveEnforcement = \<lparr>ka_MinTime = 15 * 1000000, ka_PermitWithoutStream = True\<rparr>"

definition keepaliveParams :: keepalive_params where
  "keepaliveParams = \<lparr>ka_Time = 30 * 1000000, ka_Timeout = 10 * 1000000, ka_MaxConnectionAge = 30 * 60000000,
     ka_MaxConnectionAgeGrace = 5 * 1000000\<rparr>"

record server_limits =
  sl_MaxRecvMsgSize :: int
  sl_MaxConcurrentStreams :: "32 word"
  sl_ConnectionTimeout :: int
  sl_Enforcement :: keepalive_policy
  sl_Params :: keepalive_params

definition serverOptions :: "rpc_config \<Rightarrow> server_limits" where
  "serverOptions cfg =
     \<lparr>sl_MaxRecvMsgSize = sc_MaxRecvMessageBytes (withDefaults cfg),
      sl_MaxConcurrentStreams = sc_MaxConcurrentStreams (withDefaults cfg),
      sl_ConnectionTimeout = 10 * 1000000, sl_Enforcement = keepaliveEnforcement, sl_Params = keepaliveParams\<rparr>"

text \<open>
  No configuration lifts a limit: messages and streams are bounded, and a peer is never probed more
  often than the server lets its clients probe it.
\<close>

lemma limits_always_set:
  "0 < sl_MaxRecvMsgSize (serverOptions cfg)" "sl_MaxConcurrentStreams (serverOptions cfg) \<noteq> 0"
  "ka_MinTime (sl_Enforcement (serverOptions cfg)) < ka_Time (sl_Params (serverOptions cfg))"
  by (simp_all add: serverOptions_def withDefaults_def Let_def keepaliveEnforcement_def keepaliveParams_def)

section \<open>Start and stop\<close>

datatype server_event = Listening string | SetServing | Served | Drained | Terminated

text \<open>
  \<open>Start\<close> blocks until the server stops; \<open>served\<close> is what \<open>Serve\<close> returns then. \<open>Stop\<close> races the drain
  with its context: \<open>drained\<close> is whether the drain ends first.
\<close>

definition Grpc_Start :: "string + unit \<Rightarrow> string + unit \<Rightarrow> ('q, 'a) rpc_server \<Rightarrow> (string + unit) \<times> server_event list" where
  "Grpc_Start listened served sv =
     (case listened of
        Inl err \<Rightarrow> (Inl (''grpcserver: listen '' @ sv_addr sv @ '': '' @ err), [])
      | Inr _ \<Rightarrow> (served, [Listening (sv_addr sv), SetServing, Served]))"

definition Grpc_Stop :: "bool \<Rightarrow> string \<Rightarrow> (string + unit) \<times> server_event list" where
  "Grpc_Stop drained ctxErr = (if drained then (Inr (), [Drained]) else (Inl ctxErr, [Terminated]))"

lemma serving_only_while_listening:
  "SetServing \<in> set (snd (Grpc_Start listened served sv)) \<longleftrightarrow> listened = Inr ()"
  by (cases listened) (simp_all add: Grpc_Start_def)

lemma stop_always_ends: "\<exists>e. snd (Grpc_Stop drained err) = [e] \<and> (e = Drained \<longleftrightarrow> fst (Grpc_Stop drained err) = Inr ())"
  by (simp add: Grpc_Stop_def)

end
