(* ===== verification/Tasks.thy ===== *)
theory Tasks
  imports Jobs Authz Outbox
begin

text \<open>
  \<^verbatim>\<open>platform/safe\<close>, the recover around goroutines, and the two tasks that run under it: the ticker of a
  job (\<^verbatim>\<open>platform/jobs\<close>) and the reload of the policies (\<^verbatim>\<open>modules/authz/checker.go\<close>). The loops of the two
  outbox relays, which run without it, close the theory.
\<close>

section \<open>Goroutines that recover\<close>

datatype task_log = TaskPanicked string | TaskFailed string gerr

definition recoverPanic :: "string \<Rightarrow> gerr + 'a \<Rightarrow> task_log list" where
  "recoverPanic name r = (case r of Inl Panicked \<Rightarrow> [TaskPanicked name] | _ \<Rightarrow> [])"

text \<open>The goroutine that \<open>safe.Go\<close> starts, run to its end: the state it leaves and what it logs.\<close>

definition safe_Go :: "string \<Rightarrow> ('s, gerr, unit) act \<Rightarrow> 's \<Rightarrow> 's \<times> task_log list" where
  "safe_Go name fn s = (case fn s of (r, s') \<Rightarrow> (s', recoverPanic name r))"

text \<open>\<open>cancelled\<close> is \<open>ctx.Err() \<noteq> nil\<close> when the task has returned.\<close>

definition safe_GoCtx :: "bool \<Rightarrow> string \<Rightarrow> ('s, gerr, unit) act \<Rightarrow> 's \<Rightarrow> 's \<times> task_log list" where
  "safe_GoCtx cancelled name fn s =
     (case fn s of
        (Inr _, s') \<Rightarrow> (s', [])
      | (Inl err, s') \<Rightarrow>
          (s', if err = Panicked then recoverPanic name (Inl err :: gerr + unit)
               else if cancelled then [] else [TaskFailed name err]))"

lemma panics_are_logged:
  "fn s = (Inl Panicked, s') \<Longrightarrow> safe_Go name fn s = (s', [TaskPanicked name])"
  "fn s = (Inl Panicked, s') \<Longrightarrow> safe_GoCtx cancelled name fn s = (s', [TaskPanicked name])"
  by (simp_all add: safe_Go_def safe_GoCtx_def recoverPanic_def)

lemma cancelled_tasks_are_silent:
  "fn s = (Inl e, s') \<Longrightarrow> e \<noteq> Panicked \<Longrightarrow> safe_GoCtx True name fn s = (s', [])"
  by (simp add: safe_GoCtx_def)

section \<open>The runner's tickers\<close>

text \<open>\<open>Run\<close> starts a goroutine per job; \<open>n\<close> says how often each ticker fires before the worker stops.\<close>

definition Runner_Run :: "env \<Rightarrow> (string \<Rightarrow> nat) \<Rightarrow> job list \<Rightarrow> (world \<Rightarrow> world \<times> task_log list) list" where
  "Runner_Run E n jobs = map (\<lambda>jb. safe_Go (''job:'' @ jb_Name jb) (job_ticks E jb (n (jb_Name jb)))) jobs"

text \<open>
  The recover is around the ticker, not around one run: a run that panics is the job's last one in
  this process, however often the ticker would fire, and the lease it took is not released.
\<close>

lemma job_panic_ends_ticker:
  assumes "runOnce E jb w = (Inl Panicked, w')"
  shows "safe_Go name (job_ticks E jb (Suc n)) w = (w', [TaskPanicked name])"
  using assms by (intro panics_are_logged) (simp add: andThen_def)

lemma job_panic_keeps_lease:
  assumes "run_begin E jb w = (Inr (Start (Some l)), w1)" and "jb_Run jb = Some run" and "run w1 = (Inl Panicked, w2)"
  shows "safe_Go name (job_ticks E jb (Suc n)) w = (w2, [TaskPanicked name])"
  by (rule job_panic_ends_ticker) (use assms in \<open>simp add: runOnce_def andThen_def catchE_def\<close>)

section \<open>The reload of the policies\<close>

text \<open>\<open>defer c.refreshing.Store(false)\<close> runs when the reload ends, however it ends.\<close>

definition refresh_body :: "cel \<Rightarrow> env \<Rightarrow> unit checker_act" where
  "refresh_body L E s = (case Checker_Refresh L E s of (r, w, ck) \<Rightarrow> (r, w, ck\<lparr>ck_refreshing := False\<rparr>))"

definition refresh_task :: "cel \<Rightarrow> env \<Rightarrow> world \<times> checker \<Rightarrow> (world \<times> checker) \<times> task_log list" where
  "refresh_task L E = safe_GoCtx False ''authz-refresh'' (refresh_body L E)"

text \<open>The task has the effect of \<open>background_refresh\<close>, and logs exactly when the reload failed.\<close>

lemma refresh_task_effect: "fst (refresh_task L E s) = snd (background_refresh L E s)"
proof -
  obtain r w ck where run: "Checker_Refresh L E s = (r, w, ck)" by (metis prod.collapse)
  then show ?thesis
    by (cases r) (simp_all add: refresh_task_def safe_GoCtx_def refresh_body_def background_refresh_def attempt_def andThen_def)
qed

lemma refresh_task_logs: "snd (refresh_task L E s) = [] \<longleftrightarrow> (\<exists>x. fst (Checker_Refresh L E s) = Inr x)"
  by (auto simp: refresh_task_def safe_GoCtx_def refresh_body_def recoverPanic_def split: prod.splits sum.splits)

section \<open>The loops of the relays\<close>

text \<open>
  \<open>Run\<close> of a relay whose ticker fires \<open>n\<close> times before the worker stops: a failed batch is logged and
  the next tick tries again; a panic unwinds out of the loop.
\<close>

primrec relay_loop :: "(world, gerr, unit) act \<Rightarrow> nat \<Rightarrow> (world, gerr, unit) act" where
  "relay_loop batch 0 = ret ()"
| "relay_loop batch (Suc n) = andThen (catchE batch (\<lambda>_. ret ()) ret) (\<lambda>_. relay_loop batch n)"

definition identity_relay_Run :: "env \<Rightarrow> nat \<Rightarrow> (world, gerr, unit) act" where
  "identity_relay_Run E = relay_loop (identity_relayBatch E)"

definition example_relay_Run :: "env \<Rightarrow> nat \<Rightarrow> (world, gerr, unit) act" where
  "example_relay_Run E = relay_loop (example_relayBatch E)"

text \<open>Errors never end the loop, and its effect is that of its batches in turn, \<open>relay_ticks\<close>.\<close>

lemma relay_loop_batches:
  assumes "\<And>w. fst (batch w) \<noteq> Inl Panicked"
  shows "relay_loop batch n w = (Inr (), relay_ticks batch n w)"
  unfolding relay_ticks_def
proof (induction n arbitrary: w)
  case (Suc n)
  obtain r v where run: "batch w = (r, v)" by (metis prod.collapse)
  then have "catchE batch (\<lambda>_. ret ()) ret w = (Inr (), v)"
    using assms [of w] by (cases r) (simp_all add: catchE_def)
  then show ?case
    using Suc run by (simp add: andThen_def funpow_Suc_right del: funpow.simps)
qed simp

lemma relay_panic_ends_loop: "batch w = (Inl Panicked, v) \<Longrightarrow> relay_loop batch (Suc n) w = (Inl Panicked, v)"
  by (simp add: andThen_def catchE_def)

end
