(* ===== verification/Connections.thy ===== *)
theory Connections
  imports Config RpcServer Authz
begin

text \<open>
  What a process opens and closes: the shutdown manager (\<^verbatim>\<open>platform/shutdown\<close>), the \<open>Connect\<close>
  functions of \<^verbatim>\<open>platform/postgres\<close>, \<^verbatim>\<open>platform/redis\<close> and \<^verbatim>\<open>platform/nats\<close>, \<open>Init\<close> and \<open>Shutdown\<close> of
  \<^verbatim>\<open>platform/telemetry\<close> and the probes of \<^verbatim>\<open>platform/health\<close> with the \<^verbatim>\<open>healthcheck\<close> binary. What the
  outside answers (databases, brokers, exporters) is a parameter, the record \<open>boot_env\<close>. The
  second half keeps the balance between what was opened and what the registered hooks will close.
\<close>

section \<open>Resources and hooks\<close>

datatype resource =
  TraceExporter | MetricExporter | TracerProvider | MeterProvider
| Pool string | RedisClient | NatsConnection | UpstreamConn string
| OpsServer | GrpcServer | PublicServer | BlacklistSubscription

datatype event = Opened resource | Closed resource

text \<open>A clean-up hook: its name, and what its function closes.\<close>

record hook =
  hk_name :: string
  hk_closes :: "resource list"

text \<open>The stream configurations the broker holds, as \<open>EnsureStream\<close> leaves them.\<close>

record stream_config =
  st_Subjects :: "string list"
  st_Replicas :: int

text \<open>\<^verbatim>\<open>jwt.Signer\<close> and the gateway's \<open>Server\<close>; a key is what the library parses it to.\<close>

record signer =
  sg_privateKey :: string
  sg_issuer :: string
  sg_accessTokenTTL :: int

record http_server =
  hs_Addr :: string
  hs_ReadTimeout :: int
  hs_ReadHeaderTimeout :: int
  hs_WriteTimeout :: int
  hs_IdleTimeout :: int
  hs_MaxHeaderBytes :: int
  hs_tlsCertFile :: string
  hs_tlsKeyFile :: string

text \<open>
  A process: its hooks, what it opened and closed in order, the hooks that failed at shutdown, the
  broker's streams, and what the composition root has put together.
\<close>

record process =
  ps_hooks :: "hook list"
  ps_log :: "event list"
  ps_failed :: "(string \<times> string) list"
  ps_streams :: "string \<rightharpoonup> stream_config"
  ps_signer :: "signer option"
  ps_verifier :: "(string \<times> string) option"
  ps_checker :: checker
  ps_services :: "string list"
  ps_runners :: "string list"
  ps_public :: "http_server option"
  ps_warnings :: "string list"

definition new_process :: process where
  "new_process = \<lparr>ps_hooks = [], ps_log = [], ps_failed = [], ps_streams = Map.empty, ps_signer = None,
     ps_verifier = None, ps_checker = \<lparr>ck_policies = [], ck_loadedAt = 0, ck_refreshing = False\<rparr>,
     ps_services = [], ps_runners = [], ps_public = None, ps_warnings = []\<rparr>"

type_synonym 'a boot_act = "(process, string, 'a) act"

definition opens :: "resource \<Rightarrow> unit boot_act" where
  "opens r = modify (\<lambda>p. p\<lparr>ps_log := ps_log p @ [Opened r]\<rparr>)"

definition closes :: "resource list \<Rightarrow> unit boot_act" where
  "closes rs = modify (\<lambda>p. p\<lparr>ps_log := ps_log p @ map Closed rs\<rparr>)"

text \<open>A call that opens nothing: \<open>Some err\<close> when it fails, which the caller wraps.\<close>

definition checked :: "string \<Rightarrow> string option \<Rightarrow> unit boot_act" where
  "checked context_msg e = (case e of Some err \<Rightarrow> fail (context_msg @ err) | None \<Rightarrow> ret ())"

datatype dial_outcome = BadURL string | NotCreated string | NoPing string | Up
datatype process_end = Interrupted | ComponentEnded "string option"
datatype nats_outcome = NoDial string | NoJetStream string | Connected

record pool_config =
  pc_URL :: string
  pc_MaxConns :: "32 word"
  pc_MinConns :: "32 word"
  pc_MaxConnLifetime :: int
  pc_MaxConnIdleTime :: int

record redis_options =
  ro_URL :: string
  ro_PoolSize :: int
  ro_MaxRetries :: int

text \<open>
  The outside of a boot. \<open>bo_cpus\<close> is \<^verbatim>\<open>GOMAXPROCS\<close>; the functions give what each third-party call
  answers on its arguments; \<open>bo_close\<close> the error a hook of that name ends with.
\<close>

record boot_env =
  bo_lib :: go_lib
  bo_files :: "string \<Rightarrow> env_file"
  bo_environ :: environ
  bo_cpus :: nat
  bo_resource :: "string option"
  bo_prometheus :: "string option"
  bo_trace_exporter :: "string \<Rightarrow> string option"
  bo_metric_exporter :: "string \<Rightarrow> string option"
  bo_pool :: "pool_config \<Rightarrow> dial_outcome"
  bo_redis :: "redis_options \<Rightarrow> dial_outcome"
  bo_nats :: "string \<Rightarrow> string \<Rightarrow> nats_outcome"
  bo_stream :: "string \<Rightarrow> stream_config \<Rightarrow> string option"
  bo_close :: "string \<Rightarrow> string option"
  bo_tls :: tls_files
  bo_keygen :: "string + string"
  bo_parse_private :: "string \<Rightarrow> string + string"
  bo_parse_public :: "string \<Rightarrow> string + string"
  bo_cel_env :: "string option"
  bo_cel :: cel
  bo_sql :: env
  bo_world :: world
  bo_dial :: "string \<Rightarrow> string option"
  bo_end :: process_end

section \<open>The shutdown manager\<close>

definition Manager_Register :: "string \<Rightarrow> resource list \<Rightarrow> unit boot_act" where
  "Manager_Register name rs = modify (\<lambda>p. p\<lparr>ps_hooks := ps_hooks p @ [\<lparr>hk_name = name, hk_closes = rs\<rparr>]\<rparr>)"

text \<open>One turn of the loop of \<open>Run\<close>: a hook that fails is logged and the loop continues.\<close>

definition run_hook :: "boot_env \<Rightarrow> hook \<Rightarrow> process \<Rightarrow> process" where
  "run_hook B h p =
     (let p1 = p\<lparr>ps_log := ps_log p @ map Closed (hk_closes h)\<rparr> in
      case bo_close B (hk_name h) of
        Some err \<Rightarrow> p1\<lparr>ps_failed := ps_failed p1 @ [(hk_name h, err)]\<rparr>
      | None \<Rightarrow> p1)"

definition Manager_Run :: "boot_env \<Rightarrow> unit boot_act" where
  "Manager_Run B = modify (\<lambda>p. fold (run_hook B) (rev (ps_hooks p)) p)"

text \<open>\<open>if err != nil { manager.Run(); return err }\<close>\<close>

definition orDrain :: "boot_env \<Rightarrow> 'a boot_act \<Rightarrow> 'a boot_act" where
  "orDrain B m p = (case m p of (Inl err, p') \<Rightarrow> (Inl err, snd (Manager_Run B p')) | (Inr x, p') \<Rightarrow> (Inr x, p'))"

section \<open>Telemetry\<close>

definition buildResource :: "boot_env \<Rightarrow> unit boot_act" where
  "buildResource B = checked ''telemetry: build resource: '' (bo_resource B)"

text \<open>\<open>Init\<close> gives what the \<open>Providers\<close> hold, which is what \<open>Shutdown\<close> closes.\<close>

definition telemetry_Init :: "boot_env \<Rightarrow> telemetry_cfg \<Rightarrow> resource list boot_act" where
  "telemetry_Init B cfg =
     andThen (buildResource B) (\<lambda>_.
     andThen (checked ''telemetry: prometheus exporter: '' (bo_prometheus B)) (\<lambda>_.
     if \<not> tc_Enabled cfg then
       andThen (opens TracerProvider) (\<lambda>_.
       andThen (opens MeterProvider) (\<lambda>_. ret [TracerProvider, MeterProvider]))
     else
       andThen (checked ''telemetry: trace exporter: '' (bo_trace_exporter B (tc_Endpoint cfg))) (\<lambda>_.
       andThen (opens TraceExporter) (\<lambda>_.
       andThen (checked ''telemetry: metric exporter: '' (bo_metric_exporter B (tc_Endpoint cfg))) (\<lambda>_.
       andThen (opens MetricExporter) (\<lambda>_.
       andThen (opens TracerProvider) (\<lambda>_.
       andThen (opens MeterProvider) (\<lambda>_. ret [TracerProvider, TraceExporter, MeterProvider, MetricExporter]))))))))"

section \<open>Databases\<close>

record pg_config =
  pg_WriteURL :: string
  pg_ReadURLs :: "string list"
  pg_MaxConns :: "32 word"
  pg_MinConns :: "32 word"
  pg_MaxConnLifetime :: int
  pg_MaxConnIdleTime :: int

definition pg_withDefaults :: "nat \<Rightarrow> pg_config \<Rightarrow> pg_config" where
  "pg_withDefaults cpus c =
     (let c = (if sint (pg_MaxConns c) \<le> 0 then c\<lparr>pg_MaxConns := of_nat (4 * cpus)\<rparr> else c);
          c = (if sint (pg_MinConns c) \<le> 0 then c\<lparr>pg_MinConns := 5\<rparr> else c);
          c = (if pg_MaxConnLifetime c \<le> 0 then c\<lparr>pg_MaxConnLifetime := 30 * 60 * 1000000000\<rparr> else c)
      in if pg_MaxConnIdleTime c \<le> 0 then c\<lparr>pg_MaxConnIdleTime := 5 * 60 * 1000000000\<rparr> else c)"

definition newPool :: "boot_env \<Rightarrow> string \<Rightarrow> pg_config \<Rightarrow> unit boot_act" where
  "newPool B url cfg =
     (case bo_pool B \<lparr>pc_URL = url, pc_MaxConns = pg_MaxConns cfg, pc_MinConns = pg_MinConns cfg,
                      pc_MaxConnLifetime = pg_MaxConnLifetime cfg, pc_MaxConnIdleTime = pg_MaxConnIdleTime cfg\<rparr> of
        BadURL e \<Rightarrow> fail (''parse config: '' @ e)
      | NotCreated e \<Rightarrow> fail (''create pool: '' @ e)
      | NoPing e \<Rightarrow> andThen (opens (Pool url)) (\<lambda>_. andThen (closes [Pool url]) (\<lambda>_. fail (''ping: '' @ e)))
      | Up \<Rightarrow> opens (Pool url))"

text \<open>The loop of \<open>postgres.Connect\<close> over the replicas, with those it has opened.\<close>

fun connect_reads :: "boot_env \<Rightarrow> pg_config \<Rightarrow> nat \<Rightarrow> string list \<Rightarrow> string list \<Rightarrow> string list boot_act" where
  "connect_reads B cfg i opened [] = ret opened"
| "connect_reads B cfg i opened (url # urls) = (\<lambda>p.
     (case newPool B url cfg p of
        (Inl err, p') \<Rightarrow>
          andThen (closes (map Pool (pg_WriteURL cfg # opened))) (\<lambda>_.
            fail (''postgres: connect replica '' @ nat_dec (Suc i) @ '': '' @ err)) p'
      | (Inr u, p') \<Rightarrow> connect_reads B cfg (Suc i) (opened @ [url]) urls p'))"

definition postgres_Connect :: "boot_env \<Rightarrow> pg_config \<Rightarrow> string list boot_act" where
  "postgres_Connect B cfg0 p =
     (let cfg = pg_withDefaults (bo_cpus B) cfg0 in
      case newPool B (pg_WriteURL cfg) cfg p of
        (Inl err, p') \<Rightarrow> (Inl (''postgres: connect primary: '' @ err), p')
      | (Inr u, p') \<Rightarrow> connect_reads B cfg 0 [] (pg_ReadURLs cfg) p')"

definition Pools_Close :: "string \<Rightarrow> string list \<Rightarrow> resource list" where
  "Pools_Close write replicas = Pool write # map Pool replicas"

definition redis_Connect :: "boot_env \<Rightarrow> redis_cfg \<Rightarrow> unit boot_act" where
  "redis_Connect B cfg =
     (case bo_redis B \<lparr>ro_URL = rc_URL cfg, ro_PoolSize = (if rc_PoolSize cfg > 0 then rc_PoolSize cfg else 50),
                       ro_MaxRetries = (if rc_MaxRetries cfg > 0 then rc_MaxRetries cfg else 3)\<rparr> of
        BadURL e \<Rightarrow> fail (''redis: parse url: '' @ e)
      | NotCreated e \<Rightarrow> andThen (opens RedisClient) (\<lambda>_. andThen (closes [RedisClient]) (\<lambda>_. fail (''redis: instrument tracing: '' @ e)))
      | NoPing e \<Rightarrow> andThen (opens RedisClient) (\<lambda>_. andThen (closes [RedisClient]) (\<lambda>_. fail (''redis: ping: '' @ e)))
      | Up \<Rightarrow> opens RedisClient)"

section \<open>The broker\<close>

text \<open>\<open>Connect\<close> gives the \<open>replicas\<close> the connection keeps for \<open>EnsureStream\<close>.\<close>

definition nats_Connect :: "boot_env \<Rightarrow> string \<Rightarrow> string \<Rightarrow> int \<Rightarrow> int boot_act" where
  "nats_Connect B url clientName streamReplicas =
     (case bo_nats B url clientName of
        NoDial e \<Rightarrow> fail (''nats: connect: '' @ e)
      | NoJetStream e \<Rightarrow> andThen (opens NatsConnection) (\<lambda>_. andThen (closes [NatsConnection]) (\<lambda>_. fail (''nats: init jetstream: '' @ e)))
      | Connected \<Rightarrow> andThen (opens NatsConnection) (\<lambda>_. ret (if streamReplicas \<le> 0 then 1 else streamReplicas)))"

definition EnsureStream :: "boot_env \<Rightarrow> int \<Rightarrow> string \<Rightarrow> string list \<Rightarrow> unit boot_act" where
  "EnsureStream B replicas name subjects =
     (let cfg = \<lparr>st_Subjects = subjects, st_Replicas = replicas\<rparr> in
      andThen (checked (''nats: ensure stream '' @ name @ '': '') (bo_stream B name cfg)) (\<lambda>_.
        modify (\<lambda>p. p\<lparr>ps_streams := (ps_streams p)(name \<mapsto> cfg)\<rparr>)))"

section \<open>Probes\<close>

text \<open>\<open>handleReadiness\<close>: the registered checks with what each of them answers.\<close>

definition handleReadiness :: "(string \<times> string option) list \<Rightarrow> nat \<times> (string \<times> string) list" where
  "handleReadiness checks =
     (let results = map (\<lambda>(name, r). (name, case r of Some err \<Rightarrow> ''down: '' @ err | None \<Rightarrow> ''ok'')) checks;
          healthy = list_all (\<lambda>(name, r). r = None) checks
      in (if healthy then 200 else 503, results))"

definition handleLiveness :: "nat \<times> (string \<times> string) list" where
  "handleLiveness = (200, [(''status'', ''ok'')])"

text \<open>The ops server's routes: the probes, \<^verbatim>\<open>/metrics\<close> (any other handler \<open>metrics\<close>), nothing else.\<close>

definition ops_serve :: "(string \<times> string option) list \<Rightarrow> nat \<Rightarrow> string \<Rightarrow> nat" where
  "ops_serve checks metrics path =
     (if path = ''/healthz'' then fst handleLiveness
      else if path = ''/readyz'' then fst (handleReadiness checks)
      else if path = ''/metrics'' then metrics else 404)"

text \<open>
  The \<^verbatim>\<open>healthcheck\<close> binary: its exit code from its arguments; \<open>parse_url\<close> says whether the request
  can be built, \<open>get\<close> is the answer's status.
\<close>

definition healthcheck_main :: "(string \<Rightarrow> bool) \<Rightarrow> (string \<Rightarrow> nat option) \<Rightarrow> string list \<Rightarrow> nat" where
  "healthcheck_main parse_url get args =
     (if length args < 2 then 2
      else if \<not> parse_url (args ! 1) then 2
      else case get (args ! 1) of
        None \<Rightarrow> 1
      | Some st \<Rightarrow> if st \<noteq> 200 then 1 else 0)"

section \<open>The balance of resources\<close>

text \<open>
  \<open>bal rs p\<close>: what was opened and is not closed yet is what the registered hooks will close,
  and \<open>rs\<close>.
\<close>

definition bal :: "resource list \<Rightarrow> process \<Rightarrow> bool" where
  "bal rs p \<longleftrightarrow> (\<forall>r. count_list (ps_log p) (Opened r) =
     count_list (ps_log p) (Closed r) + count_list (rs @ concat (map hk_closes (ps_hooks p))) r)"

definition all_closed :: "process \<Rightarrow> bool" where
  "all_closed p \<longleftrightarrow> (\<forall>r. count_list (ps_log p) (Opened r) = count_list (ps_log p) (Closed r))"

lemma count_Closed [simp]:
  "count_list (map Closed rs) (Closed r) = count_list rs r" "count_list (map Closed rs) (Opened r) = 0"
  by (induction rs) auto

lemma fold_hooks:
  "ps_log (fold (run_hook B) hs p) = ps_log p @ map Closed (concat (map hk_closes hs))"
  "ps_hooks (fold (run_hook B) hs p) = ps_hooks p"
  "ps_checker (fold (run_hook B) hs p) = ps_checker p" "ps_signer (fold (run_hook B) hs p) = ps_signer p"
  by (induction hs arbitrary: p) (simp_all add: run_hook_def Let_def split: option.splits)

lemma Manager_Run_log:
  "ps_log (snd (Manager_Run B p)) = ps_log p @ map Closed (concat (map hk_closes (rev (ps_hooks p))))"
  "ps_hooks (snd (Manager_Run B p)) = ps_hooks p"
  "ps_checker (snd (Manager_Run B p)) = ps_checker p" "ps_signer (snd (Manager_Run B p)) = ps_signer p"
  "fst (Manager_Run B p) = Inr ()"
  by (simp_all add: Manager_Run_def fold_hooks)

lemma count_concat_rev: "count_list (concat (rev xs)) r = count_list (concat xs) r"
  by (induction xs) simp_all

lemma Run_closes_all: "bal [] p \<Longrightarrow> all_closed (snd (Manager_Run B p))"
  by (simp add: bal_def all_closed_def Manager_Run_log rev_map [symmetric] count_concat_rev)

named_theorems boot \<open>triples of the boot's steps\<close>

abbreviation step_ok :: "resource list \<Rightarrow> 'a boot_act \<Rightarrow> ('a \<Rightarrow> resource list) \<Rightarrow> bool" where
  "step_ok rs m rs' \<equiv> hoare (bal rs) m (\<lambda>x. bal (rs' x)) (\<lambda>e. bal [])"

lemma opens_bal [boot]: "hoare (bal rs) (opens r) (\<lambda>_. bal (r # rs)) R"
  by (simp add: hoare_def opens_def bal_def)

lemma closes_bal: "bal (cs @ rs) p \<Longrightarrow> bal rs (p\<lparr>ps_log := ps_log p @ map Closed cs\<rparr>)"
  by (simp add: bal_def)

lemma register_bal [boot]: "hoare (bal rs) (Manager_Register n rs) (\<lambda>_. bal []) R"
  by (simp add: hoare_def Manager_Register_def bal_def)

lemma Run_bal [boot]: "hoare (bal []) (Manager_Run B) (\<lambda>_. all_closed) R"
proof (rule hoareI)
  fix p x p' assume "bal [] p" and "Manager_Run B p = (Inr x, p')"
  with Run_closes_all [of p B] show "all_closed p'" by simp
next
  fix p e p' assume "Manager_Run B p = (Inl e, p')"
  with Manager_Run_log(5) [of B p] show "R e p'" by simp
qed

lemma checked_keeps [boot]: "hoare P (checked c e) (\<lambda>_. P) (\<lambda>_. P)"
  by (auto simp: hoare_def checked_def split: option.splits)

lemma liftE_keeps [boot]: "hoare P (liftE r) (\<lambda>_. P) (\<lambda>_. P)"
  by (auto simp: hoare_def split: sum.splits)

lemma ret_keeps [boot]: "hoare P (ret x) (\<lambda>_. P) (\<lambda>_. P)"
  by (simp add: hoare_def)

lemma modify_keeps: "(\<And>p. P p \<Longrightarrow> P (f p)) \<Longrightarrow> hoare P (modify f) (\<lambda>_. P) (\<lambda>_. P)"
  by (simp add: hoare_def)

text \<open>Steps that neither open, close nor register.\<close>

definition quiet :: "(process, 'e, 'a) act \<Rightarrow> bool" where
  "quiet m \<longleftrightarrow> (\<forall>p. ps_hooks (snd (m p)) = ps_hooks p \<and> ps_log (snd (m p)) = ps_log p)"

named_theorems quiet \<open>the steps that keep the log and the hooks\<close>

lemma quiet_basic [quiet]:
  "quiet (ret x)" "quiet (fail e)" "quiet (liftE r)" "quiet (Pair r)" "quiet (checked c err)"
  by (simp_all add: quiet_def checked_def split: option.split)

lemma quiet_andThen [quiet]: "quiet m \<Longrightarrow> (\<And>x. quiet (g x)) \<Longrightarrow> quiet (andThen m g)"
  unfolding quiet_def andThen_def by (simp split: prod.splits sum.splits) (metis snd_conv)

lemma quiet_attempt [quiet]: "quiet m \<Longrightarrow> quiet (attempt m)"
  by (auto simp: quiet_def attempt_def split: prod.splits) (metis snd_conv)+

lemma quiet_modify: "(\<And>p. ps_hooks (g p) = ps_hooks p \<and> ps_log (g p) = ps_log p) \<Longrightarrow> quiet (modify g)"
  by (simp add: quiet_def)

lemma quiet_bal: "quiet m \<Longrightarrow> hoare (bal rs) m (\<lambda>_. bal rs) (\<lambda>_. bal rs)"
  unfolding quiet_def by (intro hoareI) (simp_all add: bal_def, (metis snd_conv)+)

lemma EnsureStream_quiet [quiet]: "quiet (EnsureStream B n name subjects)"
  unfolding EnsureStream_def Let_def by (intro quiet quiet_modify) simp

lemma orDrain_bal [boot]: "step_ok [] m rs' \<Longrightarrow> hoare (bal []) (orDrain B m) (\<lambda>x. bal (rs' x)) (\<lambda>_. all_closed)"
proof (rule hoareI)
  fix p x p' assume m: "step_ok [] m rs'" and b: "bal [] p" and "orDrain B m p = (Inr x, p')"
  then have "m p = (Inr x, p')" by (auto simp: orDrain_def split: prod.splits sum.splits)
  with hoare_Inr [OF m b] show "bal (rs' x) p'" .
next
  fix p e p' assume m: "step_ok [] m rs'" and b: "bal [] p" and "orDrain B m p = (Inl e, p')"
  then obtain q where "m p = (Inl e, q)" "p' = snd (Manager_Run B q)" by (auto simp: orDrain_def split: prod.splits sum.splits)
  with Run_closes_all hoare_Inl [OF m b] show "all_closed p'" by simp
qed

lemma newPool_ok: "hoare (bal rs) (newPool B url cfg) (\<lambda>_. bal (Pool url # rs)) (\<lambda>_. bal rs)"
  by (auto simp: hoare_def newPool_def opens_def closes_def andThen_def bal_def split: dial_outcome.splits)

lemma connect_reads_ok:
  "hoare (bal (map Pool (pg_WriteURL cfg # opened))) (connect_reads B cfg i opened urls)
     (\<lambda>rs. bal (Pools_Close (pg_WriteURL cfg) rs)) (\<lambda>_. bal [])"
proof (induction urls arbitrary: i opened)
  case (Cons url urls)
  let ?P = "bal (map Pool (pg_WriteURL cfg # opened))"
  show ?case
  proof (rule hoareI)
    fix p x p'
    assume b: "?P p" and run: "connect_reads B cfg i opened (url # urls) p = (Inr x, p')"
    from run obtain p1 where p1: "newPool B url cfg p = (Inr (), p1)" "connect_reads B cfg (Suc i) (opened @ [url]) urls p1 = (Inr x, p')"
      by (auto simp: andThen_def closes_def split: prod.splits sum.splits)
    have "bal (map Pool (pg_WriteURL cfg # opened @ [url])) p1" using hoare_Inr [OF newPool_ok b p1(1)] by (simp add: bal_def)
    from hoare_Inr [OF Cons.IH this p1(2)] show "bal (Pools_Close (pg_WriteURL cfg) x) p'" .
  next
    fix p e p'
    assume b: "?P p" and run: "connect_reads B cfg i opened (url # urls) p = (Inl e, p')"
    obtain q p1 where p1: "newPool B url cfg p = (q, p1)" by fastforce
    show "bal [] p'"
    proof (cases q)
      case (Inl err)
      have "?P p1" using hoare_Inl [OF newPool_ok b] p1 Inl by blast
      then have "bal [] (p1\<lparr>ps_log := ps_log p1 @ map Closed (map Pool (pg_WriteURL cfg # opened))\<rparr>)" by (intro closes_bal) simp
      with run p1 Inl show ?thesis by (auto simp: andThen_def closes_def)
    next
      case (Inr u)
      have "bal (map Pool (pg_WriteURL cfg # opened @ [url])) p1" using hoare_Inr [OF newPool_ok b] p1 Inr by (simp add: bal_def)
      from hoare_Inl [OF Cons.IH this] run p1 Inr show ?thesis by auto
    qed
  qed
qed (simp add: hoare_def Pools_Close_def)

lemma pg_withDefaults_URLs [simp]:
  "pg_WriteURL (pg_withDefaults n c) = pg_WriteURL c" "pg_ReadURLs (pg_withDefaults n c) = pg_ReadURLs c"
  by (simp_all add: pg_withDefaults_def Let_def)

lemma postgres_ok [boot]: "step_ok [] (postgres_Connect B cfg) (\<lambda>x. Pools_Close (pg_WriteURL cfg) x)"
proof (rule hoareI)
  let ?cfg = "pg_withDefaults (bo_cpus B) cfg"
  fix p x p'
  assume b: "bal [] p" and run: "postgres_Connect B cfg p = (Inr x, p')"
  from run obtain p1 where p1: "newPool B (pg_WriteURL ?cfg) ?cfg p = (Inr (), p1)" "connect_reads B ?cfg 0 [] (pg_ReadURLs cfg) p1 = (Inr x, p')"
    by (auto simp: postgres_Connect_def Let_def split: prod.splits sum.splits)
  have "bal (map Pool (pg_WriteURL ?cfg # [])) p1" using hoare_Inr [OF newPool_ok b p1(1)] by simp
  from hoare_Inr [OF connect_reads_ok this p1(2)] show "bal (Pools_Close (pg_WriteURL cfg) x) p'" by simp
next
  let ?cfg = "pg_withDefaults (bo_cpus B) cfg"
  fix p e p'
  assume b: "bal [] p" and run: "postgres_Connect B cfg p = (Inl e, p')"
  obtain q p1 where p1: "newPool B (pg_WriteURL ?cfg) ?cfg p = (q, p1)" by fastforce
  show "bal [] p'"
  proof (cases q)
    case (Inl err)
    with run p1 hoare_Inl [OF newPool_ok b] show ?thesis by (auto simp: postgres_Connect_def Let_def)
  next
    case (Inr u)
    have "bal (map Pool (pg_WriteURL ?cfg # [])) p1" using hoare_Inr [OF newPool_ok b] p1 Inr by simp
    from hoare_Inl [OF connect_reads_ok this] run p1 Inr show ?thesis by (auto simp: postgres_Connect_def Let_def)
  qed
qed

lemma close_now_ok: "step_ok [] (andThen (opens r) (\<lambda>_. andThen (closes [r]) (\<lambda>_. fail e))) rs'"
  by (simp add: hoare_def opens_def closes_def andThen_def bal_def)

lemma opened_ok: "step_ok [] (andThen (opens r) (\<lambda>_. ret x)) (\<lambda>_. [r])"
  by (simp add: hoare_def opens_def andThen_def bal_def)

lemma fail_keeps: "hoare P (fail e) Q (\<lambda>_. P)"
  by (simp add: hoare_def)

text \<open>
  What is left open when a process has returned \<open>r\<close>: nothing, except that \<open>Init\<close> does not close the
  trace exporter when the metric exporter cannot be created.
\<close>

definition released :: "string option \<Rightarrow> process \<Rightarrow> bool" where
  "released r p \<longleftrightarrow> (\<forall>x. count_list (ps_log p) (Opened x) = count_list (ps_log p) (Closed x) \<or>
     x = TraceExporter \<and> (\<exists>err. r = Some (''telemetry: metric exporter: '' @ err)))"

lemma released_all: "all_closed p \<Longrightarrow> released r p"
  by (simp add: all_closed_def released_def)

definition pristine :: "process \<Rightarrow> bool" where
  "pristine p \<longleftrightarrow> bal [] p \<and> ps_hooks p = []"

lemma pristine_released: "pristine p \<Longrightarrow> released r p"
  by (simp add: pristine_def bal_def released_def)

lemma telemetry_ok: "hoare pristine (telemetry_Init B cfg) (\<lambda>x. bal x) (\<lambda>e. released (Some e))"
proof (rule hoareI)
  fix p x p' assume "pristine p" and "telemetry_Init B cfg p = (Inr x, p')"
  then show "bal x p'"
    by (auto simp: telemetry_Init_def buildResource_def checked_def opens_def andThen_def pristine_def bal_def
        split: if_splits option.splits)
next
  fix p e p' assume "pristine p" and "telemetry_Init B cfg p = (Inl e, p')"
  then show "released (Some e) p'"
    by (auto simp: telemetry_Init_def buildResource_def checked_def opens_def andThen_def pristine_def bal_def released_def
        split: if_splits option.splits)
qed

lemma redis_ok [boot]: "step_ok [] (redis_Connect B cfg) (\<lambda>_. [RedisClient])"
  unfolding redis_Connect_def by (simp add: close_now_ok opens_bal fail_keeps split: dial_outcome.split)

lemma nats_ok [boot]: "step_ok [] (nats_Connect B url name n) (\<lambda>_. [NatsConnection])"
  unfolding nats_Connect_def by (simp add: close_now_ok opened_ok fail_keeps split: nats_outcome.split)

end
