(* ===== verification/Bootstrap.thy ===== *)
theory Bootstrap
  imports Connections EdgeChain Outbox Ledger Jobs
begin

text \<open>
  The composition roots (\<^verbatim>\<open>bootstrap\<close> of core and gateway, their \<^verbatim>\<open>main\<close> functions) and what they
  build: the signer and the verifier (\<open>NewSigner\<close>, \<open>NewVerifier\<close>), the modules, the gateway's
  connections (\<open>NewProxy\<close>) and its public server. A boot runs from an empty process to its return.
\<close>

section \<open>Keys\<close>

record jwt_config =
  jc_PrivateKeyPEM :: string
  jc_PublicKeyPEM :: string
  jc_Issuer :: string
  jc_AccessTokenTTL :: int

definition NewSigner :: "boot_env \<Rightarrow> jwt_config \<Rightarrow> string + signer" where
  "NewSigner B cfg =
     (case bo_parse_private B (jc_PrivateKeyPEM cfg) of
        Inl err \<Rightarrow> Inl (''jwt: parse private key: '' @ err)
      | Inr key \<Rightarrow> Inr \<lparr>sg_privateKey = key, sg_issuer = jc_Issuer cfg, sg_accessTokenTTL = jc_AccessTokenTTL cfg\<rparr>)"

definition NewVerifier :: "boot_env \<Rightarrow> jwt_config \<Rightarrow> string + (string \<times> string)" where
  "NewVerifier B cfg =
     (case bo_parse_public B (jc_PublicKeyPEM cfg) of
        Inl err \<Rightarrow> Inl (''jwt: parse public key: '' @ err)
      | Inr key \<Rightarrow> Inr (key, jc_Issuer cfg))"

text \<open>\<open>bo_keygen\<close>: the PEM text of a new key, or the error of its generation.\<close>

definition buildSigner :: "boot_env \<Rightarrow> core_cfg \<Rightarrow> signer boot_act" where
  "buildSigner B cfg =
     andThen (if cf_PrivateKeyPEM cfg = [] then
                if core_IsProduction cfg then fail ''bootstrap: JWT_PRIVATE_KEY_PEM required in production''
                else andThen (liftE (bo_keygen B)) (\<lambda>generated.
                     andThen (modify (\<lambda>p. p\<lparr>ps_warnings := ps_warnings p @ [''JWT_PRIVATE_KEY_PEM not set'']\<rparr>)) (\<lambda>_. ret generated))
              else ret (cf_PrivateKeyPEM cfg)) (\<lambda>keyPEM.
       liftE (NewSigner B \<lparr>jc_PrivateKeyPEM = keyPEM, jc_PublicKeyPEM = [], jc_Issuer = cf_Issuer cfg,
                           jc_AccessTokenTTL = cf_AccessTokenTTL cfg\<rparr>))"

section \<open>Modules\<close>

definition coreStream :: string where "coreStream = ''CORE_EVENTS''"

definition coreStreamSubjects :: "string list" where
  "coreStreamSubjects = [''example.>'', ''identity.>'']"

definition NewChecker :: "boot_env \<Rightarrow> string + checker" where
  "NewChecker B = (case bo_cel_env B of Some err \<Rightarrow> Inl (''authz: build cel env: '' @ err)
     | None \<Rightarrow> Inr \<lparr>ck_policies = [], ck_loadedAt = 0, ck_refreshing = False\<rparr>)"

text \<open>The modules' state of their own is the signer and the checker, which the process keeps.\<close>

definition buildModules :: "boot_env \<Rightarrow> core_cfg \<Rightarrow> unit boot_act" where
  "buildModules B cfg =
     andThen (buildSigner B cfg) (\<lambda>signer.
     andThen (liftE (NewChecker B)) (\<lambda>checker.
       modify (\<lambda>p. p\<lparr>ps_signer := Some signer, ps_checker := checker\<rparr>)))"

definition RegisterAll :: "unit boot_act" where
  "RegisterAll = modify (\<lambda>p. p\<lparr>ps_services := ps_services p @
     [''example.v1.ExampleService'', ''identity.v1.IdentityService'', ''authz.v1.AuthzService'', ''audit.v1.AuditService'']\<rparr>)"

definition Modules_Runners :: "string list" where
  "Modules_Runners = [''example relay'', ''identity relay'', ''audit consumer'']"

text \<open>\<open>Module.Start\<close> of authz: one refresh, on what the database answers at that time.\<close>

definition authz_Start :: "boot_env \<Rightarrow> (process, gerr, unit) act" where
  "authz_Start B p =
     (case Checker_Refresh (bo_cel B) (bo_sql B) (bo_world B, ps_checker p) of
        (r, w, ck) \<Rightarrow> (r, p\<lparr>ps_checker := ck\<rparr>))"

definition load_policies :: "boot_env \<Rightarrow> unit boot_act" where
  "load_policies B =
     andThen (attempt (authz_Start B)) (\<lambda>r.
       case r of Inl err \<Rightarrow> modify (\<lambda>p. p\<lparr>ps_warnings := ps_warnings p @ [''authz: initial policy load failed'']\<rparr>)
       | Inr _ \<Rightarrow> ret ())"

section \<open>The core's processes\<close>

definition core_config :: "boot_env \<Rightarrow> string + core_cfg" where
  "core_config B = fst (core_Load (bo_lib B) (bo_files B) (bo_environ B))"

definition core_pools :: "core_cfg \<Rightarrow> pg_config" where
  "core_pools cfg =
     \<lparr>pg_WriteURL = cf_WriteURL cfg, pg_ReadURLs = cf_ReadURLs cfg, pg_MaxConns = cf_MaxConns cfg,
      pg_MinConns = cf_MinConns cfg, pg_MaxConnLifetime = cf_MaxConnLifetime cfg,
      pg_MaxConnIdleTime = cf_MaxConnIdleTime cfg\<rparr>"

text \<open>Gives the configuration and the replicas of the bus connection.\<close>

definition boot_setup :: "boot_env \<Rightarrow> string \<Rightarrow> (core_cfg \<times> int) boot_act" where
  "boot_setup B processSuffix =
     andThen (liftE (core_config B)) (\<lambda>cfg.
     andThen (telemetry_Init B (cf_Telemetry cfg)) (\<lambda>providers.
     andThen (Manager_Register ''telemetry'' providers) (\<lambda>_.
     andThen (orDrain B (postgres_Connect B (core_pools cfg))) (\<lambda>reads.
     andThen (Manager_Register ''postgres'' (Pools_Close (cf_WriteURL cfg) reads)) (\<lambda>_.
     andThen (orDrain B (redis_Connect B (cf_Redis cfg))) (\<lambda>_.
     andThen (Manager_Register ''redis'' [RedisClient]) (\<lambda>_.
     andThen (orDrain B (nats_Connect B (cf_NATSURL cfg) (cf_Name cfg @ processSuffix) (cf_StreamReplicas cfg))) (\<lambda>replicas.
     andThen (Manager_Register ''nats'' [NatsConnection]) (\<lambda>_. ret (cfg, replicas))))))))))"

text \<open>A duration in microseconds, never rounded to the zero that stands for a default.\<close>

definition micros :: "int \<Rightarrow> int" where
  "micros t = (if 0 < t \<and> t < 1000 then 1 else t div 1000)"

definition server_config :: "core_cfg \<Rightarrow> rpc_config" where
  "server_config cfg =
     \<lparr>sc_Port = cf_GRPCPort cfg, sc_MaxRecvMessageBytes = cf_MaxRecvMessageBytes cfg,
      sc_MaxConcurrentStreams = cf_MaxConcurrentStreams cfg, sc_HandlerTimeout = micros (cf_HandlerTimeout cfg),
      sc_TLSCertFile = cf_TLSCertFile cfg, sc_TLSKeyFile = cf_TLSKeyFile cfg, sc_TLSClientCAFile = cf_TLSClientCAFile cfg,
      sc_Reflection = \<not> core_IsProduction cfg\<rparr>"

text \<open>Of \<open>grpcserver.New\<close> only the failing part, the transport credentials, matters to the boot.\<close>

definition new_server :: "boot_env \<Rightarrow> core_cfg \<Rightarrow> unit boot_act" where
  "new_server B cfg = andThen (liftE (loadTransportCredentials (bo_tls B) (withDefaults (server_config cfg)))) (\<lambda>_. ret ())"

definition runUntilSignal :: "boot_env \<Rightarrow> unit boot_act" where
  "runUntilSignal B =
     (case bo_end B of
        Interrupted \<Rightarrow> Manager_Run B
      | ComponentEnded err \<Rightarrow> andThen (Manager_Run B) (\<lambda>_. checked [] err))"

text \<open>The two servers exist from here on; they listen when \<open>runUntilSignal\<close> starts them.\<close>

definition RunServer :: "boot_env \<Rightarrow> unit boot_act" where
  "RunServer B =
     andThen (boot_setup B []) (\<lambda>(cfg, replicas).
     andThen (orDrain B (new_server B cfg)) (\<lambda>_.
     andThen (orDrain B (buildModules B cfg)) (\<lambda>_.
     andThen RegisterAll (\<lambda>_.
     andThen (load_policies B) (\<lambda>_.
     andThen (opens OpsServer) (\<lambda>_.
     andThen (Manager_Register ''ops-server'' [OpsServer]) (\<lambda>_.
     andThen (opens GrpcServer) (\<lambda>_.
     andThen (Manager_Register ''grpc-server'' [GrpcServer]) (\<lambda>_.
       runUntilSignal B)))))))))"

definition RunWorker :: "boot_env \<Rightarrow> unit boot_act" where
  "RunWorker B =
     andThen (boot_setup B ''-worker'') (\<lambda>(cfg, replicas).
     andThen (orDrain B (EnsureStream B replicas coreStream coreStreamSubjects)) (\<lambda>_.
     andThen (orDrain B (buildModules B cfg)) (\<lambda>_.
     andThen (modify (\<lambda>p. p\<lparr>ps_runners := Modules_Runners @ [''jobs'']\<rparr>)) (\<lambda>_.
     andThen (opens OpsServer) (\<lambda>_.
     andThen (Manager_Register ''ops-server'' [OpsServer]) (\<lambda>_.
       case bo_end B of
         Interrupted \<Rightarrow> Manager_Run B
       | ComponentEnded (Some err) \<Rightarrow> andThen (Manager_Run B) (\<lambda>_. fail err)
       | ComponentEnded None \<Rightarrow> Manager_Run B))))))"

section \<open>The gateway's process\<close>

record client_tls =
  ct_Certificate :: string
  ct_RootCAs :: string
  ct_MinVersion13 :: bool

definition buildTransportCredentials :: "tls_files \<Rightarrow> internal_tls \<Rightarrow> string + client_tls option" where
  "buildTransportCredentials F t =
     (if \<not> tls_Enabled t then Inr None
      else case tf_pair F (it_CertFile t) (it_KeyFile t) of
        Inl err \<Rightarrow> Inl (''edge: load internal tls client keypair: '' @ err)
      | Inr keyPair \<Rightarrow>
          (case tf_read F (it_CAFile t) of
             Inl err \<Rightarrow> Inl (''edge: read internal tls ca: '' @ err)
           | Inr pem \<Rightarrow>
               if \<not> tf_certs F pem then Inl ''edge: internal tls ca file contained no valid certificates''
               else Inr (Some \<lparr>ct_Certificate = keyPair, ct_RootCAs = pem, ct_MinVersion13 = True\<rparr>)))"

text \<open>The loop of \<open>NewProxy\<close> over the backends, with the connections it has opened.\<close>

fun dial_backends :: "boot_env \<Rightarrow> string list \<Rightarrow> (string \<times> string) list \<Rightarrow> string list boot_act" where
  "dial_backends B opened [] = ret opened"
| "dial_backends B opened ((name, addr) # rest) =
     (case bo_dial B addr of
        Some err \<Rightarrow> andThen (closes (map UpstreamConn opened)) (\<lambda>_. fail (''edge: dial '' @ name @ '': '' @ err))
      | None \<Rightarrow> andThen (opens (UpstreamConn name)) (\<lambda>_. dial_backends B (opened @ [name]) rest))"

definition NewProxy :: "boot_env \<Rightarrow> gateway_cfg \<Rightarrow> string list boot_act" where
  "NewProxy B cfg =
     andThen (liftE (buildTransportCredentials (bo_tls B) (gw_TLS cfg))) (\<lambda>creds.
       dial_backends B [] [(''core'', gw_Core cfg)])"

definition Proxy_Close :: "string list \<Rightarrow> resource list" where
  "Proxy_Close connections = map UpstreamConn connections"

definition NewServer :: "gateway_cfg \<Rightarrow> http_server" where
  "NewServer cfg =
     \<lparr>hs_Addr = '':'' @ int_dec (gw_HTTPPort cfg), hs_ReadTimeout = gw_ReadTimeout cfg,
      hs_ReadHeaderTimeout = gw_ReadHeaderTimeout cfg, hs_WriteTimeout = gw_WriteTimeout cfg,
      hs_IdleTimeout = gw_IdleTimeout cfg, hs_MaxHeaderBytes = gw_MaxHeaderBytes cfg,
      hs_tlsCertFile = gw_TLSCertFile cfg, hs_tlsKeyFile = gw_TLSKeyFile cfg\<rparr>"

text \<open>\<open>Start\<close> serves TLS with this certificate and key, or plain HTTP.\<close>

definition Server_Start :: "http_server \<Rightarrow> (string \<times> string) option" where
  "Server_Start s = (if hs_tlsCertFile s \<noteq> [] \<and> hs_tlsKeyFile s \<noteq> [] then Some (hs_tlsCertFile s, hs_tlsKeyFile s) else None)"

definition gateway_config_of :: "boot_env \<Rightarrow> string + gateway_cfg" where
  "gateway_config_of B = fst (gateway_Load (bo_lib B) (bo_files B) (bo_environ B))"

text \<open>The verifier of a process with a key; without one every request passes unauthenticated.\<close>

definition gateway_verifier :: "boot_env \<Rightarrow> gateway_cfg \<Rightarrow> (string \<times> string) option boot_act" where
  "gateway_verifier B cfg =
     (if gw_PublicKeyPEM cfg \<noteq> [] then
        andThen (liftE (NewVerifier B \<lparr>jc_PrivateKeyPEM = [], jc_PublicKeyPEM = gw_PublicKeyPEM cfg,
                                       jc_Issuer = gw_Issuer cfg, jc_AccessTokenTTL = 0\<rparr>)) (\<lambda>v. ret (Some v))
      else andThen (modify (\<lambda>p. p\<lparr>ps_warnings := ps_warnings p @ [''JWT_PUBLIC_KEY_PEM not set'']\<rparr>)) (\<lambda>_. ret None))"

definition gateway_Run :: "boot_env \<Rightarrow> unit boot_act" where
  "gateway_Run B =
     andThen (liftE (gateway_config_of B)) (\<lambda>cfg.
     andThen (telemetry_Init B (gw_Telemetry cfg)) (\<lambda>providers.
     andThen (Manager_Register ''telemetry'' providers) (\<lambda>_.
     andThen (orDrain B (redis_Connect B (gw_Redis cfg))) (\<lambda>_.
     andThen (Manager_Register ''redis'' [RedisClient]) (\<lambda>_.
     andThen (orDrain B (gateway_verifier B cfg)) (\<lambda>verifier.
     andThen (opens BlacklistSubscription) (\<lambda>_.
     andThen (Manager_Register ''blacklist-subscription'' [BlacklistSubscription]) (\<lambda>_.
     andThen (orDrain B (NewProxy B cfg)) (\<lambda>connections.
     andThen (Manager_Register ''proxy-connections'' (Proxy_Close connections)) (\<lambda>_.
     andThen (modify (\<lambda>p. p\<lparr>ps_verifier := verifier, ps_public := Some (NewServer cfg)\<rparr>)) (\<lambda>_.
     andThen (opens PublicServer) (\<lambda>_.
     andThen (Manager_Register ''public-server'' [PublicServer]) (\<lambda>_.
     andThen (opens OpsServer) (\<lambda>_.
     andThen (Manager_Register ''ops-server'' [OpsServer]) (\<lambda>_.
       case bo_end B of
         Interrupted \<Rightarrow> Manager_Run B
       | ComponentEnded err \<Rightarrow> andThen (Manager_Run B) (\<lambda>_. checked ''gateway: '' err))))))))))))))))"

section \<open>Main\<close>

text \<open>Exit code and what is written on the standard error.\<close>

definition report :: "string \<Rightarrow> string + unit \<Rightarrow> nat \<times> string" where
  "report name r = (case r of Inl err \<Rightarrow> (1, name @ '': '' @ err) | Inr _ \<Rightarrow> (0, []))"

definition server_main :: "boot_env \<Rightarrow> nat \<times> string" where
  "server_main B = report ''core server'' (fst (RunServer B new_process))"

definition worker_main :: "boot_env \<Rightarrow> nat \<times> string" where
  "worker_main B = report ''core worker'' (fst (RunWorker B new_process))"

definition gateway_main :: "boot_env \<Rightarrow> nat \<times> string" where
  "gateway_main B = report ''gateway'' (fst (gateway_Run B new_process))"

end
