(* ===== verification/BootstrapFacts.thy ===== *)
theory BootstrapFacts
  imports Bootstrap ConfigFacts AuthzFacts
begin

text \<open>
  What holds of every boot: nothing is left open whatever fails and however it ends, servers stop
  before what they use, production runs on the configured keys only, the policy engine starts
  from what the database holds or from nothing, and what the relays publish is kept by the stream.
\<close>

section \<open>Nothing is leaked\<close>

lemma NewProxy_ok [boot]: "step_ok [] (NewProxy B cfg) Proxy_Close"
  unfolding NewProxy_def
  by (intro hoare_andThen [OF liftE_keeps])
    (auto simp: hoare_def opens_def closes_def andThen_def bal_def Proxy_Close_def split: option.splits)

lemma quiet_steps [quiet]:
  "quiet (gateway_verifier B cfg)" "quiet (buildModules B core)" "quiet (new_server B core)"
  "quiet RegisterAll" "quiet (load_policies B)"
proof -
  show "quiet (gateway_verifier B cfg)"
    by (auto simp: gateway_verifier_def intro!: quiet quiet_modify)
  show "quiet (buildModules B core)"
    by (auto simp: buildModules_def buildSigner_def intro!: quiet quiet_modify)
  show "quiet (new_server B core)" unfolding new_server_def by (intro quiet)
  show "quiet RegisterAll" unfolding RegisterAll_def by (rule quiet_modify) simp
  have "quiet (authz_Start B)" by (auto simp: quiet_def authz_Start_def split: prod.splits)
  then show "quiet (load_policies B)"
    unfolding load_policies_def by (intro quiet_andThen quiet_attempt) (auto intro!: quiet quiet_modify split: sum.splits)
qed

lemma hoare_errors: "hoare P m Q R \<Longrightarrow> (\<And>e s. R e s \<Longrightarrow> R' e s) \<Longrightarrow> hoare P m Q R'"
  by (auto simp: hoare_def split: sum.splits prod.splits)

lemma drained [boot]:
  "step_ok [] m rs' \<Longrightarrow> hoare (bal []) (orDrain B m) (\<lambda>x. bal (rs' x)) (\<lambda>e. released (Some e))"
  by (erule hoare_errors [OF orDrain_bal]) (rule released_all)

lemma drained_quiet [boot]: "quiet m \<Longrightarrow> hoare (bal []) (orDrain B m) (\<lambda>_. bal []) (\<lambda>e. released (Some e))"
  by (rule drained) (rule quiet_bal)

lemma postgres_core: "step_ok [] (postgres_Connect B (core_pools cfg)) (Pools_Close (cf_WriteURL cfg))"
  using postgres_ok [of B "core_pools cfg"] by (simp add: core_pools_def)

lemma pristine_liftE: "hoare pristine (liftE r) (\<lambda>_. pristine) (\<lambda>e. released (Some e))"
  by (rule hoare_errors [OF liftE_keeps]) (rule pristine_released)

lemma boot_setup_ok: "hoare pristine (boot_setup B suffix) (\<lambda>_. bal []) (\<lambda>e. released (Some e))"
  unfolding boot_setup_def
  by (intro hoare_andThen [OF pristine_liftE] hoare_andThen [OF telemetry_ok] hoare_andThen [OF register_bal]
      hoare_andThen [OF drained [OF postgres_core]] hoare_andThen [OF drained [OF redis_ok]]
      hoare_andThen [OF drained [OF nats_ok]])
    (simp add: hoare_def)

abbreviation closing :: "(process, string, unit) act \<Rightarrow> bool" where
  "closing m \<equiv> hoare (bal []) m (\<lambda>_. released None) (\<lambda>e. released (Some e))"

lemma last_steps [boot]:
  "closing (Manager_Run B)"
  "closing (andThen (Manager_Run B) (\<lambda>_. checked c err))"
  "closing (andThen (Manager_Run B) (\<lambda>_. fail e))"
  "closing (runUntilSignal B)"
proof -
  show run: "closing (Manager_Run B)"
    by (rule hoareI) (auto simp: Manager_Run_def dest: hoare_Inr [OF Run_bal [unfolded Manager_Run_def]] intro: released_all)
  have all: "hoare all_closed (checked c err) (\<lambda>_. released None) (\<lambda>e. released (Some e))" for c err
    by (auto simp: hoare_def checked_def intro: released_all split: option.splits)
  then show c: "closing (andThen (Manager_Run B) (\<lambda>_. checked c err))" for c err
    by (intro hoare_andThen [OF Run_bal])
  show "closing (andThen (Manager_Run B) (\<lambda>_. fail e))"
    by (rule hoare_andThen [OF Run_bal]) (simp add: hoare_def released_all)
  show "closing (runUntilSignal B)"
    unfolding runUntilSignal_def by (cases "bo_end B") (simp_all add: run c)
qed

lemma quiet_then: "quiet m \<Longrightarrow> (\<And>p. fst (m p) \<in> range Inr) \<Longrightarrow> hoare (bal rs) m (\<lambda>_. bal rs) R"
proof (rule hoareI)
  fix p x p' assume "quiet m" and "bal rs p" and "m p = (Inr x, p')"
  then show "bal rs p'" by (rule hoare_Inr [OF quiet_bal])
next
  fix p e p' assume r: "\<And>p. fst (m p) \<in> range Inr" and "m p = (Inl e, p')"
  with r [of p] show "R e p'" by auto
qed

lemma never_fails: "fst (RegisterAll p) \<in> range Inr" "fst (load_policies B p) \<in> range Inr" "fst (modify f p) \<in> range Inr"
proof -
  obtain r p' where a: "authz_Start B p = (r, p')" by fastforce
  then show "fst (load_policies B p) \<in> range Inr"
    by (cases r) (simp_all add: load_policies_def andThen_def attempt_def)
qed (simp_all add: RegisterAll_def)

lemmas run_steps =
  hoare_andThen [OF drained_quiet] hoare_andThen [OF quiet_then [OF _ never_fails(1)]]
  hoare_andThen [OF quiet_then [OF _ never_fails(2)]] hoare_andThen [OF quiet_then [OF quiet_modify never_fails(3)]]
  hoare_andThen [OF opens_bal] hoare_andThen [OF register_bal]

lemma server_closing: "hoare pristine (RunServer B) (\<lambda>_. released None) (\<lambda>e. released (Some e))"
  unfolding RunServer_def
  by (rule hoare_andThen [OF boot_setup_ok]) (auto intro!: run_steps last_steps quiet)

lemma worker_closing: "hoare pristine (RunWorker B) (\<lambda>_. released None) (\<lambda>e. released (Some e))"
  unfolding RunWorker_def
  by (rule hoare_andThen [OF boot_setup_ok])
    (auto intro!: run_steps last_steps quiet split: process_end.splits option.splits)

lemma gateway_closing: "hoare pristine (gateway_Run B) (\<lambda>_. released None) (\<lambda>e. released (Some e))"
  unfolding gateway_Run_def
  by (intro hoare_andThen [OF pristine_liftE] hoare_andThen [OF telemetry_ok] hoare_andThen [OF register_bal]
      hoare_andThen [OF drained [OF redis_ok]])
    (auto intro!: run_steps last_steps quiet hoare_andThen [OF drained [OF NewProxy_ok]] split: process_end.splits)

section \<open>The order of a shutdown\<close>

definition closings :: "event list \<Rightarrow> resource list" where
  "closings lg = concat (map (\<lambda>e. case e of Closed r \<Rightarrow> [r] | Opened r \<Rightarrow> []) lg)"

lemma closings_simps [simp]:
  "closings [] = []" "closings (xs @ ys) = closings xs @ closings ys" "closings [Opened r] = []"
  "closings (map Closed rs) = rs" "Opened r \<notin> set (map Closed rs)"
proof -
  show "closings (map Closed rs) = rs" by (induction rs) (simp_all add: closings_def)
qed (auto simp: closings_def)

text \<open>Steps that open resources other than the server \<open>r0\<close>, register nothing, and close only to fail.\<close>

definition dialing :: "resource \<Rightarrow> (process, string, 'a) act \<Rightarrow> bool" where
  "dialing r0 m \<longleftrightarrow> (\<forall>p. ps_hooks (snd (m p)) = ps_hooks p \<and>
     (\<exists>evs. ps_log (snd (m p)) = ps_log p @ evs \<and> Opened r0 \<notin> set evs \<and> (isl (fst (m p)) \<or> closings evs = [])))"

lemma dialingI:
  assumes "\<And>p r p'. m p = (r, p') \<Longrightarrow> ps_hooks p' = ps_hooks p \<and>
     (\<exists>evs. ps_log p' = ps_log p @ evs \<and> Opened r0 \<notin> set evs \<and> (isl r \<or> closings evs = []))"
  shows "dialing r0 m"
  unfolding dialing_def using assms by (metis prod.collapse)

lemma dialingD:
  "dialing r0 m \<Longrightarrow> m p = (r, p') \<Longrightarrow> ps_hooks p' = ps_hooks p \<and>
     (\<exists>evs. ps_log p' = ps_log p @ evs \<and> Opened r0 \<notin> set evs \<and> (isl r \<or> closings evs = []))"
  unfolding dialing_def by (metis fst_conv snd_conv)

named_theorems dialing \<open>the steps of the connections\<close>

lemma dialing_quiet: "quiet m \<Longrightarrow> dialing r0 m"
  by (auto simp: dialing_def quiet_def)

lemma dialing_opens [dialing]: "r \<noteq> r0 \<Longrightarrow> dialing r0 (opens r)"
  by (auto simp: dialing_def opens_def)

lemma dialing_close_fail [dialing]: "dialing r0 (andThen (closes cs) (\<lambda>_. fail e))"
  by (rule dialingI) (auto simp: closes_def andThen_def intro!: exI [of _ "map Closed cs"])

lemma dialing_andThen [dialing]:
  assumes "dialing r0 m" and "\<And>x. dialing r0 (f x)"
  shows "dialing r0 (andThen m f)"
proof (rule dialingI)
  fix p r p' assume run: "andThen m f p = (r, p')"
  obtain q p1 where m: "m p = (q, p1)" by fastforce
  with dialingD [OF assms(1)] obtain evs where evs: "ps_hooks p1 = ps_hooks p" "ps_log p1 = ps_log p @ evs"
    "Opened r0 \<notin> set evs" "isl q \<or> closings evs = []" by blast
  show "ps_hooks p' = ps_hooks p \<and>
     (\<exists>evs. ps_log p' = ps_log p @ evs \<and> Opened r0 \<notin> set evs \<and> (isl r \<or> closings evs = []))"
  proof (cases q)
    case (Inl e)
    with run m evs show ?thesis by (auto simp: andThen_def)
  next
    case (Inr x)
    with run m have "f x p1 = (r, p')" by (simp add: andThen_def)
    from dialingD [OF assms(2) this] obtain evs' where "ps_hooks p' = ps_hooks p1" "ps_log p' = ps_log p1 @ evs'"
      "Opened r0 \<notin> set evs'" "isl r \<or> closings evs' = []" by blast
    with evs Inr show ?thesis by (intro conjI exI [of _ "evs @ evs'"]) auto
  qed
qed

lemma dialing_ret [dialing]: "dialing r0 (ret x)" "dialing r0 (fail e)" "dialing r0 (checked c err)" "dialing r0 (liftE r)"
  by (intro dialing_quiet quiet)+

lemma dialing_case [dialing]:
  "dialing r0 m \<Longrightarrow> dialing r0 n \<Longrightarrow> dialing r0 (if b then m else n)"
  "(\<And>e. dialing r0 (f1 e)) \<Longrightarrow> (\<And>e. dialing r0 (f2 e)) \<Longrightarrow> (\<And>e. dialing r0 (f3 e)) \<Longrightarrow> dialing r0 m \<Longrightarrow>
     dialing r0 (case d of BadURL e \<Rightarrow> f1 e | NotCreated e \<Rightarrow> f2 e | NoPing e \<Rightarrow> f3 e | Up \<Rightarrow> m)"
  "(\<And>e. dialing r0 (f1 e)) \<Longrightarrow> (\<And>e. dialing r0 (f2 e)) \<Longrightarrow> dialing r0 m \<Longrightarrow>
     dialing r0 (case nd of NoDial e \<Rightarrow> f1 e | NoJetStream e \<Rightarrow> f2 e | Connected \<Rightarrow> m)"
  "(\<And>e. dialing r0 (f1 e)) \<Longrightarrow> dialing r0 m \<Longrightarrow> dialing r0 (case d' of None \<Rightarrow> m | Some e \<Rightarrow> f1 e)"
  by (simp_all split: dial_outcome.split nats_outcome.split option.split)

definition is_server :: "resource \<Rightarrow> bool" where
  "is_server r \<longleftrightarrow> r = GrpcServer \<or> r = PublicServer"

lemma server_ne: "is_server r0 \<Longrightarrow> Pool u \<noteq> r0 \<and> RedisClient \<noteq> r0 \<and> NatsConnection \<noteq> r0 \<and> UpstreamConn u \<noteq> r0 \<and>
  OpsServer \<noteq> r0 \<and> TraceExporter \<noteq> r0 \<and> MetricExporter \<noteq> r0 \<and> TracerProvider \<noteq> r0 \<and> MeterProvider \<noteq> r0 \<and>
  BlacklistSubscription \<noteq> r0"
  by (auto simp: is_server_def)

lemma newPool_dialing: "is_server r0 \<Longrightarrow> dialing r0 (newPool B url cfg)"
  unfolding newPool_def by (intro dialing; simp add: server_ne)

lemma dialing_or_close:
  assumes "dialing r0 m" and "\<And>x. dialing r0 (f x)" and "\<And>e. dialing r0 (g e)"
    and "\<And>e p. isl (fst (g e p))"
    and "\<And>p. n p = (case m p of (Inl e, p') \<Rightarrow> g e p' | (Inr x, p') \<Rightarrow> f x p')"
  shows "dialing r0 n"
proof (rule dialingI)
  fix p r p' assume run: "n p = (r, p')"
  obtain q p1 where m: "m p = (q, p1)" by fastforce
  with dialingD [OF assms(1)] obtain evs where evs: "ps_hooks p1 = ps_hooks p" "ps_log p1 = ps_log p @ evs"
    "Opened r0 \<notin> set evs" "isl q \<or> closings evs = []" by blast
  have "\<exists>evs'. ps_hooks p' = ps_hooks p1 \<and> ps_log p' = ps_log p1 @ evs' \<and> Opened r0 \<notin> set evs' \<and>
     (isl r \<or> closings (evs @ evs') = [])"
  proof (cases q)
    case (Inl e)
    with run m assms(5) have "g e p1 = (r, p')" by simp
    moreover from this assms(4) [of e p1] have "isl r" by simp
    ultimately show ?thesis using dialingD [OF assms(3)] by blast
  next
    case (Inr x)
    with run m assms(5) have "f x p1 = (r, p')" by simp
    with dialingD [OF assms(2) this] evs Inr show ?thesis by auto
  qed
  then obtain evs' where "ps_hooks p' = ps_hooks p1" "ps_log p' = ps_log p1 @ evs'" "Opened r0 \<notin> set evs'"
    "isl r \<or> closings (evs @ evs') = []" by blast
  with evs show "ps_hooks p' = ps_hooks p \<and>
     (\<exists>evs. ps_log p' = ps_log p @ evs \<and> Opened r0 \<notin> set evs \<and> (isl r \<or> closings evs = []))"
    by (intro conjI exI [of _ "evs @ evs'"]) auto
qed

lemma connect_reads_dialing: "is_server r0 \<Longrightarrow> dialing r0 (connect_reads B cfg i opened urls)"
proof (induction urls arbitrary: i opened)
  case (Cons url urls)
  show ?case
    by (rule dialing_or_close [OF newPool_dialing [OF Cons.prems, of B url cfg] Cons.IH [OF Cons.prems] dialing_close_fail])
      (simp_all add: andThen_def closes_def)
qed (simp add: dialing)

lemma connections_dialing [dialing]:
  assumes "is_server r0"
  shows "dialing r0 (postgres_Connect B cfg)" "dialing r0 (redis_Connect B rcfg)" "dialing r0 (nats_Connect B url name n)"
    "dialing r0 (telemetry_Init B tcfg)" "dialing r0 (NewProxy B gcfg)"
proof -
  let ?cfg = "pg_withDefaults (bo_cpus B) cfg"
  show "dialing r0 (postgres_Connect B cfg)"
    by (rule dialing_or_close [where f = "\<lambda>_. connect_reads B ?cfg 0 [] (pg_ReadURLs cfg)"
          and g = "\<lambda>e. fail (''postgres: connect primary: '' @ e)",
          OF newPool_dialing [OF assms, of B "pg_WriteURL ?cfg" ?cfg] connect_reads_dialing [OF assms] dialing_ret(2)])
      (simp_all add: postgres_Connect_def Let_def split: prod.split sum.split)
  show "dialing r0 (redis_Connect B rcfg)" unfolding redis_Connect_def by (intro dialing; simp add: assms server_ne)
  show "dialing r0 (nats_Connect B url name n)" unfolding nats_Connect_def by (intro dialing; simp add: assms server_ne)
  show "dialing r0 (telemetry_Init B tcfg)"
    unfolding telemetry_Init_def buildResource_def by (intro dialing; simp add: assms server_ne)
  show "dialing r0 (NewProxy B gcfg)" unfolding NewProxy_def dial_backends.simps by (intro dialing; simp add: assms server_ne)
qed

text \<open>\<open>at_hooks r0 hs\<close>: nothing is closed, \<open>r0\<close> is not open and the hooks close \<open>hs\<close>, in the order of registration.\<close>

definition at_hooks :: "resource \<Rightarrow> resource list list \<Rightarrow> process \<Rightarrow> bool" where
  "at_hooks r0 hs p \<longleftrightarrow> map hk_closes (ps_hooks p) = hs \<and> closings (ps_log p) = [] \<and> Opened r0 \<notin> set (ps_log p)"

definition serving :: "resource list list \<Rightarrow> process \<Rightarrow> bool" where
  "serving hs p \<longleftrightarrow> map hk_closes (ps_hooks p) = hs \<and> closings (ps_log p) = []"

text \<open>Once \<open>r0\<close> was open, what was closed is exactly \<open>rs\<close>, in that order.\<close>

definition stopped :: "resource \<Rightarrow> (resource list \<Rightarrow> bool) \<Rightarrow> process \<Rightarrow> bool" where
  "stopped r0 Rs p \<longleftrightarrow> Opened r0 \<in> set (ps_log p) \<longrightarrow> Rs (closings (ps_log p))"

lemma at_steps:
  "dialing r0 m \<Longrightarrow> hoare (at_hooks r0 hs) m (\<lambda>_. at_hooks r0 hs) (\<lambda>_. stopped r0 Rs)"
  "dialing r0 m \<Longrightarrow> hoare (at_hooks r0 hs) (orDrain B m) (\<lambda>_. at_hooks r0 hs) (\<lambda>_. stopped r0 Rs)"
  "hoare (at_hooks r0 hs) (Manager_Register n rs) (\<lambda>_. at_hooks r0 (hs @ [rs])) (\<lambda>_. stopped r0 Rs)"
  "hoare (at_hooks r0 hs) (opens r0) (\<lambda>_. serving hs) (\<lambda>_. stopped r0 Rs)"
  "hoare (serving hs) (opens r) (\<lambda>_. serving hs) (\<lambda>_. stopped r0 Rs)"
  "hoare (serving hs) (Manager_Register n rs) (\<lambda>_. serving (hs @ [rs])) (\<lambda>_. stopped r0 Rs)"
  "Rs (concat (rev hs)) \<Longrightarrow> hoare (serving hs) (Manager_Run B) (\<lambda>_. stopped r0 Rs) (\<lambda>_. stopped r0 Rs)"
proof -
  show "hoare (at_hooks r0 hs) m (\<lambda>_. at_hooks r0 hs) (\<lambda>_. stopped r0 Rs)" if "dialing r0 m"
    by (rule hoareI; drule dialingD [OF that]) (auto simp: at_hooks_def stopped_def)
  show "hoare (at_hooks r0 hs) (orDrain B m) (\<lambda>_. at_hooks r0 hs) (\<lambda>_. stopped r0 Rs)" if d: "dialing r0 m"
  proof (rule hoareI)
    fix p x p' assume "at_hooks r0 hs p" and "orDrain B m p = (Inr x, p')"
    then show "at_hooks r0 hs p'"
      by (auto simp: orDrain_def at_hooks_def split: prod.splits sum.splits dest!: dialingD [OF d])
  next
    fix p e p' assume "at_hooks r0 hs p" and "orDrain B m p = (Inl e, p')"
    then show "stopped r0 Rs p'"
      by (auto simp: orDrain_def at_hooks_def stopped_def Manager_Run_log split: prod.splits sum.splits dest!: dialingD [OF d])
  qed
  show "hoare (serving hs) (Manager_Run B) (\<lambda>_. stopped r0 Rs) (\<lambda>_. stopped r0 Rs)" if "Rs (concat (rev hs))"
  proof -
    have "stopped r0 Rs (snd (Manager_Run B p))" if "serving hs p" for p
      using that \<open>Rs (concat (rev hs))\<close> by (simp add: serving_def stopped_def Manager_Run_log rev_map [symmetric])
    then show ?thesis by (intro hoareI) (metis snd_conv)+
  qed
qed (auto simp: hoare_def Manager_Register_def opens_def at_hooks_def serving_def)

lemma stopped_keeps: "quiet m \<Longrightarrow> hoare (stopped r0 Rs) m (\<lambda>_. stopped r0 Rs) (\<lambda>_. stopped r0 Rs)"
  unfolding quiet_def by (intro hoareI) (metis snd_conv stopped_def)+

lemma andThen_assoc: "andThen (andThen m f) g = andThen m (\<lambda>x. andThen (f x) g)"
  by (rule ext) (simp add: andThen_def split: prod.splits sum.splits)

lemma server_dialing: "is_server r0 \<Longrightarrow> dialing r0 (opens OpsServer)" "is_server r0 \<Longrightarrow> dialing r0 (opens BlacklistSubscription)"
  by (simp_all add: dialing_opens server_ne)

lemmas quiet_dialing = quiet_steps [THEN dialing_quiet] EnsureStream_quiet [THEN dialing_quiet]

lemmas order_steps =
  hoare_andThen [OF at_steps(1) [OF dialing_ret(4)]]
  hoare_andThen [OF at_steps(1) [OF connections_dialing(4)]]
  hoare_andThen [OF at_steps(3)]
  hoare_andThen [OF at_steps(2) [OF connections_dialing(1)]]
  hoare_andThen [OF at_steps(2) [OF connections_dialing(2)]]
  hoare_andThen [OF at_steps(2) [OF connections_dialing(3)]]
  hoare_andThen [OF at_steps(2) [OF connections_dialing(5)]]
  hoare_andThen [OF at_steps(2) [OF quiet_dialing(1)]]
  hoare_andThen [OF at_steps(2) [OF quiet_dialing(2)]]
  hoare_andThen [OF at_steps(2) [OF quiet_dialing(3)]]
  hoare_andThen [OF at_steps(1) [OF quiet_dialing(4)]]
  hoare_andThen [OF at_steps(1) [OF quiet_dialing(5)]]
  hoare_andThen [OF at_steps(1) [OF dialing_quiet [OF quiet_modify]]]
  hoare_andThen [OF at_steps(4)]
  hoare_andThen [OF at_steps(1) [OF server_dialing(1)]]
  hoare_andThen [OF at_steps(1) [OF server_dialing(2)]]
  hoare_andThen [OF at_steps(5)]
  hoare_andThen [OF at_steps(6)]

lemma ends_stopped:
  assumes "Rs (concat (rev hs))"
  shows "hoare (serving hs) (Manager_Run B) (\<lambda>_. stopped r0 Rs) (\<lambda>_. stopped r0 Rs)"
    "hoare (serving hs) (andThen (Manager_Run B) (\<lambda>_. checked c err)) (\<lambda>_. stopped r0 Rs) (\<lambda>_. stopped r0 Rs)"
    "hoare (serving hs) (runUntilSignal B) (\<lambda>_. stopped r0 Rs) (\<lambda>_. stopped r0 Rs)"
proof -
  show run: "hoare (serving hs) (Manager_Run B) (\<lambda>_. stopped r0 Rs) (\<lambda>_. stopped r0 Rs)"
    by (rule at_steps(7)) (rule assms)
  show err: "hoare (serving hs) (andThen (Manager_Run B) (\<lambda>_. checked c err)) (\<lambda>_. stopped r0 Rs) (\<lambda>_. stopped r0 Rs)" for c err
    by (rule hoare_andThen [OF run]) (rule stopped_keeps, rule quiet)
  show "hoare (serving hs) (runUntilSignal B) (\<lambda>_. stopped r0 Rs) (\<lambda>_. stopped r0 Rs)"
    unfolding runUntilSignal_def by (cases "bo_end B") (simp_all add: run err)
qed

lemma new_process_at: "at_hooks r0 [] new_process" "pristine new_process"
  by (simp_all add: at_hooks_def pristine_def bal_def new_process_def)

text \<open>The orders in which the core's server and the gateway close what they opened.\<close>

definition server_order :: "resource list \<Rightarrow> bool" where
  "server_order rs \<longleftrightarrow> (\<exists>w reads providers. rs = [GrpcServer, OpsServer, NatsConnection, RedisClient] @ Pools_Close w reads @ providers)"

definition gateway_order :: "resource list \<Rightarrow> bool" where
  "gateway_order rs \<longleftrightarrow> (\<exists>conns providers.
     rs = [OpsServer, PublicServer] @ Proxy_Close conns @ [BlacklistSubscription, RedisClient] @ providers)"

lemma RunServer_order:
  "hoare (at_hooks GrpcServer []) (RunServer B) (\<lambda>_. stopped GrpcServer server_order) (\<lambda>_. stopped GrpcServer server_order)"
  unfolding RunServer_def boot_setup_def andThen_assoc
  by (intro order_steps; simp add: is_server_def; intro order_steps)
   (auto simp: server_order_def is_server_def intro!: ends_stopped, blast)

lemma gateway_order:
  "hoare (at_hooks PublicServer []) (gateway_Run B) (\<lambda>_. stopped PublicServer gateway_order) (\<lambda>_. stopped PublicServer gateway_order)"
  unfolding gateway_Run_def
  by (intro order_steps; simp add: is_server_def split: process_end.split)
   (auto simp: gateway_order_def intro!: ends_stopped, blast+)

section \<open>What a serving process runs on\<close>

text \<open>Steps that leave the signer, the verifier and the checker alone.\<close>

definition app_state :: "process \<Rightarrow> signer option \<times> (string \<times> string) option \<times> checker" where
  "app_state p = (ps_signer p, ps_verifier p, ps_checker p)"

definition unopened :: "resource \<Rightarrow> process \<Rightarrow> bool" where
  "unopened r0 p \<longleftrightarrow> Opened r0 \<notin> set (ps_log p)"

definition runs_on :: "resource \<Rightarrow> (signer option \<times> (string \<times> string) option \<times> checker \<Rightarrow> bool) \<Rightarrow> process \<Rightarrow> bool" where
  "runs_on r0 G p \<longleftrightarrow> Opened r0 \<in> set (ps_log p) \<longrightarrow> G (app_state p)"

lemma calm_steps:
  "dialing r0 m \<Longrightarrow> hoare (unopened r0) m (\<lambda>_. unopened r0) (\<lambda>_. runs_on r0 G)"
  "dialing r0 m \<Longrightarrow> hoare (unopened r0) (orDrain B m) (\<lambda>_. unopened r0) (\<lambda>_. runs_on r0 G)"
  "hoare (unopened r0) (Manager_Register n rs) (\<lambda>_. unopened r0) (\<lambda>_. runs_on r0 G)"
proof -
  show "hoare (unopened r0) m (\<lambda>_. unopened r0) (\<lambda>_. runs_on r0 G)" if "dialing r0 m"
    by (rule hoareI; drule dialingD [OF that]) (auto simp: unopened_def runs_on_def)
  show "hoare (unopened r0) (orDrain B m) (\<lambda>_. unopened r0) (\<lambda>_. runs_on r0 G)" if d: "dialing r0 m"
    by (rule hoareI)
      (auto simp: orDrain_def unopened_def runs_on_def Manager_Run_log split: prod.splits sum.splits dest!: dialingD [OF d])
qed (simp add: hoare_def Manager_Register_def unopened_def)

lemma app_steps:
  "hoare (\<lambda>p. G (app_state p)) (opens r) (\<lambda>_ p. G (app_state p)) R"
  "hoare (\<lambda>p. G (app_state p)) (Manager_Register n rs) (\<lambda>_ p. G (app_state p)) R"
  "hoare (\<lambda>p. G (app_state p)) RegisterAll (\<lambda>_ p. G (app_state p)) R"
  by (simp_all add: hoare_def opens_def Manager_Register_def RegisterAll_def app_state_def)

lemma Manager_Run_app: "app_state (snd (Manager_Run B p)) = app_state p"
proof -
  have "app_state (fold (run_hook B) hs p) = app_state p" for hs
    by (induction hs arbitrary: p) (simp_all add: run_hook_def Let_def app_state_def split: option.splits)
  then show ?thesis by (simp add: Manager_Run_def)
qed

lemma app_ends:
  "hoare (\<lambda>p. G (app_state p)) (Manager_Run B) (\<lambda>_. runs_on r0 G) (\<lambda>_. runs_on r0 G)"
  "hoare (\<lambda>p. G (app_state p)) (andThen (Manager_Run B) (\<lambda>_. checked c err)) (\<lambda>_. runs_on r0 G) (\<lambda>_. runs_on r0 G)"
  "hoare (\<lambda>p. G (app_state p)) (runUntilSignal B) (\<lambda>_. runs_on r0 G) (\<lambda>_. runs_on r0 G)"
proof -
  show run: "hoare (\<lambda>p. G (app_state p)) (Manager_Run B) (\<lambda>_. runs_on r0 G) (\<lambda>_. runs_on r0 G)"
    by (intro hoareI) (metis Manager_Run_app runs_on_def snd_conv)+
  have "hoare (runs_on r0 G) (checked c err) (\<lambda>_. runs_on r0 G) (\<lambda>_. runs_on r0 G)" for c err
    by (rule checked_keeps)
  then show err: "hoare (\<lambda>p. G (app_state p)) (andThen (Manager_Run B) (\<lambda>_. checked c err)) (\<lambda>_. runs_on r0 G) (\<lambda>_. runs_on r0 G)"
    for c err by (intro hoare_andThen [OF run])
  show "hoare (\<lambda>p. G (app_state p)) (runUntilSignal B) (\<lambda>_. runs_on r0 G) (\<lambda>_. runs_on r0 G)"
    unfolding runUntilSignal_def by (cases "bo_end B") (simp_all add: run err)
qed

text \<open>The server: its signer, and the policies it starts with.\<close>

definition good_signer :: "boot_env \<Rightarrow> core_cfg \<Rightarrow> signer \<Rightarrow> bool" where
  "good_signer B cfg s \<longleftrightarrow> sg_issuer s = cf_Issuer cfg \<and>
     (if core_IsProduction cfg then \<not> blank (cf_PrivateKeyPEM cfg) \<and> bo_parse_private B (cf_PrivateKeyPEM cfg) = Inr (sg_privateKey s)
      else \<exists>pem. (pem = cf_PrivateKeyPEM cfg \<or> bo_keygen B = Inr pem) \<and> bo_parse_private B pem = Inr (sg_privateKey s))"

lemma core_config_valid: "core_config B = Inr cfg \<Longrightarrow> core_problems cfg = []"
  by (auto simp: core_config_def core_Load_def andThen_def val_Err_def split: prod.splits sum.splits if_splits)

lemma gateway_config_valid: "gateway_config_of B = Inr cfg \<Longrightarrow> gateway_problems cfg = []"
  by (auto simp: gateway_config_of_def gateway_Load_def andThen_def val_Err_def split: prod.splits sum.splits if_splits)

lemma production_private_key: "core_config B = Inr cfg \<Longrightarrow> core_IsProduction cfg \<Longrightarrow> \<not> blank (cf_PrivateKeyPEM cfg)"
  by (drule core_config_valid) (auto simp: core_problems_broken broken_def core_demands_def core_IsProduction_def split: if_splits)

lemma production_public_key: "gateway_config_of B = Inr cfg \<Longrightarrow> gateway_IsProduction cfg \<Longrightarrow> \<not> blank (gw_PublicKeyPEM cfg)"
  by (drule gateway_config_valid) (auto simp: gateway_problems_broken broken_def gateway_demands_def gateway_IsProduction_def split: if_splits)

lemma buildSigner_good:
  assumes "core_config B = Inr cfg" and "buildSigner B cfg p = (Inr s, p')"
  shows "good_signer B cfg s"
proof -
  have b: "blank []" by code_simp
  from assms(2) obtain keyPEM p1 where
    k: "cf_PrivateKeyPEM cfg = [] \<and> \<not> core_IsProduction cfg \<and> bo_keygen B = Inr keyPEM \<or> keyPEM = cf_PrivateKeyPEM cfg \<and> keyPEM \<noteq> []"
    and n: "NewSigner B \<lparr>jc_PrivateKeyPEM = keyPEM, jc_PublicKeyPEM = [], jc_Issuer = cf_Issuer cfg,
                           jc_AccessTokenTTL = cf_AccessTokenTTL cfg\<rparr> = Inr s"
    by (auto simp: buildSigner_def elim!: andThen_InrE split: if_splits)
  with production_private_key [OF assms(1)] b show ?thesis
    by (auto simp: good_signer_def NewSigner_def split: sum.splits)
qed

definition good_policies :: "boot_env \<Rightarrow> checker \<Rightarrow> bool" where
  "good_policies B ck \<longleftrightarrow> ck_policies ck = [] \<or>
     ck_policies ck = compile_rows (bo_cel B) (ListEnabledPolicies (w_db (bo_world B)))"

definition good_server :: "boot_env \<Rightarrow> core_cfg \<Rightarrow> signer option \<times> (string \<times> string) option \<times> checker \<Rightarrow> bool" where
  "good_server B cfg a \<longleftrightarrow> (\<exists>s. fst a = Some s \<and> good_signer B cfg s) \<and> good_policies B (snd (snd a))"

lemma setup_calm:
  "is_server r0 \<Longrightarrow> hoare (unopened r0) (boot_setup B suffix) (\<lambda>(cfg, n) p. unopened r0 p \<and> core_config B = Inr cfg) (\<lambda>_. runs_on r0 G)"
proof -
  assume r: "is_server r0"
  have "hoare (unopened r0) (boot_setup B suffix) (\<lambda>_. unopened r0) (\<lambda>_. runs_on r0 G)"
    unfolding boot_setup_def
    by (intro hoare_andThen [OF calm_steps(1) [OF dialing_ret(4)]] hoare_andThen [OF calm_steps(1) [OF connections_dialing(4) [OF r]]]
        hoare_andThen [OF calm_steps(3)] hoare_andThen [OF calm_steps(2) [OF connections_dialing(1) [OF r]]]
        hoare_andThen [OF calm_steps(2) [OF connections_dialing(2) [OF r]]]
        hoare_andThen [OF calm_steps(2) [OF connections_dialing(3) [OF r]]]) (simp add: hoare_def)
  moreover have "core_config B = Inr cfg" if "boot_setup B suffix p = (Inr (cfg, n), p')" for cfg n p p'
    using that unfolding boot_setup_def by (elim andThen_InrE) simp
  ultimately show ?thesis by (intro hoareI) (auto dest: hoare_Inr hoare_Inl)
qed

lemma modules_good:
  assumes "core_config B = Inr cfg"
  shows "hoare (unopened r0) (orDrain B (buildModules B cfg)) (\<lambda>_ p. good_server B cfg (app_state p)) (\<lambda>_. runs_on r0 G)"
proof (rule hoareI)
  fix p e p' assume "unopened r0 p" and "orDrain B (buildModules B cfg) p = (Inl e, p')"
  then show "runs_on r0 G p'" by (rule hoare_Inl [OF calm_steps(2) [OF quiet_dialing(2)]])
next
  fix p x p' assume "orDrain B (buildModules B cfg) p = (Inr x, p')"
  then have "buildModules B cfg p = (Inr x, p')" by (simp add: orDrain_def split: prod.splits sum.splits)
  then obtain s ck p1 p2 where "buildSigner B cfg p = (Inr s, p1)" "NewChecker B = Inr ck"
    "p' = p2\<lparr>ps_signer := Some s, ps_checker := ck\<rparr>"
    by (auto simp: buildModules_def elim!: andThen_InrE)
  then show "good_server B cfg (app_state p')"
    using buildSigner_good [OF assms]
    by (auto simp: good_server_def app_state_def good_policies_def NewChecker_def split: option.splits)
qed

lemma Refresh_policies:
  assumes "Checker_Refresh L E (w, ck) = (r, w', ck')"
  shows "ck_policies ck' = ck_policies ck \<or> ck_policies ck' = compile_rows L (ListEnabledPolicies (w_db w))"
proof (cases r)
  case (Inr x)
  with Checker_Refresh_Inr assms show ?thesis by blast
next
  case (Inl e)
  with assms have "Refresh_load E (w, ck) = (Inl e, w', ck')"
    by (auto simp: Checker_Refresh_def Refresh_store_def on_world_def elim!: andThen_InlE split: prod.splits)
  then show ?thesis using load_state by (metis snd_conv)
qed

lemma load_policies_app:
  "load_policies B p = (r, p') \<Longrightarrow> ps_signer p' = ps_signer p \<and> ps_verifier p' = ps_verifier p \<and>
     (ck_policies (ps_checker p') = ck_policies (ps_checker p) \<or>
      ck_policies (ps_checker p') = compile_rows (bo_cel B) (ListEnabledPolicies (w_db (bo_world B))))"
  by (auto simp: load_policies_def authz_Start_def andThen_def attempt_def split: prod.splits sum.splits
      dest!: Refresh_policies)

lemma policies_good:
  "hoare (\<lambda>p. good_server B cfg (app_state p)) (load_policies B) (\<lambda>_ p. good_server B cfg (app_state p)) R"
proof (rule hoareI)
  fix p x p' assume "good_server B cfg (app_state p)" and "load_policies B p = (Inr x, p')"
  then show "good_server B cfg (app_state p')"
    by (auto simp: good_server_def app_state_def good_policies_def dest!: load_policies_app)
next
  fix p e p' assume "load_policies B p = (Inl e, p')"
  with never_fails(2) [of B p] show "R e p'" by auto
qed

text \<open>A chain of steps from a state that depends on a value read before.\<close>

lemma hoare_value:
  assumes "hoare P m (\<lambda>x s. M x s \<and> C x) R" and "\<And>x. C x \<Longrightarrow> hoare (M x) (f x) Q R"
  shows "hoare P (andThen m f) Q R"
  by (intro hoareI; erule andThen_InlE andThen_InrE; (drule (1) hoare_Inl [OF assms(1)] | drule (1) hoare_Inr [OF assms(1)]))
    (auto dest: assms(2) hoare_Inl hoare_Inr)

lemma server_runs_on:
  "hoare (unopened GrpcServer) (RunServer B)
     (\<lambda>_. runs_on GrpcServer (\<lambda>a. \<exists>cfg. core_config B = Inr cfg \<and> good_server B cfg a))
     (\<lambda>_. runs_on GrpcServer (\<lambda>a. \<exists>cfg. core_config B = Inr cfg \<and> good_server B cfg a))"
  (is "hoare _ _ (\<lambda>_. runs_on _ ?G) (\<lambda>_. runs_on _ ?G)")
  unfolding RunServer_def
proof (rule hoare_value [where M = "\<lambda>_. unopened GrpcServer" and C = "\<lambda>(cfg, n). core_config B = Inr cfg"])
  show "hoare (unopened GrpcServer) (boot_setup B [])
     (\<lambda>x p. unopened GrpcServer p \<and> (case x of (cfg, n) \<Rightarrow> core_config B = Inr cfg)) (\<lambda>_. runs_on GrpcServer ?G)"
    using setup_calm [of GrpcServer B "[]" ?G] by (auto simp: is_server_def case_prod_unfold)
next
  fix x :: "core_cfg \<times> int" assume "case x of (cfg, n) \<Rightarrow> core_config B = Inr cfg"
  then obtain cfg n where x: "x = (cfg, n)" and cfg: "core_config B = Inr cfg" by (cases x) auto
  have good: "?G a" if "good_server B cfg a" for a using that cfg by blast
  have "hoare (unopened GrpcServer)
     (andThen (orDrain B (new_server B cfg)) (\<lambda>_. andThen (orDrain B (buildModules B cfg)) (\<lambda>_.
      andThen RegisterAll (\<lambda>_. andThen (load_policies B) (\<lambda>_. andThen (opens OpsServer) (\<lambda>_.
      andThen (Manager_Register ''ops-server'' [OpsServer]) (\<lambda>_. andThen (opens GrpcServer) (\<lambda>_.
      andThen (Manager_Register ''grpc-server'' [GrpcServer]) (\<lambda>_. runUntilSignal B)))))))))
     (\<lambda>_. runs_on GrpcServer ?G) (\<lambda>_. runs_on GrpcServer ?G)"
    apply (rule hoare_andThen [OF calm_steps(2) [OF quiet_dialing(3)]])
    apply (rule hoare_andThen [OF modules_good [OF cfg]])
    apply (rule hoare_andThen [OF app_steps(3)], rule hoare_andThen [OF policies_good], rule hoare_andThen [OF app_steps(1)],
        rule hoare_andThen [OF app_steps(2)], rule hoare_andThen [OF app_steps(1)], rule hoare_andThen [OF app_steps(2)])
    using app_ends(3) [of ?G B GrpcServer] good by (auto simp: hoare_def)
  then show "hoare (unopened GrpcServer) (case x of (cfg, replicas) \<Rightarrow>
     andThen (orDrain B (new_server B cfg)) (\<lambda>_. andThen (orDrain B (buildModules B cfg)) (\<lambda>_.
      andThen RegisterAll (\<lambda>_. andThen (load_policies B) (\<lambda>_. andThen (opens OpsServer) (\<lambda>_.
      andThen (Manager_Register ''ops-server'' [OpsServer]) (\<lambda>_. andThen (opens GrpcServer) (\<lambda>_.
      andThen (Manager_Register ''grpc-server'' [GrpcServer]) (\<lambda>_. runUntilSignal B)))))))))
     (\<lambda>_. runs_on GrpcServer ?G) (\<lambda>_. runs_on GrpcServer ?G)"
    by (simp add: x)
qed

text \<open>The gateway: its verifier.\<close>

definition good_verifier :: "boot_env \<Rightarrow> gateway_cfg \<Rightarrow> (string \<times> string) option \<Rightarrow> bool" where
  "good_verifier B cfg v \<longleftrightarrow> (case v of
       None \<Rightarrow> \<not> gateway_IsProduction cfg \<and> gw_PublicKeyPEM cfg = []
     | Some (key, issuer) \<Rightarrow> issuer = gw_Issuer cfg \<and> bo_parse_public B (gw_PublicKeyPEM cfg) = Inr key)"

lemma verifier_calm:
  assumes "gateway_config_of B = Inr cfg" and "is_server r0"
  shows "hoare (unopened r0) (orDrain B (gateway_verifier B cfg)) (\<lambda>v p. unopened r0 p \<and> good_verifier B cfg v) (\<lambda>_. runs_on r0 G)"
proof (rule hoareI)
  fix p e p' assume "unopened r0 p" and "orDrain B (gateway_verifier B cfg) p = (Inl e, p')"
  then show "runs_on r0 G p'" by (rule hoare_Inl [OF calm_steps(2) [OF quiet_dialing(1)]])
next
  fix p v p' assume c: "unopened r0 p" and run: "orDrain B (gateway_verifier B cfg) p = (Inr v, p')"
  from c run have "unopened r0 p'" by (rule hoare_Inr [OF calm_steps(2) [OF quiet_dialing(1)]])
  moreover have b: "blank []" by code_simp
  from run have "gateway_verifier B cfg p = (Inr v, p')" by (simp add: orDrain_def split: prod.splits sum.splits)
  then have "good_verifier B cfg v"
    using production_public_key [OF assms(1)] b
    by (auto simp: gateway_verifier_def good_verifier_def NewVerifier_def elim!: andThen_InrE split: if_splits sum.splits)
  ultimately show "unopened r0 p' \<and> good_verifier B cfg v" by simp
qed

lemma gateway_runs_on:
  "hoare (unopened PublicServer) (gateway_Run B)
     (\<lambda>_. runs_on PublicServer (\<lambda>a. \<exists>cfg. gateway_config_of B = Inr cfg \<and> good_verifier B cfg (fst (snd a))))
     (\<lambda>_. runs_on PublicServer (\<lambda>a. \<exists>cfg. gateway_config_of B = Inr cfg \<and> good_verifier B cfg (fst (snd a))))"
  (is "hoare _ _ (\<lambda>_. runs_on _ ?G) (\<lambda>_. runs_on _ ?G)")
  unfolding gateway_Run_def
proof (rule hoare_value [where M = "\<lambda>_. unopened PublicServer" and C = "\<lambda>cfg. gateway_config_of B = Inr cfg"], goal_cases)
  case 1
  show ?case by (auto simp: hoare_def unopened_def runs_on_def split: sum.splits)
next
  case (2 cfg)
  have r: "is_server PublicServer" by (simp add: is_server_def)
  have good: "?G a" if "good_verifier B cfg (fst (snd a))" for a using that 2 by blast
  have set: "hoare (unopened PublicServer) (modify (\<lambda>p. p\<lparr>ps_verifier := v, ps_public := sv\<rparr>)) (\<lambda>_ p. ?G (app_state p)) R"
    if "good_verifier B cfg v" for v sv R
    using 2 that by (auto simp: hoare_def app_state_def)
  show ?case
    apply (rule hoare_andThen [OF calm_steps(1) [OF connections_dialing(4) [OF r]]], rule hoare_andThen [OF calm_steps(3)])
    apply (rule hoare_andThen [OF calm_steps(2) [OF connections_dialing(2) [OF r]]], rule hoare_andThen [OF calm_steps(3)])
    apply (rule hoare_value [OF verifier_calm [OF 2 r]])
    apply (rule hoare_andThen [OF calm_steps(1) [OF server_dialing(2) [OF r]]], rule hoare_andThen [OF calm_steps(3)])
    apply (rule hoare_andThen [OF calm_steps(2) [OF connections_dialing(5) [OF r]]], rule hoare_andThen [OF calm_steps(3)])
    apply (rule hoare_andThen [OF set], assumption)
    apply (rule hoare_andThen [OF app_steps(1)], rule hoare_andThen [OF app_steps(2)],
        rule hoare_andThen [OF app_steps(1)], rule hoare_andThen [OF app_steps(2)])
    apply (simp add: app_ends(1,2) [of ?G] split: process_end.split)
    done
qed

section \<open>Properties\<close>

definition error_of :: "string + unit \<Rightarrow> string option" where
  "error_of r = (case r of Inl e \<Rightarrow> Some e | Inr _ \<Rightarrow> None)"

lemma hoare_run:
  assumes "hoare P m (\<lambda>_. Q None) (\<lambda>e. Q (Some e))" and "P p"
  shows "Q (error_of (fst (m p))) (snd (m p))"
proof (cases "m p")
  case (Pair r p')
  with assms show ?thesis by (cases r) (auto simp: error_of_def dest: hoare_Inr hoare_Inl)
qed



lemma new_process_unopened: "unopened r0 new_process"
  by (simp add: unopened_def new_process_def)

text \<open>
  C15. Production runs on the configured keys. A core that serves in production signs with the key
  parsed from its configuration, never with a generated one; a gateway that serves in production verifies
  with the configured public key and issuer, and never lets requests pass for want of a key. The policies a
  core serves with are none, so that nothing is allowed, or those enabled in the database.
\<close>

theorem production_keys_are_configured:
  "(Opened GrpcServer \<in> set (ps_log (snd (RunServer B new_process))) \<longrightarrow>
      (\<exists>cfg s. core_config B = Inr cfg \<and> ps_signer (snd (RunServer B new_process)) = Some s \<and>
         (core_IsProduction cfg \<longrightarrow> bo_parse_private B (cf_PrivateKeyPEM cfg) = Inr (sg_privateKey s)) \<and>
         (let ps = ck_policies (ps_checker (snd (RunServer B new_process))) in
          ps = [] \<or> ps = compile_rows (bo_cel B) (ListEnabledPolicies (w_db (bo_world B)))))) \<and>
   (Opened PublicServer \<in> set (ps_log (snd (gateway_Run B new_process))) \<longrightarrow>
      (\<exists>cfg. gateway_config_of B = Inr cfg \<and>
         (gateway_IsProduction cfg \<longrightarrow> (\<exists>key. ps_verifier (snd (gateway_Run B new_process)) = Some (key, gw_Issuer cfg) \<and>
            bo_parse_public B (gw_PublicKeyPEM cfg) = Inr key))))"
  using hoare_run [where Q = "\<lambda>_. runs_on GrpcServer (\<lambda>a. \<exists>cfg. core_config B = Inr cfg \<and> good_server B cfg a)",
      OF server_runs_on new_process_unopened]
    hoare_run [where Q = "\<lambda>_. runs_on PublicServer (\<lambda>a. \<exists>cfg. gateway_config_of B = Inr cfg \<and> good_verifier B cfg (fst (snd a)))",
      OF gateway_runs_on new_process_unopened]
  by (auto simp: runs_on_def good_server_def good_signer_def good_policies_def good_verifier_def app_state_def Let_def
      split: option.splits if_splits prod.splits)

text \<open>
  C28. What the relays publish is kept. After \<open>EnsureStream\<close> the stream of the core takes the
  subject of every event the two relays publish; \<open>covers\<close> is the broker's matching of a subject
  pattern, of which only the documented meaning of \<^verbatim>\<open>>\<close> after a dot is used.
\<close>

theorem published_events_are_streamed:
  assumes "\<And>pre rest. rest \<noteq> [] \<Longrightarrow> covers (pre @ ''.>'') (pre @ ''.'' @ rest)"
    and "EnsureStream B replicas coreStream coreStreamSubjects p = (Inr (), p')"
  shows "\<exists>st. ps_streams p' coreStream = Some st \<and>
    (\<forall>ev. \<exists>pattern \<in> set (st_Subjects st). covers pattern (identity_Subject ev)) \<and>
    (\<forall>ev. \<exists>pattern \<in> set (st_Subjects st). covers pattern (note_Subject ev))"
proof -
  have st: "ps_streams p' coreStream = Some \<lparr>st_Subjects = coreStreamSubjects, st_Replicas = replicas\<rparr>"
    using assms(2) by (auto simp: EnsureStream_def checked_def Let_def elim!: andThen_InrE split: option.splits)
  have "covers ''identity.>'' (identity_Subject ev)" for ev
    using assms(1) [of "drop 9 (identity_Subject ev)" "''identity''"] by (cases ev) simp_all
  moreover have "covers ''example.>'' (note_Subject ev)" for ev
    using assms(1) [of "drop 8 (note_Subject ev)" "''example''"] by (cases ev) simp_all
  ultimately show ?thesis using st by (simp add: coreStreamSubjects_def)
qed

text \<open>
  Every service is reachable. Each method of a service the core mounts is routed by the
  gateway to the core.
\<close>

theorem mounted_services_are_routed:
  assumes "RegisterAll new_process = (Inr (), p)" and "service \<in> set (ps_services p)"
  shows "Proxy_resolve (''/'' @ service @ ''/'' @ name) = Some ''core''"
  using assms
  by (auto simp: RegisterAll_def new_process_def Proxy_resolve_def routes_def trim_prefix_def)

section \<open>Concrete boots\<close>

definition demo_vars :: environ where
  "demo_vars = map_of [(''APP_ENV'', ''production''), (''DB_WRITE_URL'', ''pg''), (''REDIS_URL'', ''r''), (''NATS_URL'', ''n''),
     (''JWT_PRIVATE_KEY_PEM'', ''k''), (''JWT_PUBLIC_KEY_PEM'', ''p'')]"

definition demo_boot :: boot_env where
  "demo_boot = \<lparr>bo_lib = demo_lib, bo_files = (\<lambda>_. Missing), bo_environ = demo_vars, bo_cpus = 4, bo_resource = None,
     bo_prometheus = None, bo_trace_exporter = (\<lambda>_. None), bo_metric_exporter = (\<lambda>_. None), bo_pool = (\<lambda>_. Up),
     bo_redis = (\<lambda>_. Up), bo_nats = (\<lambda>_ _. Connected), bo_stream = (\<lambda>_ _. None),
     bo_close = (\<lambda>n. if n = ''redis'' then Some ''closed'' else None),
     bo_tls = \<lparr>tf_pair = (\<lambda>_ _. Inl ''none''), tf_read = (\<lambda>_. Inl ''none''), tf_certs = (\<lambda>_. False)\<rparr>,
     bo_keygen = Inl ''entropy'', bo_parse_private = Inr, bo_parse_public = Inr, bo_cel_env = None, bo_cel = demo_cel,
     bo_sql = demo_env, bo_world = demo_world empty_db, bo_dial = (\<lambda>_. None), bo_end = Interrupted\<rparr>"

definition demo_core :: core_cfg where "demo_core = core_settings demo_lib demo_vars"

definition demo_gateway :: gateway_cfg where "demo_gateway = gateway_settings demo_lib demo_vars"

lemma demo_Getenv:
  "Getenv demo_vars ''APP_ENV'' = ''production''" "Getenv demo_vars ''DB_WRITE_URL'' = ''pg''" "Getenv demo_vars ''REDIS_URL'' = ''r''"
  "Getenv demo_vars ''NATS_URL'' = ''n''" "Getenv demo_vars ''JWT_PRIVATE_KEY_PEM'' = ''k''" "Getenv demo_vars ''JWT_PUBLIC_KEY_PEM'' = ''p''"
  "Getenv demo_vars ''DB_READ_URLS'' = []" "Getenv demo_vars ''GRPC_TLS_CERT_FILE'' = []" "Getenv demo_vars ''GRPC_TLS_KEY_FILE'' = []"
  "Getenv demo_vars ''UPSTREAM_CORE'' = []" "Getenv demo_vars ''INTERNAL_TLS_CERT_FILE'' = []" "Getenv demo_vars ''INTERNAL_TLS_KEY_FILE'' = []"
  "Getenv demo_vars ''INTERNAL_TLS_CA_FILE'' = []" "Getenv demo_vars ''OTEL_ENABLED'' = []" "Getenv demo_vars ''OTEL_TRACE_SAMPLE_RATIO'' = []"
  by code_simp+

lemma demo_lookups:
  "cfg_String demo_vars ''APP_ENV'' d = ''production''" "cfg_String demo_vars ''DB_WRITE_URL'' d = ''pg''"
  "cfg_String demo_vars ''REDIS_URL'' d = ''r''" "cfg_String demo_vars ''NATS_URL'' d = ''n''"
  "cfg_String demo_vars ''JWT_PRIVATE_KEY_PEM'' d = ''k''" "cfg_String demo_vars ''JWT_PUBLIC_KEY_PEM'' d = ''p''"
  "cfg_String demo_vars ''DB_READ_URLS'' d = d" "cfg_String demo_vars ''GRPC_TLS_CERT_FILE'' d = d"
  "cfg_String demo_vars ''GRPC_TLS_KEY_FILE'' d = d" "cfg_String demo_vars ''UPSTREAM_CORE'' d = d"
  "cfg_String demo_vars ''INTERNAL_TLS_CERT_FILE'' d = d" "cfg_String demo_vars ''INTERNAL_TLS_KEY_FILE'' d = d"
  "cfg_String demo_vars ''INTERNAL_TLS_CA_FILE'' d = d" "cfg_Bool demo_vars ''OTEL_ENABLED'' False = False"
  "in_unit (cfg_Float64 demo_lib demo_vars ''OTEL_TRACE_SAMPLE_RATIO'' (Finite 1))"
  by (simp_all add: cfg_String_def cfg_Float64_def parsed_def in_unit_def cfg_Bool_def demo_Getenv)

lemma not_blank: "\<not> blank ''pg''" "\<not> blank ''r''" "\<not> blank ''n''" "\<not> blank ''k''" "\<not> blank ''p''" "\<not> blank ''localhost:50051''"
  by (simp_all add: blank_def trim_space_ascii byte_of_def is_space_def)

lemma demo_fields [simp]:
  "cf_Env demo_core = ''production''" "cf_WriteURL demo_core = ''pg''" "cf_ReadURLs demo_core = []" "cf_PrivateKeyPEM demo_core = ''k''"
  "rc_URL (cf_Redis demo_core) = ''r''" "cf_NATSURL demo_core = ''n''" "cf_PublicKeyPEM demo_core = ''p''"
  "cf_TLSCertFile demo_core = []" "cf_TLSKeyFile demo_core = []" "\<not> tc_Enabled (cf_Telemetry demo_core)"
  "in_unit (tc_TraceSampleRatio (cf_Telemetry demo_core))"
  "gw_Env demo_gateway = ''production''" "rc_URL (gw_Redis demo_gateway) = ''r''" "gw_Core demo_gateway = ''localhost:50051''"
  "gw_TLS demo_gateway = \<lparr>it_CertFile = [], it_KeyFile = [], it_CAFile = []\<rparr>" "gw_PublicKeyPEM demo_gateway = ''p''"
  "\<not> tc_Enabled (gw_Telemetry demo_gateway)" "in_unit (tc_TraceSampleRatio (gw_Telemetry demo_gateway))"
  by (simp_all only: demo_core_def demo_gateway_def core_settings_def gateway_settings_def load_redis_def load_telemetry_def
      core_cfg.select_convs gateway_cfg.select_convs redis_cfg.select_convs telemetry_cfg.select_convs
      demo_lookups simp_thms) (simp add: splitList_def)

lemma demo_settings:
  "core_config demo_boot = Inr demo_core" "gateway_config_of demo_boot = Inr demo_gateway"
proof -
  have "LoadDotenv (\<lambda>_. Missing) [] demo_vars = (Inr (), demo_vars)" by (simp add: LoadDotenv_def loadDotenvFile_def)
  moreover have "core_problems demo_core = []" "gateway_problems demo_gateway = []"
    by (simp_all add: core_problems_broken gateway_problems_broken broken_def core_demands_def gateway_demands_def not_blank)
  ultimately show "core_config demo_boot = Inr demo_core" "gateway_config_of demo_boot = Inr demo_gateway"
    by (simp_all add: core_config_def gateway_config_of_def core_Load_def gateway_Load_def demo_boot_def val_Err_def demo_core_def demo_gateway_def)
qed

lemma demo_served:
  "Opened GrpcServer \<in> set (ps_log (snd (RunServer demo_boot new_process)))"
  "Opened PublicServer \<in> set (ps_log (snd (gateway_Run demo_boot new_process)))"
proof -
  note steps = andThen_def opens_def telemetry_Init_def buildResource_def checked_def Manager_Register_def orDrain_def
    postgres_Connect_def newPool_def redis_Connect_def nats_Connect_def Let_def Manager_Run_log
  have env: "bo_resource demo_boot = None" "bo_prometheus demo_boot = None" "bo_pool demo_boot x = Up" "bo_redis demo_boot y = Up"
    "bo_nats demo_boot u v = Connected" "bo_end demo_boot = Interrupted" "bo_cel_env demo_boot = None"
    "bo_parse_private demo_boot k = Inr k" "bo_parse_public demo_boot k = Inr k" "bo_dial demo_boot k = None" for x y u v k
    by (simp_all add: demo_boot_def)
  obtain p where up: "boot_setup demo_boot [] new_process = (Inr (demo_core, if cf_StreamReplicas demo_core \<le> 0 then 1 else cf_StreamReplicas demo_core), p)"
    by (simp add: boot_setup_def demo_settings env steps core_pools_def)
  moreover have "new_server demo_boot demo_core p = (Inr (), p)" for p
    by (simp add: new_server_def loadTransportCredentials_def server_config_def withDefaults_def andThen_def Let_def)
  moreover obtain q where "buildModules demo_boot demo_core p = (Inr (), q)"
    by (simp add: buildModules_def buildSigner_def NewSigner_def NewChecker_def env andThen_def)
  moreover obtain q' where "load_policies demo_boot (snd (RegisterAll q)) = (Inr (), q')"
    using never_fails(2) [of demo_boot "snd (RegisterAll q)"] by (metis imageE prod.collapse unit.exhaust)
  ultimately show "Opened GrpcServer \<in> set (ps_log (snd (RunServer demo_boot new_process)))"
    by (simp add: RunServer_def orDrain_def andThen_def RegisterAll_def opens_def Manager_Register_def runUntilSignal_def env Manager_Run_log)
  show "Opened PublicServer \<in> set (ps_log (snd (gateway_Run demo_boot new_process)))"
    by (simp add: gateway_Run_def demo_settings env steps gateway_verifier_def NewVerifier_def NewProxy_def
        buildTransportCredentials_def tls_Enabled_def)
qed


lemma production_keys_are_configured_witness:
  "(\<exists>s. ps_signer (snd (RunServer demo_boot new_process)) = Some s \<and> sg_privateKey s = ''k'') \<and>
   (\<exists>key issuer. ps_verifier (snd (gateway_Run demo_boot new_process)) = Some (key, issuer) \<and> key = ''p'')"
proof -
  have prod: "core_IsProduction demo_core" "gateway_IsProduction demo_gateway"
    "bo_parse_private demo_boot (cf_PrivateKeyPEM demo_core) = Inr ''k''" "bo_parse_public demo_boot (gw_PublicKeyPEM demo_gateway) = Inr ''p''"
    by (simp_all add: core_IsProduction_def gateway_IsProduction_def, simp_all add: demo_boot_def)
  from production_keys_are_configured [of demo_boot] demo_served prod show ?thesis
    by (auto simp: demo_settings)
qed

definition demo_covers :: "string \<Rightarrow> string \<Rightarrow> bool" where
  "demo_covers pattern subject \<longleftrightarrow> (\<exists>pre rest. rest \<noteq> [] \<and> pattern = pre @ ''.>'' \<and> subject = pre @ ''.'' @ rest)"

lemma published_events_are_streamed_witness:
  "\<exists>p' st. EnsureStream demo_boot 1 coreStream coreStreamSubjects new_process = (Inr (), p') \<and> ps_streams p' coreStream = Some st \<and>
     (\<exists>pattern \<in> set (st_Subjects st). demo_covers pattern ''identity.user.password_changed'')"
proof -
  obtain p' where p': "EnsureStream demo_boot 1 coreStream coreStreamSubjects new_process = (Inr (), p')"
    by (simp add: EnsureStream_def Let_def checked_def andThen_def demo_boot_def)
  have "demo_covers (pre @ ''.>'') (pre @ ''.'' @ rest)" if "rest \<noteq> []" for pre rest
    using that by (auto simp: demo_covers_def)
  from published_events_are_streamed [of demo_covers, OF this p'] obtain st where
    st: "ps_streams p' coreStream = Some st"
      "\<exists>pattern \<in> set (st_Subjects st). demo_covers pattern (identity_Subject (PasswordChanged [] 0))"
    by blast
  then have "\<exists>pattern \<in> set (st_Subjects st). demo_covers pattern ''identity.user.password_changed''"
    by (simp only: identity_Subject.simps)
  with st(1) p' show ?thesis by blast
qed

lemma mounted_services_are_routed_witness:
  "Proxy_resolve ''/audit.v1.AuditService/ListEntries'' = Some ''core''"
proof -
  obtain p where p: "RegisterAll new_process = (Inr (), p)" and a: "''audit.v1.AuditService'' \<in> set (ps_services p)"
    by (simp add: RegisterAll_def)
  from mounted_services_are_routed [OF p a, of "''ListEntries''"] show ?thesis by simp
qed

end
