(* ===== verification/Cache.thy ===== *)
theory Cache
  imports Demo
begin

text \<open>
  The read-through cache (\<^verbatim>\<open>platform/cache\<close>): a process-local first tier over Redis, with one load
  per instance and key at a time. The first half is the code, operation by operation; the second
  lets the operations of several instances interleave. Ristretto, the first tier, may refuse an
  entry (\<open>ch_admit\<close>) and drop one at any time; the JSON codec is a parameter.
\<close>

section \<open>Options\<close>

record cache_options =
  co_L1MaxItems :: int
  co_L1TTL :: int
  co_L2 :: bool
  co_L2TTL :: int
  co_Prefix :: string

definition cache_withDefaults :: "cache_options \<Rightarrow> cache_options" where
  "cache_withDefaults o1 =
     (let o1 = (if co_L1MaxItems o1 \<le> 0 then o1\<lparr>co_L1MaxItems := 10000\<rparr> else o1);
          o1 = (if co_L1TTL o1 \<le> 0 then o1\<lparr>co_L1TTL := 60000000\<rparr> else o1)
      in if co_L2TTL o1 \<le> 0 then o1\<lparr>co_L2TTL := 15 * 60000000\<rparr> else o1)"

record 'v cache_lib =
  ch_Marshal :: "'v \<Rightarrow> rval option"
  ch_Unmarshal :: "rval \<Rightarrow> 'v option"
  ch_admit :: "nat \<Rightarrow> bool"

text \<open>\<open>New\<close>: the options the cache keeps; \<open>built\<close> is the error of the first tier's constructor.\<close>

definition cache_New :: "string option \<Rightarrow> cache_options \<Rightarrow> gerr + cache_options" where
  "cache_New built opts =
     (case built of Some err \<Rightarrow> Inl (Wrapped ''cache: build l1'' (External err))
      | None \<Rightarrow> Inr (cache_withDefaults opts))"

section \<open>The two tiers\<close>

type_synonym 'v l1 = "string \<rightharpoonup> 'v \<times> int"
type_synonym ('v, 'a) cache_act = "(world \<times> 'v l1, gerr, 'a) act"

definition in_world :: "(world, gerr, 'a) act \<Rightarrow> ('v, 'a) cache_act" where
  "in_world m = (\<lambda>(w, l). case m w of (r, w') \<Rightarrow> (r, w', l))"

text \<open>The first tier keeps the laws of an expiring store, like Redis.\<close>

definition l1_look :: "int \<Rightarrow> string \<Rightarrow> 'v l1 \<Rightarrow> 'v option" where
  "l1_look t k l = (case l k of None \<Rightarrow> None | Some (v, x) \<Rightarrow> if t < x then Some v else None)"

definition l1_put :: "int \<Rightarrow> string \<Rightarrow> 'v \<Rightarrow> int \<Rightarrow> 'v l1 \<Rightarrow> 'v l1" where
  "l1_put t k v ttl l = l(k \<mapsto> (v, t + ttl))"

definition l1_drop :: "string \<Rightarrow> 'v l1 \<Rightarrow> 'v l1" where
  "l1_drop k l = l(k := None)"

interpretation tier: expiring_store l1_look l1_put l1_drop
  by unfold_locales (simp_all add: l1_look_def l1_put_def l1_drop_def)

definition l1_Get :: "env \<Rightarrow> string \<Rightarrow> ('v, 'v option) cache_act" where
  "l1_Get E k = (\<lambda>(w, l). (Inr (l1_look (e_now E (w_step w)) k l), w\<lparr>w_step := Suc (w_step w)\<rparr>, l))"

definition l1_SetWithTTL :: "'v cache_lib \<Rightarrow> env \<Rightarrow> string \<Rightarrow> 'v \<Rightarrow> int \<Rightarrow> ('v, unit) cache_act" where
  "l1_SetWithTTL H E k v ttl = (\<lambda>(w, l).
     (Inr (), w\<lparr>w_step := Suc (w_step w)\<rparr>,
      if ch_admit H (w_step w) then l1_put (e_now E (w_step w)) k v ttl l else l))"

definition l1_Del :: "string \<Rightarrow> ('v, unit) cache_act" where
  "l1_Del k = modify (\<lambda>(w, l). (w, l1_drop k l))"

text \<open>Every failure of the second tier, down, missing or corrupt, is a miss.\<close>

definition fromL2 :: "'v cache_lib \<Rightarrow> cache_options \<Rightarrow> env \<Rightarrow> string \<Rightarrow> (world, gerr, 'v option) act" where
  "fromL2 H opts E k =
     (if \<not> co_L2 opts then ret None
      else andThen (attempt (redis_Get E (co_Prefix opts @ k))) (\<lambda>r.
        ret (case r of Inl err \<Rightarrow> None | Inr raw \<Rightarrow> ch_Unmarshal H raw)))"

definition toL2 :: "'v cache_lib \<Rightarrow> cache_options \<Rightarrow> env \<Rightarrow> string \<Rightarrow> 'v \<Rightarrow> (world, gerr, unit) act" where
  "toL2 H opts E k v =
     (if \<not> co_L2 opts then ret ()
      else case ch_Marshal H v of
        None \<Rightarrow> ret ()
      | Some raw \<Rightarrow> ignore (redis_Set E (co_Prefix opts @ k) raw (co_L2TTL opts)))"

section \<open>Operations\<close>

text \<open>What the leader of a flight does, and \<open>GetOrLoad\<close> when no flight of the key is under way.\<close>

definition cache_flight :: "'v cache_lib \<Rightarrow> cache_options \<Rightarrow> env \<Rightarrow> (string \<Rightarrow> (world, gerr, 'v) act) \<Rightarrow> string \<Rightarrow> ('v, 'v) cache_act" where
  "cache_flight H opts E load k =
     andThen (in_world (fromL2 H opts E k)) (\<lambda>found.
       case found of
         Some v \<Rightarrow> andThen (l1_SetWithTTL H E k v (co_L1TTL opts)) (\<lambda>_. ret v)
       | None \<Rightarrow>
           andThen (in_world (load k)) (\<lambda>v.
           andThen (l1_SetWithTTL H E k v (co_L1TTL opts)) (\<lambda>_.
           andThen (in_world (toL2 H opts E k v)) (\<lambda>_. ret v))))"

definition GetOrLoad :: "'v cache_lib \<Rightarrow> cache_options \<Rightarrow> env \<Rightarrow> (string \<Rightarrow> (world, gerr, 'v) act) \<Rightarrow> string \<Rightarrow> ('v, 'v) cache_act" where
  "GetOrLoad H opts E load k =
     andThen (l1_Get E k) (\<lambda>hit. case hit of Some v \<Rightarrow> ret v | None \<Rightarrow> cache_flight H opts E load k)"

definition cache_Invalidate :: "cache_options \<Rightarrow> env \<Rightarrow> string \<Rightarrow> ('v, unit) cache_act" where
  "cache_Invalidate opts E k =
     andThen (l1_Del k) (\<lambda>_.
       if co_L2 opts then in_world (ignore (redis_call E (\<lambda>t s. (Inr (), r_del (co_Prefix opts @ k) s)))) else ret ())"

section \<open>Many instances\<close>

text \<open>
  A flight has a leader, which goes through the phases, and waiters, who share its result. The
  miss that made a caller lead or join may lie in the past, so neither step looks at the first tier.
  \<open>fl_loads\<close> and \<open>fl_answers\<close> record what the loader returned and what callers got, and when.
\<close>

datatype 'v phase = Checking | Loading | Found 'v | Loaded 'v | Finished "gerr + 'v"

record 'v flight =
  ft_started :: int
  ft_phase :: "'v phase"
  ft_waiters :: nat

record 'v fleet =
  fl_world :: world
  fl_l1 :: "nat \<Rightarrow> 'v l1"
  fl_flights :: "nat \<times> string \<rightharpoonup> 'v flight"
  fl_loads :: "(string \<times> (gerr + 'v) \<times> int) list"
  fl_answers :: "(string \<times> (gerr + 'v) \<times> int) list"

abbreviation fl_now :: "env \<Rightarrow> 'v fleet \<Rightarrow> int" where
  "fl_now E s \<equiv> e_now E (w_step (fl_world s))"

text \<open>A phase of a flight ends within \<open>D\<close> of the flight's start.\<close>

definition timely :: "env \<Rightarrow> int \<Rightarrow> 'v flight \<Rightarrow> world \<Rightarrow> bool" where
  "timely E D f w \<longleftrightarrow> e_now E (w_step w) \<le> ft_started f + D"

definition advance :: "nat \<times> string \<Rightarrow> 'v flight \<Rightarrow> 'v phase \<Rightarrow> world \<Rightarrow> 'v fleet \<Rightarrow> 'v fleet" where
  "advance ik f ph w s = s\<lparr>fl_world := w, fl_flights := (fl_flights s)(ik \<mapsto> f\<lparr>ft_phase := ph\<rparr>)\<rparr>"

inductive fleet_step ::
  "'v cache_lib \<Rightarrow> cache_options \<Rightarrow> env \<Rightarrow> (string \<Rightarrow> (world, gerr, 'v) act) \<Rightarrow> int \<Rightarrow> 'v fleet \<Rightarrow> 'v fleet \<Rightarrow> bool"
  for H opts E load D where
  hit: "l1_Get E k (fl_world s, fl_l1 s i) = (Inr (Some v), w', l') \<Longrightarrow>
    fleet_step H opts E load D s (s\<lparr>fl_world := w', fl_answers := (k, Inr v, fl_now E s) # fl_answers s\<rparr>)"
| lead: "fl_flights s (i, k) = None \<Longrightarrow>
    fleet_step H opts E load D s (s\<lparr>fl_flights := (fl_flights s)((i, k) \<mapsto>
      \<lparr>ft_started = fl_now E s, ft_phase = Checking, ft_waiters = 0\<rparr>)\<rparr>)"
| join: "fl_flights s (i, k) = Some f \<Longrightarrow>
    fleet_step H opts E load D s (s\<lparr>fl_flights := (fl_flights s)((i, k) \<mapsto> f\<lparr>ft_waiters := Suc (ft_waiters f)\<rparr>)\<rparr>)"
| look: "fl_flights s (i, k) = Some f \<Longrightarrow> ft_phase f = Checking \<Longrightarrow> fromL2 H opts E k (fl_world s) = (Inr r, w') \<Longrightarrow>
    timely E D f w' \<Longrightarrow>
    fleet_step H opts E load D s (advance (i, k) f (case r of Some v \<Rightarrow> Found v | None \<Rightarrow> Loading) w' s)"
| loads: "fl_flights s (i, k) = Some f \<Longrightarrow> ft_phase f = Loading \<Longrightarrow> load k (fl_world s) = (r, w') \<Longrightarrow> timely E D f w' \<Longrightarrow>
    fleet_step H opts E load D s ((advance (i, k) f (case r of Inl e \<Rightarrow> Finished (Inl e) | Inr v \<Rightarrow> Loaded v) w' s)
      \<lparr>fl_loads := (k, r, fl_now E s) # fl_loads s\<rparr>)"
| store_found: "fl_flights s (i, k) = Some f \<Longrightarrow> ft_phase f = Found v \<Longrightarrow>
    l1_SetWithTTL H E k v (co_L1TTL opts) (fl_world s, fl_l1 s i) = (Inr (), w', l') \<Longrightarrow> timely E D f w' \<Longrightarrow>
    fleet_step H opts E load D s ((advance (i, k) f (Finished (Inr v)) w' s)\<lparr>fl_l1 := (fl_l1 s)(i := l')\<rparr>)"
| store_loaded: "fl_flights s (i, k) = Some f \<Longrightarrow> ft_phase f = Loaded v \<Longrightarrow>
    l1_SetWithTTL H E k v (co_L1TTL opts) (fl_world s, fl_l1 s i) = (Inr (), w1, l') \<Longrightarrow>
    toL2 H opts E k v w1 = (Inr (), w') \<Longrightarrow> timely E D f w' \<Longrightarrow>
    fleet_step H opts E load D s ((advance (i, k) f (Finished (Inr v)) w' s)\<lparr>fl_l1 := (fl_l1 s)(i := l')\<rparr>)"
| finish: "fl_flights s (i, k) = Some f \<Longrightarrow> ft_phase f = Finished r \<Longrightarrow> timely E D f (fl_world s) \<Longrightarrow>
    fleet_step H opts E load D s (s\<lparr>fl_flights := (fl_flights s)((i, k) := None),
      fl_answers := replicate (Suc (ft_waiters f)) (k, r, fl_now E s) @ fl_answers s\<rparr>)"
| invalidate: "cache_Invalidate opts E k (fl_world s, fl_l1 s i) = (Inr (), w', l') \<Longrightarrow>
    fleet_step H opts E load D s (s\<lparr>fl_world := w', fl_l1 := (fl_l1 s)(i := l')\<rparr>)"
| evict: "fleet_step H opts E load D s (s\<lparr>fl_l1 := (fl_l1 s)(i := (fl_l1 s i)(k := None))\<rparr>)"
| others: "w_step (fl_world s) \<le> w_step w' \<Longrightarrow> (\<And>k. w_redis w' (co_Prefix opts @ k) = w_redis (fl_world s) (co_Prefix opts @ k)) \<Longrightarrow>
    fleet_step H opts E load D s (s\<lparr>fl_world := w'\<rparr>)"

abbreviation fleet_run ::
  "'v cache_lib \<Rightarrow> cache_options \<Rightarrow> env \<Rightarrow> (string \<Rightarrow> (world, gerr, 'v) act) \<Rightarrow> int \<Rightarrow> 'v fleet \<Rightarrow> 'v fleet \<Rightarrow> bool" where
  "fleet_run H opts E load D \<equiv> (fleet_step H opts E load D)\<^sup>*\<^sup>*"

definition cold_fleet :: "world \<Rightarrow> 'v fleet" where
  "cold_fleet w = \<lparr>fl_world = w, fl_l1 = (\<lambda>_. Map.empty), fl_flights = Map.empty, fl_loads = [], fl_answers = []\<rparr>"

section \<open>What the cache relies on\<close>

text \<open>The loader and the codec: loading leaves the cache's keys alone, and decoding inverts encoding.\<close>

definition good_loader :: "cache_options \<Rightarrow> (string \<Rightarrow> (world, gerr, 'v) act) \<Rightarrow> bool" where
  "good_loader opts load \<longleftrightarrow> (\<forall>k w. w_step w \<le> w_step (snd (load k w)) \<and>
     (\<forall>k'. w_redis (snd (load k w)) (co_Prefix opts @ k') = w_redis w (co_Prefix opts @ k')))"

definition lossless :: "'v cache_lib \<Rightarrow> bool" where
  "lossless H \<longleftrightarrow> (\<forall>v raw. ch_Marshal H v = Some raw \<longrightarrow> ch_Unmarshal H raw = Some v)"

section \<open>Freshness\<close>

definition l1_ok :: "(string \<times> (gerr + 'v) \<times> int) set \<Rightarrow> int \<Rightarrow> 'v l1 \<Rightarrow> bool" where
  "l1_ok L b l \<longleftrightarrow> (\<forall>k v x. l k = Some (v, x) \<longrightarrow> (\<exists>t. (k, Inr v, t) \<in> L \<and> x \<le> t + b))"

definition l2_ok :: "'v cache_lib \<Rightarrow> cache_options \<Rightarrow> (string \<times> (gerr + 'v) \<times> int) set \<Rightarrow> int \<Rightarrow> redis \<Rightarrow> bool" where
  "l2_ok H opts L b r \<longleftrightarrow> (co_L2 opts \<longrightarrow> (\<forall>k raw e v. r (co_Prefix opts @ k) = Some (raw, e) \<longrightarrow> ch_Unmarshal H raw = Some v \<longrightarrow>
     (\<exists>x t. e = Some x \<and> (k, Inr v, t) \<in> L \<and> x \<le> t + b)))"

fun flight_ok :: "(string \<times> (gerr + 'v) \<times> int) set \<Rightarrow> int \<Rightarrow> string \<Rightarrow> int \<Rightarrow> 'v phase \<Rightarrow> bool" where
  "flight_ok L b k started Checking = True"
| "flight_ok L b k started Loading = True"
| "flight_ok L b k started (Found v) = (\<exists>t. (k, Inr v, t) \<in> L \<and> started \<le> t + b)"
| "flight_ok L b k started (Loaded v) = (\<exists>t. (k, Inr v, t) \<in> L \<and> started \<le> t)"
| "flight_ok L b k started (Finished r) = (\<exists>t. (k, r, t) \<in> L \<and> started \<le> t + b)"

definition flights_ok :: "(string \<times> (gerr + 'v) \<times> int) set \<Rightarrow> int \<Rightarrow> int \<Rightarrow> (nat \<times> string \<rightharpoonup> 'v flight) \<Rightarrow> bool" where
  "flights_ok L b now fs \<longleftrightarrow> (\<forall>i k f. fs (i, k) = Some f \<longrightarrow> ft_started f \<le> now \<and> flight_ok L b k (ft_started f) (ft_phase f))"

definition answers_ok :: "(string \<times> (gerr + 'v) \<times> int) set \<Rightarrow> int \<Rightarrow> (string \<times> (gerr + 'v) \<times> int) list \<Rightarrow> bool" where
  "answers_ok L b as \<longleftrightarrow> (\<forall>k r T. (k, r, T) \<in> set as \<longrightarrow> (\<exists>t. (k, r, t) \<in> L \<and> T \<le> t + b))"

definition fleet_inv :: "'v cache_lib \<Rightarrow> cache_options \<Rightarrow> env \<Rightarrow> int \<Rightarrow> 'v fleet \<Rightarrow> bool" where
  "fleet_inv H opts E D s \<longleftrightarrow> (let L = set (fl_loads s); b2 = D + co_L2TTL opts; b1 = D + co_L1TTL opts + b2 in
     (\<forall>i. l1_ok L b1 (fl_l1 s i)) \<and> l2_ok H opts L b2 (w_redis (fl_world s)) \<and>
     flights_ok L b2 (fl_now E s) (fl_flights s) \<and> answers_ok L b1 (fl_answers s))"

lemma oks_mono:
  "l1_ok L b l \<Longrightarrow> L \<subseteq> L' \<Longrightarrow> l1_ok L' b l"
  "l2_ok H opts L b r \<Longrightarrow> L \<subseteq> L' \<Longrightarrow> l2_ok H opts L' b r"
  "flight_ok L b k st ph \<Longrightarrow> L \<subseteq> L' \<Longrightarrow> flight_ok L' b k st ph"
proof -
  show "l1_ok L b l \<Longrightarrow> L \<subseteq> L' \<Longrightarrow> l1_ok L' b l" unfolding l1_ok_def by blast
  show "l2_ok H opts L b r \<Longrightarrow> L \<subseteq> L' \<Longrightarrow> l2_ok H opts L' b r" unfolding l2_ok_def by blast
  show "flight_ok L b k st ph \<Longrightarrow> L \<subseteq> L' \<Longrightarrow> flight_ok L' b k st ph" by (cases ph) auto
qed

text \<open>What each operation does to the world's clock, to Redis and to the first tier.\<close>

lemma l1_Get_effect:
  assumes "l1_Get E k (w, l) = (Inr r, w', l')"
  shows "w_step w' = Suc (w_step w)" "w_redis w' = w_redis w" "l' = l"
    and "r = Some v \<Longrightarrow> \<exists>x. l k = Some (v, x) \<and> e_now E (w_step w) < x"
  using assms by (auto simp: l1_Get_def l1_look_def split: option.splits if_splits)

lemma l1_Set_effect:
  assumes "l1_SetWithTTL H E k v ttl (w, l) = (Inr (), w', l')"
  shows "w_step w' = Suc (w_step w)" "w_redis w' = w_redis w" "l' = l \<or> l' = l(k \<mapsto> (v, e_now E (w_step w) + ttl))"
  using assms by (auto simp: l1_SetWithTTL_def l1_put_def split: if_splits)

lemma fromL2_effect:
  assumes "fromL2 H opts E k w = (Inr r, w')"
  shows "w_step w \<le> w_step w'" "w_redis w' = w_redis w"
    and "r = Some v \<Longrightarrow> co_L2 opts \<and> (\<exists>raw. r_get (e_now E (w_step w)) (co_Prefix opts @ k) (w_redis w) = Some raw \<and>
       ch_Unmarshal H raw = Some v)"
  using assms
  by (auto simp: fromL2_def redis_Get_def redis_call_def Let_def andThen_def attempt_def
      split: if_splits option.splits sum.splits prod.splits)

lemma toL2_effect:
  assumes "toL2 H opts E k v w = (Inr (), w')" and "0 < co_L2TTL opts"
  shows "w_step w \<le> w_step w'"
    and "w_redis w' = w_redis w \<or> co_L2 opts \<and> (\<exists>raw. ch_Marshal H v = Some raw \<and>
      w_redis w' = (w_redis w)(co_Prefix opts @ k \<mapsto> (raw, Some (e_now E (w_step w) + co_L2TTL opts))))"
  using assms
  by (auto simp: toL2_def redis_Set_def redis_call_def r_set_def Let_def split: if_splits option.splits)

lemma Invalidate_effect:
  assumes "cache_Invalidate opts E k (w, l) = (Inr (), w', l')"
  shows "w_step w \<le> w_step w'" "l' = l(k := None)"
    "w_redis w' = w_redis w \<or> w_redis w' = (w_redis w)(co_Prefix opts @ k := None)"
  using assms
  by (auto simp: cache_Invalidate_def l1_Del_def l1_drop_def in_world_def redis_call_def r_del_def Let_def andThen_def
      split: if_splits option.splits prod.splits)

lemma flights_upd:
  assumes "flights_ok L b now fs" and "now \<le> now'" and "ft_started f \<le> now'" and "flight_ok L b k (ft_started f) (ft_phase f)"
  shows "flights_ok L b now' (fs((i, k) \<mapsto> f))"
  using assms unfolding flights_ok_def by (auto intro: order_trans)

lemma flights_keep: "flights_ok L b now fs \<Longrightarrow> now \<le> now' \<Longrightarrow> flights_ok L b now' fs"
  unfolding flights_ok_def by (auto intro: order_trans)

lemma l1_ok_upd:
  "l1_ok L b l \<Longrightarrow> (k, Inr v, t) \<in> L \<Longrightarrow> x \<le> t + b \<Longrightarrow> l1_ok L b (l(k \<mapsto> (v, x)))"
  "l1_ok L b l \<Longrightarrow> l1_ok L b (l(k := None))"
  by (auto simp: l1_ok_def)

lemma l2_ok_upd:
  "l2_ok H opts L b r \<Longrightarrow> lossless H \<Longrightarrow> ch_Marshal H v = Some raw \<Longrightarrow> (k, Inr v, t) \<in> L \<Longrightarrow> x \<le> t + b \<Longrightarrow>
     l2_ok H opts L b (r(co_Prefix opts @ k \<mapsto> (raw, Some x)))"
  "l2_ok H opts L b r \<Longrightarrow> l2_ok H opts L b (r(co_Prefix opts @ k := None))"
proof -
  assume "l2_ok H opts L b r" "lossless H" "ch_Marshal H v = Some raw" "(k, Inr v, t) \<in> L" "x \<le> t + b"
  then show "l2_ok H opts L b (r(co_Prefix opts @ k \<mapsto> (raw, Some x)))"
    unfolding l2_ok_def lossless_def by (auto split: if_splits)
qed (simp add: l2_ok_def)

lemma l2_read:
  assumes "l2_ok H opts L b r" and "co_L2 opts" and "r_get t (co_Prefix opts @ k) r = Some raw" and "ch_Unmarshal H raw = Some v"
  shows "\<exists>t0. (k, Inr v, t0) \<in> L \<and> t \<le> t0 + b"
proof -
  from assms(3) obtain e where e: "r (co_Prefix opts @ k) = Some (raw, e)" "\<And>x. e = Some x \<Longrightarrow> t < x"
    by (auto simp: r_get_def split: option.splits if_splits prod.splits)
  with assms(1,2,4) obtain x t0 where "e = Some x" "(k, Inr v, t0) \<in> L" "x \<le> t0 + b" unfolding l2_ok_def by blast
  with e(2) show ?thesis by force
qed

lemma fleet_step_inv:
  assumes "fleet_step H opts E load D s s'" and "fleet_inv H opts E D s"
    and m: "mono (e_now E)" and D: "0 \<le> D" and ttl: "0 < co_L1TTL opts" "0 < co_L2TTL opts"
    and loader: "good_loader opts load" and codec: "lossless H"
  shows "fleet_inv H opts E D s'"
proof -
  define b2 where "b2 = D + co_L2TTL opts"
  define b1 where "b1 = D + co_L1TTL opts + b2"
  let ?L = "set (fl_loads s)"
  have later: "e_now E n \<le> e_now E n'" if "n \<le> n'" for n n' using m that by (rule monoD)
  have l1: "\<And>i. l1_ok ?L b1 (fl_l1 s i)" and l2: "l2_ok H opts ?L b2 (w_redis (fl_world s))"
    and fs: "flights_ok ?L b2 (fl_now E s) (fl_flights s)" and an: "answers_ok ?L b1 (fl_answers s)"
    using assms(2) by (simp_all add: fleet_inv_def Let_def b1_def b2_def)
  have inv: "fleet_inv H opts E D s'"
    if "\<And>i. l1_ok (set (fl_loads s')) b1 (fl_l1 s' i)" "l2_ok H opts (set (fl_loads s')) b2 (w_redis (fl_world s'))"
      "flights_ok (set (fl_loads s')) b2 (fl_now E s') (fl_flights s')" "answers_ok (set (fl_loads s')) b1 (fl_answers s')" for s' :: "'a fleet"
    using that by (simp add: fleet_inv_def Let_def b1_def b2_def)
  have fl: "ft_started f \<le> fl_now E s \<and> flight_ok ?L b2 k (ft_started f) (ft_phase f)" if "fl_flights s (i, k) = Some f" for i k f
    using fs that unfolding flights_ok_def by blast
  from assms(1) show ?thesis
  proof (cases rule: fleet_step.cases)
    case (hit k i v w' l')
    note e = l1_Get_effect [OF hit(2)]
    from e(4) [OF refl] l1 [of i] obtain t where "(k, Inr v, t) \<in> ?L" "fl_now E s \<le> t + b1" unfolding l1_ok_def by force
    with an have "answers_ok ?L b1 ((k, Inr v, fl_now E s) # fl_answers s)" by (auto simp: answers_ok_def)
    with hit e l1 l2 flights_keep [OF fs later] show ?thesis by (intro inv) simp_all
  next
    case (lead i k)
    with l1 l2 an flights_upd [OF fs order_refl] show ?thesis by (intro inv) simp_all
  next
    case (join i k f)
    with l1 l2 an flights_upd [OF fs order_refl] fl [OF join(2)] show ?thesis by (intro inv) simp_all
  next
    case (look i k f r w')
    note e = fromL2_effect [OF look(4)]
    have "flight_ok ?L b2 k (ft_started f) (case r of Some v \<Rightarrow> Found v | None \<Rightarrow> Loading)"
    proof (cases r)
      case (Some v)
      from e(3) [OF this] l2_read [OF l2] fl [OF look(2)] show ?thesis using Some by force
    qed simp
    with look e l1 l2 an fl [OF look(2)] later [OF e(1)] show ?thesis
      by (intro inv) (auto simp: advance_def intro!: flights_upd [OF fs] intro: order_trans)
  next
    case (loads i k f r w')
    have e: "w_step (fl_world s) \<le> w_step w'" "\<And>k. w_redis w' (co_Prefix opts @ k) = w_redis (fl_world s) (co_Prefix opts @ k)"
      using loader loads(4) unfolding good_loader_def by (metis snd_conv)+
    let ?L' = "insert (k, r, fl_now E s) ?L"
    have sub: "?L \<subseteq> ?L'" by blast
    have "flight_ok ?L' b2 k (ft_started f) (case r of Inl e \<Rightarrow> Finished (Inl e) | Inr v \<Rightarrow> Loaded v)"
      using fl [OF loads(2)] D ttl by (auto simp: b2_def split: sum.split intro!: exI [of _ "fl_now E s"])
    moreover have "flights_ok ?L' b2 (fl_now E s) (fl_flights s)" using fs oks_mono(3) [OF _ sub] unfolding flights_ok_def by blast
    moreover have "l2_ok H opts ?L' b2 (w_redis w')" using oks_mono(2) [OF l2 sub] by (simp add: l2_ok_def e(2))
    moreover have "answers_ok ?L' b1 (fl_answers s)" using an unfolding answers_ok_def by blast
    ultimately show ?thesis using loads(1) l1 [THEN oks_mono(1) [OF _ sub]] fl [OF loads(2)] later [OF e(1)]
      by (intro inv) (auto simp: advance_def intro!: flights_upd intro: order_trans)
  next
    case (store_found i k f v w' l')
    note e = l1_Set_effect [OF store_found(4)]
    from fl [OF store_found(2)] store_found(3) obtain t where t: "(k, Inr v, t) \<in> ?L" "ft_started f \<le> t + b2" by auto
    have "fl_now E s \<le> e_now E (w_step w')" using e(1) by (intro later) simp
    with store_found(5) have "fl_now E s + co_L1TTL opts \<le> t + b1" using t(2) by (simp add: timely_def b1_def)
    with e(3) l1 t(1) have "l1_ok ?L b1 l'" by (auto intro: l1_ok_upd)
    then show ?thesis using store_found(1) e t l1 l2 an fl [OF store_found(2)] later [of "w_step (fl_world s)" "w_step w'"]
      by (intro inv) (auto simp: advance_def intro!: flights_upd [OF fs] intro: order_trans)
  next
    case (store_loaded i k f v w1 l' w')
    note e = l1_Set_effect [OF store_loaded(4)] and e2 = toL2_effect [OF store_loaded(5) ttl(2)]
    from fl [OF store_loaded(2)] store_loaded(3) obtain t where t: "(k, Inr v, t) \<in> ?L" "ft_started f \<le> t" by auto
    have now: "fl_now E s \<le> e_now E (w_step w1)" "e_now E (w_step w1) \<le> e_now E (w_step w')"
      using e(1) e2(1) by (auto intro: later)
    with store_loaded(6) t(2) have "fl_now E s + co_L1TTL opts \<le> t + b1" "e_now E (w_step w1) + co_L2TTL opts \<le> t + b2"
      using D ttl by (simp_all add: timely_def b1_def b2_def)
    with e(3) l1 t(1) e2(2) e(2) l2 codec have "l1_ok ?L b1 l'" "l2_ok H opts ?L b2 (w_redis w')"
      by (auto intro: l1_ok_upd l2_ok_upd)
    moreover have "ft_started f \<le> t + b2" using t(2) D ttl by (simp add: b2_def)
    ultimately show ?thesis using store_loaded(1) t(1) l1 an fl [OF store_loaded(2)] now
      by (intro inv) (auto simp: advance_def intro!: flights_upd [OF fs])
  next
    case (finish i k f r)
    from fl [OF finish(2)] finish(3) obtain t where t: "(k, r, t) \<in> ?L" "ft_started f \<le> t + b2" by auto
    have "fl_now E s \<le> t + b1" using finish(4) t(2) ttl by (simp add: timely_def b1_def)
    with an t(1) have "answers_ok ?L b1 (replicate (Suc (ft_waiters f)) (k, r, fl_now E s) @ fl_answers s)"
      by (auto simp: answers_ok_def)
    moreover have "flights_ok ?L b2 (fl_now E s) ((fl_flights s)((i, k) := None))" using fs by (simp add: flights_ok_def)
    ultimately show ?thesis using finish(1) l1 l2 by (intro inv) simp_all
  next
    case (invalidate k i w' l')
    note e = Invalidate_effect [OF invalidate(2)]
    have "l2_ok H opts ?L b2 (w_redis w')" using e(3) l2 by (auto intro: l2_ok_upd)
    with invalidate(1) e l1 an flights_keep [OF fs later] show ?thesis by (intro inv) (auto intro: l1_ok_upd)
  next
    case (evict i k)
    with l1 l2 fs an show ?thesis by (intro inv) (auto intro: l1_ok_upd)
  next
    case (others w')
    have "l2_ok H opts ?L b2 (w_redis w')" using l2 by (simp add: l2_ok_def others(3))
    with others(1,2) l1 an flights_keep [OF fs later] show ?thesis by (intro inv) simp_all
  qed
qed

lemma fleet_run_inv:
  assumes "fleet_run H opts E load D s s'" and "fleet_inv H opts E D s"
    and "mono (e_now E)" and "0 \<le> D" and "0 < co_L1TTL opts" and "0 < co_L2TTL opts" and "good_loader opts load" and "lossless H"
  shows "fleet_inv H opts E D s'"
  using assms by (induction rule: rtranclp_induct) (blast dest: fleet_step_inv)+

lemma cold_inv: "(\<And>k. w_redis w (co_Prefix opts @ k) = None) \<Longrightarrow> fleet_inv H opts E D (cold_fleet w)"
  by (simp add: fleet_inv_def cold_fleet_def l1_ok_def l2_ok_def flights_ok_def answers_ok_def)

lemma New_positive:
  "cache_New b o0 = Inr opts \<Longrightarrow> 0 < co_L1TTL opts \<and> 0 < co_L2TTL opts \<and> 0 < co_L1MaxItems opts"
  by (auto simp: cache_New_def cache_withDefaults_def Let_def split: option.splits)

section \<open>Properties\<close>

text \<open>
  C17. The cache answers what the loader answered, and not for long. Let any number of instances
  look up, load, store, evict and invalidate in any order, with Redis failing at any call, and let a flight
  last at most \<open>D\<close>. Every answer for a key, a value or an error, is what the loader returned for
  that very key, at most both tiers' lifetimes and two flights before. No failure of Redis surfaces.
\<close>

theorem cache_answers_are_loads:
  assumes "cache_New None o0 = Inr opts" and "mono (e_now E)" and "0 \<le> D" and "good_loader opts load" and "lossless H"
    and "\<And>k. w_redis w (co_Prefix opts @ k) = None"
    and "fleet_run H opts E load D (cold_fleet w) s" and "(k, r, T) \<in> set (fl_answers s)"
  shows "\<exists>t. (k, r, t) \<in> set (fl_loads s) \<and> T \<le> t + co_L1TTL opts + co_L2TTL opts + 2 * D"
proof -
  have "fleet_inv H opts E D s"
    using fleet_run_inv [OF assms(7) cold_inv [OF assms(6)] assms(2,3)] New_positive [OF assms(1)] assms(4,5) by blast
  with assms(8) show ?thesis by (force simp: fleet_inv_def Let_def answers_ok_def)
qed

text \<open>
  Invalidation is effective. After \<open>Invalidate\<close> with Redis reachable, the next \<open>GetOrLoad\<close> of the
  key asks the loader again and answers what it returns, error or value; and whatever Redis does,
  a lookup that fails has failed in the loader.
\<close>

theorem invalidate_forces_reload:
  assumes "cache_Invalidate opts E k (w, l) = (Inr (), w1, l1)" and "\<And>n. e_redis E n = None"
  shows "\<exists>w2. w_redis w2 = w_redis w1 \<and> fst (GetOrLoad H opts E load k (w1, l1)) = fst (load k w2)"
proof -
  have l: "l1 = l1_drop k l" and r: "co_L2 opts \<Longrightarrow> w_redis w1 = r_del (co_Prefix opts @ k) (w_redis w)"
    using assms by (auto simp: cache_Invalidate_def l1_Del_def in_world_def redis_call_def Let_def andThen_def
        split: if_splits prod.splits)
  define w1' where "w1' = w1\<lparr>w_step := Suc (w_step w1)\<rparr>"
  have "fst (fromL2 H opts E k w1') = Inr None" "w_redis (snd (fromL2 H opts E k w1')) = w_redis w1"
    using r assms(2) by (simp_all add: fromL2_def redis_Get_def redis_call_def Let_def andThen_def attempt_def w1'_def rs.get_del)
  then obtain w2 where w2: "fromL2 H opts E k w1' = (Inr None, w2)" "w_redis w2 = w_redis w1"
    by (metis prod.collapse)
  obtain q w3 where q: "load k w2 = (q, w3)" by fastforce
  have "fst (cache_flight H opts E load k (w1', l1)) = q"
    using w2(1) q by (cases q) (simp_all add: cache_flight_def in_world_def andThen_def l1_SetWithTTL_def toL2_def
        attempt_def split: option.splits)
  then show ?thesis using w2(2) l q by (intro exI [of _ w2]) (simp add: GetOrLoad_def l1_Get_def tier.get_del andThen_def w1'_def)
qed

text \<open>
  A value read from the second tier lives a whole first-tier lifetime more, so instances can lag
  the source by the sum of both, not by the second tier's alone.
\<close>

lemma l2_hit_lives_on:
  assumes "r_get (e_now E (Suc (w_step w))) (co_Prefix opts @ k) (w_redis w) = Some raw" and "ch_Unmarshal H raw = Some v"
    and "co_L2 opts" and "l k = None" and "\<And>n. e_redis E n = None" and "\<And>n. ch_admit H n"
  shows "\<exists>w' l'. GetOrLoad H opts E load k (w, l) = (Inr v, w', l') \<and>
    l' k = Some (v, e_now E (Suc (Suc (w_step w))) + co_L1TTL opts)"
  using assms
  by (simp add: GetOrLoad_def l1_Get_def l1_look_def l1_put_def cache_flight_def fromL2_def redis_Get_def redis_call_def in_world_def andThen_def
      attempt_def l1_SetWithTTL_def Let_def)

text \<open>A value loaded before an invalidation is stored after it when its flight was under way.\<close>

lemma flight_outlives_invalidation:
  assumes "fl_flights s (i, k) = Some f" and "ft_phase f = Loaded v" and "\<not> co_L2 opts" and "\<And>n. ch_admit H n"
    and "e_now E (Suc (w_step (fl_world s))) \<le> ft_started f + D"
  shows "\<exists>s1 s2 x. fleet_step H opts E load D s s1 \<and> fl_l1 s1 i k = None \<and> fleet_step H opts E load D s1 s2 \<and>
    fl_l1 s2 i k = Some (v, x)"
proof -
  let ?s1 = "s\<lparr>fl_world := fl_world s, fl_l1 := (fl_l1 s)(i := (fl_l1 s i)(k := None))\<rparr>"
  let ?w = "(fl_world s)\<lparr>w_step := Suc (w_step (fl_world s))\<rparr>"
  let ?x = "e_now E (w_step (fl_world s)) + co_L1TTL opts"
  let ?s2 = "(advance (i, k) f (Finished (Inr v)) ?w ?s1)\<lparr>fl_l1 := (fl_l1 ?s1)(i := (fl_l1 ?s1 i)(k \<mapsto> (v, ?x)))\<rparr>"
  have "fleet_step H opts E load D s ?s1"
    by (rule fleet_step.invalidate) (simp add: cache_Invalidate_def l1_Del_def l1_drop_def andThen_def assms(3))
  moreover have "fleet_step H opts E load D ?s1 ?s2"
    by (rule fleet_step.store_loaded [of _ _ _ f]) (simp_all add: assms l1_SetWithTTL_def l1_put_def toL2_def timely_def)
  ultimately show ?thesis by (intro exI [of _ ?s1] exI [of _ ?s2] exI [of _ ?x]) simp
qed

section \<open>A run\<close>

definition demo_cache :: "string cache_lib" where
  "demo_cache = \<lparr>ch_Marshal = (\<lambda>v. Some (RStr v)), ch_Unmarshal = (\<lambda>r. case r of RStr v \<Rightarrow> Some v | _ \<Rightarrow> None), ch_admit = (\<lambda>_. True)\<rparr>"

definition demo_load :: "string \<Rightarrow> (world, gerr, string) act" where
  "demo_load k = ret (''value of '' @ k)"

definition demo_cache_opts :: cache_options where
  "demo_cache_opts = \<lparr>co_L1MaxItems = 10000, co_L1TTL = 60000000, co_L2 = True, co_L2TTL = 900000000, co_Prefix = ''storefront:''\<rparr>"

lemma demo_cache_opts: "cache_New None (demo_cache_opts\<lparr>co_L1MaxItems := 0, co_L1TTL := 0, co_L2TTL := -1\<rparr>) = Inr demo_cache_opts"
  by (simp add: cache_New_def cache_withDefaults_def demo_cache_opts_def Let_def)

lemma cache_answers_are_loads_witness:
  "\<exists>s T t. fleet_run demo_cache demo_cache_opts demo_env demo_load 1000000 (cold_fleet (demo_world empty_db)) s \<and>
     (''k'', Inr ''value of k'', T) \<in> set (fl_answers s) \<and> (''k'', Inr ''value of k'', t) \<in> set (fl_loads s) \<and>
     T \<le> t + 962000000"
proof -
  let ?step = "fleet_step demo_cache demo_cache_opts demo_env demo_load 1000000"
  let ?w = "demo_world empty_db" and ?f = "\<lparr>ft_started = 1700000000000000, ft_phase = Checking, ft_waiters = 0\<rparr> :: string flight"
  let ?s0 = "cold_fleet ?w :: string fleet"
  have now: "e_now demo_env n = 1700000000000000 + int n" "e_redis demo_env n = None" for n by (simp_all add: demo_env_def)
  have w: "w_step ?w = 0" "w_redis ?w = Map.empty" by (simp_all add: demo_world_def)
  obtain s1 where s1: "?step ?s0 s1" "fl_flights s1 (0, ''k'') = Some ?f" "fl_world s1 = ?w"
    using fleet_step.lead [of ?s0 0 "''k''" demo_cache demo_cache_opts demo_env demo_load 1000000]
    by (simp add: cold_fleet_def now w)
  let ?w1 = "?w\<lparr>w_step := 1\<rparr>"
  have "fromL2 demo_cache demo_cache_opts demo_env ''k'' ?w = (Inr None, ?w1)"
    by (simp add: fromL2_def demo_cache_opts_def redis_Get_def redis_call_def now w r_get_def attempt_def andThen_def Let_def)
  then obtain s2 where s2: "?step s1 s2" "fl_flights s2 (0, ''k'') = Some (?f\<lparr>ft_phase := Loading\<rparr>)" "fl_world s2 = ?w1"
    using fleet_step.look [OF s1(2), of demo_cache demo_cache_opts demo_env None ?w1 1000000 demo_load] s1(3)
    by (simp add: advance_def timely_def now w)
  obtain s3 where s3: "?step s2 s3" "fl_flights s3 (0, ''k'') = Some (?f\<lparr>ft_phase := Loaded ''value of k''\<rparr>)" "fl_world s3 = ?w1"
    using fleet_step.loads [OF s2(2), of demo_load "Inr ''value of k''" ?w1 demo_env 1000000 demo_cache demo_cache_opts] s2(3)
    by (simp add: advance_def timely_def now demo_load_def ret_def)
  have "l1_SetWithTTL demo_cache demo_env ''k'' ''value of k'' (co_L1TTL demo_cache_opts) (fl_world s3, fl_l1 s3 0) =
      (Inr (), ?w\<lparr>w_step := 2\<rparr>, (fl_l1 s3 0)(''k'' \<mapsto> (''value of k'', 1700000060000001)))"
    by (simp add: l1_SetWithTTL_def l1_put_def s3(3) demo_cache_def now demo_cache_opts_def)
  moreover obtain w4 where "toL2 demo_cache demo_cache_opts demo_env ''k'' ''value of k'' (?w\<lparr>w_step := 2\<rparr>) = (Inr (), w4)" "w_step w4 = 3"
    by (simp add: toL2_def demo_cache_opts_def demo_cache_def redis_Set_def redis_call_def now Let_def)
  ultimately obtain s4 where s4: "?step s3 s4" "fl_flights s4 (0, ''k'') = Some (?f\<lparr>ft_phase := Finished (Inr ''value of k'')\<rparr>)"
      "w_step (fl_world s4) = 3"
    using fleet_step.store_loaded [OF s3(2), of "''value of k''" demo_cache demo_env demo_cache_opts, of _ _ w4 1000000 demo_load]
    by (simp add: advance_def timely_def now)
  let ?T = 1700000000000003
  obtain s5 where s5: "?step s4 s5" "fl_answers s5 = (''k'', Inr ''value of k'', ?T) # fl_answers s4"
    using fleet_step.finish [OF s4(2), of "Inr ''value of k''" demo_env 1000000 demo_cache demo_cache_opts demo_load] s4(3)
    by (simp add: timely_def now)
  then have a: "(''k'', Inr ''value of k'', ?T) \<in> set (fl_answers s5)" by simp
  have run: "fleet_run demo_cache demo_cache_opts demo_env demo_load 1000000 ?s0 s5"
    using s1(1) s2(1) s3(1) s4(1) s5(1) by (meson rtranclp.rtrancl_into_rtrancl rtranclp.rtrancl_refl)
  have "mono (e_now demo_env)" by (simp add: mono_def now)
  moreover have "good_loader demo_cache_opts demo_load" by (simp add: good_loader_def demo_load_def)
  moreover have "lossless demo_cache" by (simp add: lossless_def demo_cache_def)
  ultimately obtain t where "(''k'', Inr ''value of k'', t) \<in> set (fl_loads s5)" "?T \<le> t + 962000000"
    using cache_answers_are_loads [OF demo_cache_opts _ _ _ _ _ run a] w(2) by (auto simp: demo_cache_opts_def)
  with run a show ?thesis by blast
qed

lemma invalidate_forces_reload_witness:
  "\<exists>w1 l1 w2. cache_Invalidate demo_cache_opts demo_env ''k'' (demo_world empty_db, [''k'' \<mapsto> (''old'', 1800000000000000)]) = (Inr (), w1, l1) \<and>
     fst (GetOrLoad demo_cache demo_cache_opts demo_env demo_load ''k'' (w1, l1)) = fst (demo_load ''k'' w2)"
proof -
  have now: "e_redis demo_env n = None" for n by (simp add: demo_env_def)
  obtain w1 l1 where i: "cache_Invalidate demo_cache_opts demo_env ''k'' (demo_world empty_db, [''k'' \<mapsto> (''old'', 1800000000000000)]) =
      (Inr (), w1, l1)"
    by (simp add: cache_Invalidate_def demo_cache_opts_def in_world_def l1_Del_def andThen_def redis_call_def now Let_def)
  from invalidate_forces_reload [OF i now, of demo_cache demo_load] i show ?thesis by blast
qed

end
