(* ===== verification/Seed.thy ===== *)
theory Seed
  imports BootstrapFacts IdentityLogin
begin

text \<open>
  The \<^verbatim>\<open>seed\<close> binary, which makes the first administrator: from the environment's variables to
  the rows it writes and the lines it prints. It works on the statements of the identity module
  and on \<^verbatim>\<open>platform/secure\<close> directly, without the module's use cases.
\<close>

section \<open>The binary\<close>

definition seed_connect :: "boot_env \<Rightarrow> string \<Rightarrow> gerr + unit" where
  "seed_connect B writeURL =
     (case fst (postgres_Connect B \<lparr>pg_WriteURL = writeURL, pg_ReadURLs = [], pg_MaxConns = 0, pg_MinConns = 0,
               pg_MaxConnLifetime = 0, pg_MaxConnIdleTime = 0\<rparr>
             new_process) of
        Inl err \<Rightarrow> Inl (External err) | Inr _ \<Rightarrow> Inr ())"

text \<open>The password, and whether it was generated.\<close>

definition seed_password :: "env \<Rightarrow> environ \<Rightarrow> (world, gerr, string \<times> bool) act" where
  "seed_password E m =
     (let password = cfg_String m ''SEED_ADMIN_PASSWORD'' [] in
      if password \<noteq> [] then ret (password, False)
      else if cfg_String m ''APP_ENV'' ''development'' = ''production''
        then fail (External ''SEED_ADMIN_PASSWORD is required in production'')
      else andThen (rand_Read E 12) (\<lambda>r. andThen (liftE (from_secure (sec_Token r))) (\<lambda>generated. ret (generated, True))))"

definition seed_promote :: "env \<Rightarrow> string \<Rightarrow> int \<Rightarrow> (world, gerr, string list) act" where
  "seed_promote E email now =
     andThen (wrapE (''promote '' @ email) (query E (SetUserRoleByEmail email ''admin'' now))) (\<lambda>affected.
       ret [''seed: '' @ email @ '' already exists, promoted to admin ('' @ nat_dec affected @ '' row)''])"

definition seed_create :: "env \<Rightarrow> string \<Rightarrow> string \<Rightarrow> string \<Rightarrow> bool \<Rightarrow> int \<Rightarrow> (world, gerr, string list) act" where
  "seed_create E email password name generated now =
     andThen (Hasher_Hash E password) (\<lambda>hash.
     andThen (UUIDGenerator_NewID E) (\<lambda>rawID.
     andThen (liftE (uuidFromString E rawID)) (\<lambda>uid.
     andThen (wrapE ''create admin'' (query E (CreateUser
       \<lparr>ur_id = uid, ur_email = email, ur_password_hash = hash, ur_full_name = name, ur_role = ''admin'', ur_status = ''active'',
        ur_version = 1, ur_created_at = now, ur_updated_at = now, ur_email_verified_at = None\<rparr>))) (\<lambda>_.
       ret ([''seed: created admin '' @ email @ '' (id '' @ rawID @ '')''] @
            (if generated then [''seed: generated password: '' @ password] else []))))))"

definition seed_with :: "boot_env \<Rightarrow> env \<Rightarrow> environ \<Rightarrow> (world, gerr, string list) act" where
  "seed_with B E m =
     (let email = cfg_String m ''SEED_ADMIN_EMAIL'' ''admin@example.com'';
          name = cfg_String m ''SEED_ADMIN_NAME'' ''Admin'';
          writeURL = cfg_String m ''DB_WRITE_URL'' [] in
      if writeURL = [] then fail (External ''DB_WRITE_URL is required'')
      else andThen (seed_password E m) (\<lambda>(password, generated).
           andThen (liftE (seed_connect B writeURL)) (\<lambda>_.
           andThen (clock_Now E) (\<lambda>now.
             catchE (select_one E (GetUserByEmail email))
               (\<lambda>_. seed_create E email password name generated now)
               (\<lambda>_. seed_promote E email now)))))"

definition seed_run :: "boot_env \<Rightarrow> env \<Rightarrow> (world, gerr, string list) act" where
  "seed_run B E =
     (case LoadDotenv (bo_files B) [] (bo_environ B) of
        (Inl err, m) \<Rightarrow> fail (External err)
      | (Inr _, m) \<Rightarrow> seed_with B E m)"

section \<open>What it changes\<close>

lemma find_update_email:
  "find (\<lambda>r. ur_email r = a) rows = Some r0 \<Longrightarrow> (\<And>r. ur_email (f r) = ur_email r) \<Longrightarrow>
   find (\<lambda>r. ur_email r = a) (update_rows (\<lambda>r. ur_email r = a) f rows) = Some (f r0)"
  by (induction rows) (auto simp: update_rows_def split: if_splits)

lemma filter_update_email:
  "(\<And>r. ur_email (f r) = ur_email r) \<Longrightarrow>
   filter (\<lambda>r. ur_email r \<noteq> a) (update_rows (\<lambda>r. ur_email r = a) f rows) = filter (\<lambda>r. ur_email r \<noteq> a) rows"
  by (induction rows) (auto simp: update_rows_def)

lemma promote_Inr:
  assumes "seed_promote E a t w = (Inr out, w')"
  shows "w_db w' = snd (SetUserRoleByEmail a ''admin'' t (w_db w))"
  using assms unfolding seed_promote_def
  by (elim andThen_InrE wrapE_InrE query_Inr) (auto simp: SetUserRoleByEmail_def)

lemma quiet_db:
  "Hasher_Hash E p w = (Inr h, w') \<Longrightarrow> w_db w' = w_db w"
  "UUIDGenerator_NewID E w = (Inr i, w') \<Longrightarrow> w_db w' = w_db w"
  "seed_password E m w = (r, w') \<Longrightarrow> w_db w' = w_db w"
  by (auto simp: Hasher_Hash_def andThen_def seed_password_def Let_def dest!: NewID_Inr split: if_splits sum.splits)

lemma create_Inr:
  assumes "seed_create E a password name g t w = (Inr out, w')"
  shows "GetUserByEmail a (w_db w) = None \<and> (\<exists>r salt. ur_email r = a \<and> ur_role r = ''admin'' \<and> ur_status r = ''active'' \<and>
    sec_HashPassword (e_kdf E) salt password = Inr (ur_password_hash r) \<and>
    w_db w' = (w_db w)\<lparr>d_users := d_users (w_db w) @ [r]\<rparr>)"
proof -
  from assms obtain h w1 rawID w2 uid w3 where
    h: "Hasher_Hash E password w = (Inr h, w1)" and i: "UUIDGenerator_NewID E w1 = (Inr rawID, w2)"
    and c: "query E (CreateUser \<lparr>ur_id = uid, ur_email = a, ur_password_hash = h, ur_full_name = name, ur_role = ''admin'',
      ur_status = ''active'', ur_version = 1, ur_created_at = t, ur_updated_at = t, ur_email_verified_at = None\<rparr>) w2 = (Inr (), w3)"
    and w': "w' = w3"
    unfolding seed_create_def by (auto elim!: andThen_InrE wrapE_InrE)
  have "w_db w2 = w_db w" using quiet_db(1) [OF h] quiet_db(2) [OF i] by simp
  moreover obtain salt where "sec_HashPassword (e_kdf E) salt password = Inr h"
    using h by (auto simp: Hasher_Hash_def from_password_def andThen_def split: sum.splits password_error.splits)
  moreover let ?r = "\<lparr>ur_id = uid, ur_email = a, ur_password_hash = h, ur_full_name = name, ur_role = ''admin'',
      ur_status = ''active'', ur_version = 1, ur_created_at = t, ur_updated_at = t, ur_email_verified_at = None\<rparr>"
  from c have "\<forall>x \<in> set (d_users (w_db w2)). ur_email x \<noteq> a" "w_db w3 = (w_db w2)\<lparr>d_users := d_users (w_db w2) @ [?r]\<rparr>"
    by (auto simp: CreateUser_def elim!: query_Inr split: if_splits)
  ultimately show ?thesis unfolding w'
    by (intro conjI exI [of _ ?r] exI [of _ salt]) (simp_all add: GetUserByEmail_def find_None_iff)
qed

lemma select_one_db: "select_one E f w = (r, w') \<Longrightarrow> w_db w' = w_db w"
  using select_rows_db [of E f w]
  by (auto simp: select_one_def one_row_def andThen_def split: prod.splits sum.splits option.splits)

lemma failed_keeps_db:
  "seed_promote E a t w = (Inl e, w') \<Longrightarrow> w_db w' = w_db w"
  "seed_create E a password name g t w = (Inl e, w') \<Longrightarrow> w_db w' = w_db w"
proof -
  show "seed_promote E a t w = (Inl e, w') \<Longrightarrow> w_db w' = w_db w"
    by (auto simp: seed_promote_def wrapE_def catchE_def elim!: andThen_InlE dest: query_Inl_db split: prod.splits sum.splits if_splits)
  have hash: "w_db (snd (Hasher_Hash E password w)) = w_db w" for w
    by (auto simp: Hasher_Hash_def andThen_def)
  have newid: "w_db (snd (UUIDGenerator_NewID E w)) = w_db w" for w
    by (auto simp: UUIDGenerator_NewID_def andThen_def split: option.splits)
  show "seed_create E a password name g t w = (Inl e, w') \<Longrightarrow> w_db w' = w_db w"
    using hash newid unfolding seed_create_def
    by (elim andThen_InlE; (auto simp: wrapE_def catchE_def dest!: query_Inl_db split: prod.splits sum.splits if_splits)?)
      (metis snd_conv)+
qed

lemma find_snoc: "find p xs = None \<Longrightarrow> p x \<Longrightarrow> find p (xs @ [x]) = Some x"
  by (induction xs) (auto split: if_splits)

text \<open>
  One administrator, nobody else touched. If the seeder succeeds, the user with the configured address is an
  administrator: a new active one under a hash of the password, or the one that existed, whose id,
  status and password hash are the same as before. Every user with another address and every other
  table is unchanged, and in production a password was configured. If it fails, nothing is changed.
\<close>

theorem seed_makes_an_administrator:
  fixes m :: environ
  defines "email \<equiv> cfg_String m ''SEED_ADMIN_EMAIL'' ''admin@example.com''"
  assumes "seed_with B E m w = (r, w')"
  shows "case r of
    Inl err \<Rightarrow> w_db w' = w_db w
  | Inr out \<Rightarrow>
      (\<exists>u. GetUserByEmail email (w_db w') = Some u \<and> ur_role u = ''admin'' \<and>
        (case GetUserByEmail email (w_db w) of
           Some u0 \<Rightarrow> ur_id u = ur_id u0 \<and> ur_status u = ur_status u0 \<and> ur_password_hash u = ur_password_hash u0
         | None \<Rightarrow> ur_status u = ''active'' \<and>
             (\<exists>salt password. sec_HashPassword (e_kdf E) salt password = Inr (ur_password_hash u) \<and>
               (cfg_String m ''SEED_ADMIN_PASSWORD'' [] \<noteq> [] \<longrightarrow> password = cfg_String m ''SEED_ADMIN_PASSWORD'' [])))) \<and>
      filter (\<lambda>u. ur_email u \<noteq> email) (d_users (w_db w')) = filter (\<lambda>u. ur_email u \<noteq> email) (d_users (w_db w)) \<and>
      (w_db w')\<lparr>d_users := []\<rparr> = (w_db w)\<lparr>d_users := []\<rparr> \<and>
      (cfg_String m ''APP_ENV'' ''development'' = ''production'' \<longrightarrow> cfg_String m ''SEED_ADMIN_PASSWORD'' [] \<noteq> [])"
proof (cases r)
  case (Inl err)
  with assms(2) have "w_db w' = w_db w"
    by (auto simp: seed_with_def Let_def catchE_def split: if_splits prod.splits sum.splits elim!: andThen_InlE
        dest!: select_one_db quiet_db(3) failed_keeps_db)
  with Inl show ?thesis by simp
next
  case (Inr out)
  with assms obtain password g w1 where p: "seed_password E m w = (Inr (password, g), w1)"
    and q: "catchE (select_one E (GetUserByEmail email)) (\<lambda>_. seed_create E email password (cfg_String m ''SEED_ADMIN_NAME'' ''Admin'') g (e_now E (w_step w1)))
      (\<lambda>_. seed_promote E email (e_now E (w_step w1))) (w1\<lparr>w_step := Suc (w_step w1)\<rparr>) = (Inr out, w')"
    by (auto simp: seed_with_def Let_def email_def elim!: andThen_InrE split: if_splits)
  define w2 where "w2 = w1\<lparr>w_step := Suc (w_step w1)\<rparr>"
  with q quiet_db(3) [OF p] have d: "w_db w2 = w_db w"
    and q: "catchE (select_one E (GetUserByEmail email)) (\<lambda>_. seed_create E email password (cfg_String m ''SEED_ADMIN_NAME'' ''Admin'') g (e_now E (w_step w1)))
      (\<lambda>_. seed_promote E email (e_now E (w_step w1))) w2 = (Inr out, w')" by simp_all
  have prod: "cfg_String m ''APP_ENV'' ''development'' = ''production'' \<longrightarrow> cfg_String m ''SEED_ADMIN_PASSWORD'' [] \<noteq> []"
    using p by (auto simp: seed_password_def Let_def split: if_splits)
  obtain x w3 where sel: "select_one E (GetUserByEmail email) w2 = (x, w3)" by fastforce
  have d3: "w_db w3 = w_db w" using select_one_db [OF sel] d by simp
  show ?thesis
  proof (cases x)
    case (Inl e)
    with q sel have "seed_create E email password (cfg_String m ''SEED_ADMIN_NAME'' ''Admin'') g (e_now E (w_step w1)) w3 = (Inr out, w')"
      by (auto simp: catchE_def split: if_splits)
    from create_Inr [OF this] obtain u salt where
      u: "GetUserByEmail email (w_db w) = None" "ur_email u = email" "ur_role u = ''admin''" "ur_status u = ''active''"
        "w_db w' = (w_db w)\<lparr>d_users := d_users (w_db w) @ [u]\<rparr>"
      and h: "sec_HashPassword (e_kdf E) salt password = Inr (ur_password_hash u)"
      unfolding d3 by blast
    have "GetUserByEmail email (w_db w') = Some u"
      using u(1,2) by (simp add: u(5) GetUserByEmail_def find_snoc)
    moreover have "cfg_String m ''SEED_ADMIN_PASSWORD'' [] \<noteq> [] \<longrightarrow> password = cfg_String m ''SEED_ADMIN_PASSWORD'' []"
      using p by (auto simp: seed_password_def Let_def split: if_splits)
    ultimately show ?thesis using u h prod \<open>r = Inr out\<close> by (auto intro!: exI [of _ salt] exI [of _ password])
  next
    case (Inr u0)
    with q sel have "seed_promote E email (e_now E (w_step w1)) w3 = (Inr out, w')" by (simp add: catchE_def)
    from promote_Inr [OF this] d3 have db: "w_db w' = snd (SetUserRoleByEmail email ''admin'' (e_now E (w_step w1)) (w_db w))" by simp
    have "GetUserByEmail email (w_db w2) = Some u0" using sel Inr
      by (auto simp: select_one_def one_row_def dest!: select_rows_Inr elim!: andThen_InrE split: option.splits)
    then have u0: "find (\<lambda>r. ur_email r = email) (d_users (w_db w)) = Some u0" by (simp add: GetUserByEmail_def d)
    let ?f = "\<lambda>r. r\<lparr>ur_role := ''admin'', ur_version := ur_version r + 1, ur_updated_at := e_now E (w_step w1)\<rparr>"
    have "find (\<lambda>r. ur_email r = email) (update_rows (\<lambda>r. ur_email r = email) ?f (d_users (w_db w))) = Some (?f u0)"
      using u0 by (rule find_update_email) simp
    moreover have "filter (\<lambda>r. ur_email r \<noteq> email) (update_rows (\<lambda>r. ur_email r = email) ?f (d_users (w_db w))) =
        filter (\<lambda>r. ur_email r \<noteq> email) (d_users (w_db w))"
      by (rule filter_update_email) simp
    ultimately show ?thesis using \<open>r = Inr out\<close> db u0 prod by (simp add: SetUserRoleByEmail_def GetUserByEmail_def Let_def)
  qed
qed

definition seed_vars :: environ where
  "seed_vars = map_of [(''APP_ENV'', ''production''), (''DB_WRITE_URL'', ''pg''), (''SEED_ADMIN_EMAIL'', ''ann@x.io''),
     (''SEED_ADMIN_PASSWORD'', ''long enough'')]"

lemma seed_lookups:
  "cfg_String seed_vars ''APP_ENV'' d = ''production''" "cfg_String seed_vars ''DB_WRITE_URL'' d = ''pg''"
  "cfg_String seed_vars ''SEED_ADMIN_EMAIL'' d = ''ann@x.io''" "cfg_String seed_vars ''SEED_ADMIN_PASSWORD'' d = ''long enough''"
proof -
  have "Getenv seed_vars ''APP_ENV'' = ''production''" "Getenv seed_vars ''DB_WRITE_URL'' = ''pg''"
    "Getenv seed_vars ''SEED_ADMIN_EMAIL'' = ''ann@x.io''" "Getenv seed_vars ''SEED_ADMIN_PASSWORD'' = ''long enough''"
    by code_simp+
  then show "cfg_String seed_vars ''APP_ENV'' d = ''production''" "cfg_String seed_vars ''DB_WRITE_URL'' d = ''pg''"
    "cfg_String seed_vars ''SEED_ADMIN_EMAIL'' d = ''ann@x.io''" "cfg_String seed_vars ''SEED_ADMIN_PASSWORD'' d = ''long enough''"
    by (simp_all add: cfg_String_def)
qed

lemma seed_makes_an_administrator_witness:
  "\<exists>out w' u. seed_with demo_boot demo_env seed_vars (demo_world ann_db) = (Inr out, w') \<and>
     GetUserByEmail ''ann@x.io'' (w_db w') = Some u \<and> ur_role u = ''admin'' \<and>
     Some (ur_password_hash u) = map_option ur_password_hash (GetUserByEmail ''ann@x.io'' (w_db (demo_world ann_db)))"
proof -
  have conn: "seed_connect demo_boot ''pg'' = Inr ()"
    by (simp add: seed_connect_def postgres_Connect_def Let_def newPool_def opens_def demo_boot_def new_process_def)
  have db: "w_db (demo_world ann_db) = ann_db" "w_tx (demo_world ann_db) = NoTx" by (simp_all add: demo_world_def)
  have sel: "select_one demo_env (GetUserByEmail ''ann@x.io'') ((demo_world ann_db)\<lparr>w_step := n\<rparr>) =
      (Inr ann, (demo_world ann_db)\<lparr>w_step := Suc n\<rparr>)" for n
    by (simp add: select_one_def select_rows_def query_faultless [OF demo_faultless] db one_row_def andThen_def known_ann)
  obtain out w' where r: "seed_with demo_boot demo_env seed_vars (demo_world ann_db) = (Inr out, w')"
    by (simp add: seed_with_def seed_lookups seed_password_def conn andThen_def Let_def catchE_def sel seed_promote_def wrapE_def
        query_faultless [OF demo_faultless] SetUserRoleByEmail_def db)
  from seed_makes_an_administrator [OF r] obtain u where
    "GetUserByEmail ''ann@x.io'' (w_db w') = Some u" "ur_role u = ''admin''" "ur_password_hash u = ur_password_hash ann"
    by (auto simp: seed_lookups db known_ann)
  with r show ?thesis by (simp add: db known_ann)
qed

end
