(* ===== verification/ModuleSchemas.thy ===== *)
theory ModuleSchemas
  imports AuthzFacts Ledger IdentityHandler
begin

text \<open>
  The module independence rule of \<^verbatim>\<open>docs/04-modular-monolith.md\<close>: a module's queries touch only its
  own schema, so a module can be moved to a database of its own and clients never notice. Every
  piece of work the core does for a module (its calls, its relay, its consumer, its background
  reload) is one act here; the rule is proved of each from its statements.
\<close>

section \<open>Acts that are confined to a part of the state\<close>

text \<open>
  \<open>confined p k m\<close>: what \<open>m\<close> answers and what it leaves of the part \<open>p\<close> depend on \<open>p\<close> only, and it
  never changes \<open>k\<close>.
\<close>

definition confined :: "('s \<Rightarrow> 'p) \<Rightarrow> ('s \<Rightarrow> 'k) \<Rightarrow> ('s, 'e, 'a) act \<Rightarrow> bool" where
  "confined p k m \<longleftrightarrow>
     (\<forall>s t. p s = p t \<longrightarrow> fst (m s) = fst (m t) \<and> p (snd (m s)) = p (snd (m t))) \<and> (\<forall>s. k (snd (m s)) = k s)"

named_theorems conf \<open>confinement rules, one per act\<close>

lemma confinedI:
  assumes "\<And>s t. p s = p t \<Longrightarrow> fst (m s) = fst (m t) \<and> p (snd (m s)) = p (snd (m t))" and "\<And>s. k (snd (m s)) = k s"
  shows "confined p k m"
  using assms unfolding confined_def by blast

lemma confined_answer: "confined p k m \<Longrightarrow> p s = p t \<Longrightarrow> m s = (r, s') \<Longrightarrow> m t = (q, t') \<Longrightarrow> r = q \<and> p s' = p t'"
  unfolding confined_def by (metis fst_conv snd_conv)

lemma confined_frame: "confined p k m \<Longrightarrow> k (snd (m s)) = k s"
  unfolding confined_def by blast

lemma confined_ret [conf]: "confined p k (ret x)"
  and confined_fail [conf]: "confined p k (fail e)"
  and confined_liftE [conf]: "confined p k (liftE r)"
  by (simp_all add: confined_def)

lemma confined_reads:
  assumes "\<And>s t. p s = p t \<Longrightarrow> f s = f t"
  shows "confined p k (reads f)"
proof (rule confinedI)
  fix s t assume st: "p s = p t"
  have "f s = f t" using st by (rule assms)
  with st show "fst (reads f s) = fst (reads f t) \<and> p (snd (reads f s)) = p (snd (reads f t))" by simp
qed simp

text \<open>Every way of going on after an act is an instance of this one.\<close>

lemma confined_bind:
  assumes m: "confined p k m" and g: "\<And>r. confined p k (g r)"
  shows "confined p k (\<lambda>s. g (fst (m s)) (snd (m s)))"
proof (rule confinedI)
  fix s t assume "p s = p t"
  with m have "fst (m s) = fst (m t)" "p (snd (m s)) = p (snd (m t))" unfolding confined_def by blast+
  with g show "fst (g (fst (m s)) (snd (m s))) = fst (g (fst (m t)) (snd (m t))) \<and>
      p (snd (g (fst (m s)) (snd (m s)))) = p (snd (g (fst (m t)) (snd (m t))))"
    unfolding confined_def by metis
next
  fix s
  show "k (snd (g (fst (m s)) (snd (m s)))) = k s" using confined_frame [OF g] confined_frame [OF m] by metis
qed

lemma confined_via:
  assumes "confined p k m" and "\<And>r. confined p k (g r)" and "\<And>s. n s = g (fst (m s)) (snd (m s))"
  shows "confined p k n"
proof -
  have "n = (\<lambda>s. g (fst (m s)) (snd (m s)))" by (rule ext) (rule assms(3))
  then show ?thesis using confined_bind [OF assms(1,2)] by (simp only:)
qed

lemma confined_attempt [conf]: "confined p k m \<Longrightarrow> confined p k (attempt m)"
  by (rule confined_via [where m = m and g = ret]) (simp_all add: confined_ret)

lemma confined_andThen [conf]: "confined p k m \<Longrightarrow> (\<And>x. confined p k (f x)) \<Longrightarrow> confined p k (andThen m f)"
  by (rule confined_via [where m = m and g = "\<lambda>r. case r of Inl e \<Rightarrow> fail e | Inr x \<Rightarrow> f x"])
    (auto simp: andThen_def intro: conf split: prod.splits sum.splits)

lemma confined_if [conf]: "(b \<Longrightarrow> confined p k m) \<Longrightarrow> (\<not> b \<Longrightarrow> confined p k n) \<Longrightarrow> confined p k (if b then m else n)"
  by simp

lemma confined_case_option [conf]:
  "confined p k m \<Longrightarrow> (\<And>x. confined p k (f x)) \<Longrightarrow> confined p k (case z of None \<Rightarrow> m | Some x \<Rightarrow> f x)"
  by (cases z) simp_all

lemma confined_case_sum [conf]:
  "(\<And>e. confined p k (g e)) \<Longrightarrow> (\<And>x. confined p k (f x)) \<Longrightarrow> confined p k (case z of Inl e \<Rightarrow> g e | Inr x \<Rightarrow> f x)"
  by (cases z) simp_all

lemma confined_case_prod [conf]: "(\<And>a b. confined p k (f a b)) \<Longrightarrow> confined p k (case z of (a, b) \<Rightarrow> f a b)"
  by (cases z) simp

lemma confined_case_rval [conf]:
  "(\<And>s. confined p k (f s)) \<Longrightarrow> (\<And>i. confined p k (g i)) \<Longrightarrow> (\<And>u r. confined p k (h u r)) \<Longrightarrow>
   confined p k (case v of RStr s \<Rightarrow> f s | RInt i \<Rightarrow> g i | RPrincipal u r \<Rightarrow> h u r)"
  by (cases v) simp_all

lemma confined_forEach [conf]: "(\<And>x. confined p k (f x)) \<Longrightarrow> confined p k (forEach xs f)"
  by (induction xs) (auto intro!: conf)

lemma confined_catchE [conf]:
  "confined p k m \<Longrightarrow> (\<And>e. confined p k (h e)) \<Longrightarrow> (\<And>x. confined p k (f x)) \<Longrightarrow> confined p k (catchE m h f)"
  by (rule confined_via [where m = m and g = "\<lambda>r. case r of Inl e \<Rightarrow> if e = Panicked then fail e else h e | Inr x \<Rightarrow> f x"])
    (auto simp: catchE_def intro!: conf split: prod.splits sum.splits)

lemma confined_wrapE [conf]: "confined p k m \<Longrightarrow> confined p k (wrapE s m)"
  unfolding wrapE_def by (intro conf)

lemma confined_orNotFound [conf]: "confined p k m \<Longrightarrow> (\<And>x. confined p k (f x)) \<Longrightarrow> confined p k (orNotFound s t m f)"
  unfolding orNotFound_def by (intro conf)

lemma confined_ignore [conf]: "confined p k m \<Longrightarrow> confined p k (ignore m)"
  unfolding ignore_def by (intro conf)

lemma confined_classified [conf]: "confined p k m \<Longrightarrow> confined p k (classified c m f)"
  unfolding classified_def by (intro conf)

lemma confined_one_row [conf]: "confined p k (one_row r)"
  unfolding one_row_def by (intro conf)

section \<open>The part of the world a schema is\<close>

text \<open>
  \<open>seen own\<close> is the world with only the tables \<open>own\<close> selects, on the primary and on every replica;
  \<open>kept others\<close> the tables of the other schemas and the replicas, which nothing writes.
\<close>

definition seen :: "(db \<Rightarrow> db) \<Rightarrow> world \<Rightarrow> world" where
  "seen own w = w\<lparr>w_db := own (w_db w), w_replicas := map own (w_replicas w)\<rparr>"

definition kept :: "(db \<Rightarrow> db) \<Rightarrow> world \<Rightarrow> db \<times> db list" where
  "kept others w = (others (w_db w), w_replicas w)"

definition inside :: "(db \<Rightarrow> db) \<Rightarrow> (db \<Rightarrow> db) \<Rightarrow> (db \<Rightarrow> (gerr + 'a) \<times> db) \<Rightarrow> bool" where
  "inside own others f \<longleftrightarrow>
     (\<forall>d e. own d = own e \<longrightarrow> fst (f d) = fst (f e) \<and> own (snd (f d)) = own (snd (f e))) \<and> (\<forall>d. others (snd (f d)) = others d)"

definition reads_own :: "(db \<Rightarrow> db) \<Rightarrow> (db \<Rightarrow> 'a) \<Rightarrow> bool" where
  "reads_own own f \<longleftrightarrow> (\<forall>d e. own d = own e \<longrightarrow> f d = f e)"

lemma seen_eq:
  "seen own w = seen own v \<longleftrightarrow> own (w_db w) = own (w_db v) \<and> map own (w_replicas w) = map own (w_replicas v) \<and>
     w_step w = w_step v \<and> w_tx w = w_tx v \<and> w_next w = w_next v \<and> w_redis w = w_redis v \<and>
     w_pubsub w = w_pubsub v \<and> w_bus w = w_bus v \<and> w_sent w = w_sent v"
  by (cases w; cases v) (auto simp: seen_def)


lemma kept_eq: "kept others w = kept others v \<longleftrightarrow> others (w_db w) = others (w_db v) \<and> w_replicas w = w_replicas v"
  by (simp add: kept_def)

lemma confined_worldI:
  assumes "\<And>w v. seen own w = seen own v \<Longrightarrow> fst (m w) = fst (m v) \<and> seen own (snd (m w)) = seen own (snd (m v))"
    and "\<And>w. others (w_db (snd (m w))) = others (w_db w) \<and> w_replicas (snd (m w)) = w_replicas w"
  shows "confined (seen own) (kept others) m"
  using assms by (intro confinedI) (blast, simp only: kept_eq)

lemma confined_tick [conf]: "confined (seen own) (kept others) tick"
  by (rule confined_worldI) (simp_all add: seen_eq)

lemma confined_clock [conf]: "confined (seen own) (kept others) (clock_Now E)"
  and confined_rand [conf]: "confined (seen own) (kept others) (rand_Read E n)"
  and confined_rand_Int [conf]: "confined (seen own) (kept others) (rand_Int E)"
  unfolding clock_Now_def rand_Read_def rand_Int_def by (intro conf)+

lemma confined_query [conf]:
  assumes "inside own others f"
  shows "confined (seen own) (kept others) (query E f)"
proof (rule confined_worldI)
  fix w v :: world assume wv: "seen own w = seen own v"
  then have "fst (f (w_db w)) = fst (f (w_db v))" "own (snd (f (w_db w))) = own (snd (f (w_db v)))"
    using assms unfolding inside_def seen_eq by blast+
  with wv show "fst (query E f w) = fst (query E f v) \<and> seen own (snd (query E f w)) = seen own (snd (query E f v))"
    by (auto simp: query_def Let_def seen_eq abort_def split: option.splits prod.splits sum.splits)
next
  fix w :: world
  have "others (snd (f (w_db w))) = others (w_db w)" using assms by (simp add: inside_def)
  then show "others (w_db (snd (query E f w))) = others (w_db w) \<and> w_replicas (snd (query E f w)) = w_replicas w"
    by (auto simp: query_def Let_def abort_def split: option.splits prod.splits sum.splits)
qed

lemma inside_read [conf]: "reads_own own f \<Longrightarrow> inside own others (\<lambda>d. (Inr (f d), d))"
  unfolding inside_def fst_conv snd_conv reads_own_def by metis

lemma confined_select [conf]: "reads_own own f \<Longrightarrow> confined (seen own) (kept others) (select_rows E f)"
  unfolding select_rows_def by (intro conf)

lemma confined_select_one [conf]: "reads_own own f \<Longrightarrow> confined (seen own) (kept others) (select_one E f)"
  unfolding select_one_def by (intro conf)

lemma confined_tx [conf]:
  assumes m: "confined (seen own) (kept others) m"
  shows "confined (seen own) (kept others) (WithinTransaction E m)"
proof (rule confined_worldI)
  fix w v :: world assume wv: "seen own w = seen own v"
  show "fst (WithinTransaction E m w) = fst (WithinTransaction E m v) \<and>
      seen own (snd (WithinTransaction E m w)) = seen own (snd (WithinTransaction E m v))"
  proof (cases "w_tx w = NoTx")
    case False
    then have "WithinTransaction E m w = m w" "WithinTransaction E m v = m v"
      using wv by (simp_all add: WithinTransaction_def seen_eq)
    with m wv show ?thesis unfolding confined_def by metis
  next
    case True
    let ?in = "\<lambda>w. w\<lparr>w_step := Suc (w_step w), w_tx := TxOpen\<rparr>"
    obtain r w2 q v2 where run: "m (?in w) = (r, w2)" "m (?in v) = (q, v2)" by (metis prod.collapse)
    have "seen own (?in w) = seen own (?in v)" using wv by (simp add: seen_eq)
    from confined_answer [OF m this run] have "r = q" "seen own w2 = seen own v2" by simp_all
    with True wv run show ?thesis
      by (cases r; cases "e_commit E (w_step v2)"; cases "e_db E (w_step v)") (auto simp: WithinTransaction_def Let_def seen_eq)
  qed
next
  fix w :: world
  let ?w = "w\<lparr>w_step := Suc (w_step w), w_tx := TxOpen\<rparr>"
  obtain r w2 where run: "m ?w = (r, w2)" by (metis prod.collapse)
  have "kept others w2 = kept others w" "kept others (snd (m w)) = kept others w"
    using confined_frame [OF m, of ?w] confined_frame [OF m, of w] run by (simp_all add: kept_def)
  with run show "others (w_db (snd (WithinTransaction E m w))) = others (w_db w) \<and> w_replicas (snd (WithinTransaction E m w)) = w_replicas w"
    by (cases r; cases "e_commit E (w_step w2)") (auto simp: WithinTransaction_def Let_def kept_def split: option.splits)
qed

lemma confined_redis_call [conf]: "confined (seen own) (kept others) (redis_call E f)"
  by (rule confined_worldI) (auto simp: redis_call_def Let_def seen_eq split: option.splits prod.splits)

lemma confined_redis_Publish [conf]: "confined (seen own) (kept others) (redis_Publish E c m)"
  by (rule confined_worldI) (auto simp: redis_Publish_def Let_def seen_eq split: option.splits)

lemma confined_bus_Publish [conf]: "confined (seen own) (kept others) (bus_Publish E s m)"
  by (rule confined_worldI) (auto simp: bus_Publish_def Let_def seen_eq split: publish_outcome.splits)

lemma confined_redis [conf]: "confined (seen own) (kept others) (redis_Get E k)" "confined (seen own) (kept others) (redis_Set E k v ttl)"
  unfolding redis_Get_def redis_Set_def by (intro conf)+

lemma confined_send [conf]: "confined (seen own) (kept others) (Notifier_SendOTP email purpose code)"
  by (rule confined_worldI) (auto simp: Notifier_SendOTP_def seen_eq)

lemma confined_NewID [conf]: "confined (seen own) (kept others) (UUIDGenerator_NewID E)"
  unfolding UUIDGenerator_NewID_def by (intro conf)

text \<open>Reads on a replica: the same replica is chosen, and its own tables are the same.\<close>

lemma nth_beyond: "length xs \<le> i \<Longrightarrow> xs ! i = [] ! (i - length xs)"
  by (induction xs arbitrary: i) (auto simp: nth_Cons split: nat.splits)

lemma nth_map_eq:
  assumes "map f xs = map f ys"
  shows "f (xs ! i) = f (ys ! i)"
proof -
  have len: "length xs = length ys" using assms by (rule map_eq_imp_length_eq)
  show ?thesis
  proof (cases "i < length xs")
    case True
    with assms len show ?thesis by (metis nth_map)
  next
    case False
    with len show ?thesis using nth_beyond [of xs i] nth_beyond [of ys i] by simp
  qed
qed

lemma confined_Pools_Read [conf]: "confined (seen own) (kept others) Pools_Read"
proof (rule confined_worldI)
  fix w v :: world assume wv: "seen own w = seen own v"
  then have "length (w_replicas w) = length (w_replicas v)" by (auto simp: seen_eq dest: map_eq_imp_length_eq)
  with wv show "fst (Pools_Read w) = fst (Pools_Read v) \<and> seen own (snd (Pools_Read w)) = seen own (snd (Pools_Read v))"
    by (auto simp: Pools_Read_def Let_def seen_eq split: nat.splits)
qed (simp add: Pools_Read_def Let_def split: nat.splits)

lemma confined_at_replica:
  assumes f: "reads_own own f" and m: "\<And>x. confined (seen own) (kept others) (m x)"
  shows "confined (seen own) (kept others) (\<lambda>w. m (f (w_replicas w ! i)) w)"
proof (rule confinedI)
  fix w v :: world assume wv: "seen own w = seen own v"
  then have "own (w_replicas w ! i) = own (w_replicas v ! i)" unfolding seen_eq by (intro nth_map_eq) blast
  then have "f (w_replicas w ! i) = f (w_replicas v ! i)" using f unfolding reads_own_def by blast
  with m wv show "fst (m (f (w_replicas w ! i)) w) = fst (m (f (w_replicas v ! i)) v) \<and>
      seen own (snd (m (f (w_replicas w ! i)) w)) = seen own (snd (m (f (w_replicas v ! i)) v))"
    unfolding confined_def by metis
qed (rule confined_frame [OF m])

lemma reads_const [conf]: "reads_own own (\<lambda>_. x)"
  by (simp add: reads_own_def)

lemma confined_pool_rows [conf]:
  assumes "reads_own own f"
  shows "confined (seen own) (kept others) (pool_rows E p f)"
proof (cases p)
  case (Some i)
  have "confined (seen own) (kept others) (\<lambda>w. (\<lambda>x. select_rows E (\<lambda>_. x)) (f (w_replicas w ! i)) w)"
    by (rule confined_at_replica [OF assms]) (intro conf)
  with Some show ?thesis by (simp add: pool_rows_def)
qed (simp add: pool_rows_def confined_select assms)

lemma confined_pool_query [conf]:
  assumes "inside own others f"
  shows "confined (seen own) (kept others) (pool_query E p f)"
proof -
  have f: "reads_own own (\<lambda>d. fst (f d))" using assms unfolding inside_def reads_own_def by blast
  show ?thesis
  proof (cases p)
    case None
    have "inside own others (\<lambda>d. (fst (f d), d))" using f unfolding inside_def reads_own_def fst_conv snd_conv by blast
    then have "confined (seen own) (kept others) (query E (\<lambda>d. (fst (f d), d)))" by (rule confined_query)
    with None show ?thesis by (simp add: pool_query_def [abs_def])
  next
    case (Some i)
    have "confined (seen own) (kept others) (\<lambda>w. (\<lambda>x. query E (\<lambda>d. (x, d))) (fst (f (w_replicas w ! i))) w)"
      by (rule confined_at_replica [OF f]) (rule confined_query, simp add: inside_def)
    with Some show ?thesis by (simp add: pool_query_def [abs_def])
  qed
qed

lemma confined_choice:
  assumes m: "confined p k m" and n: "confined p k n" and b: "\<And>s t. p s = p t \<Longrightarrow> b s = b t"
  shows "confined p k (\<lambda>s. if b s then m s else n s)"
proof (rule confinedI)
  fix s t assume st: "p s = p t"
  have "b s = b t" using st by (rule b)
  moreover have "fst (m s) = fst (m t) \<and> p (snd (m s)) = p (snd (m t))" "fst (n s) = fst (n t) \<and> p (snd (n s)) = p (snd (n t))"
    using m n st unfolding confined_def by blast+
  ultimately show "fst (if b s then m s else n s) = fst (if b t then m t else n t) \<and>
      p (snd (if b s then m s else n s)) = p (snd (if b t then m t else n t))"
    by simp
next
  fix s
  show "k (snd (if b s then m s else n s)) = k s"
    using confined_frame [OF m, of s] confined_frame [OF n, of s] by simp
qed

lemma confined_read_rows [conf]:
  assumes "reads_own own f"
  shows "confined (seen own) (kept others) (read_rows E f)"
  unfolding read_rows_def [abs_def]
  by (rule confined_choice, intro conf assms, intro conf assms) (simp only: seen_eq simp_thms)

section \<open>The schemas of the four modules\<close>

datatype module = IdentityModule | ExampleModule | AuthzModule | AuditModule

text \<open>\<open>tables M\<close> keeps the rows of a module's schema and empties the others; \<open>foreign M\<close> the reverse.\<close>

fun tables :: "module \<Rightarrow> db \<Rightarrow> db" where
  "tables IdentityModule d = d\<lparr>d_notes := [], d_example_outbox := [], d_policies := [], d_audit := []\<rparr>"
| "tables ExampleModule d = d\<lparr>d_users := [], d_refresh := [], d_otps := [], d_api_keys := [], d_identity_outbox := [],
     d_policies := [], d_audit := []\<rparr>"
| "tables AuthzModule d = d\<lparr>d_users := [], d_refresh := [], d_otps := [], d_api_keys := [], d_identity_outbox := [],
     d_notes := [], d_example_outbox := [], d_audit := []\<rparr>"
| "tables AuditModule d = d\<lparr>d_users := [], d_refresh := [], d_otps := [], d_api_keys := [], d_identity_outbox := [],
     d_notes := [], d_example_outbox := [], d_policies := []\<rparr>"

fun foreign :: "module \<Rightarrow> db \<Rightarrow> db" where
  "foreign IdentityModule d = d\<lparr>d_users := [], d_refresh := [], d_otps := [], d_api_keys := [], d_identity_outbox := []\<rparr>"
| "foreign ExampleModule d = d\<lparr>d_notes := [], d_example_outbox := []\<rparr>"
| "foreign AuthzModule d = d\<lparr>d_policies := []\<rparr>"
| "foreign AuditModule d = d\<lparr>d_audit := []\<rparr>"

lemma tables_eq:
  "tables IdentityModule d = tables IdentityModule e \<longleftrightarrow> d_users d = d_users e \<and> d_refresh d = d_refresh e \<and>
     d_otps d = d_otps e \<and> d_api_keys d = d_api_keys e \<and> d_identity_outbox d = d_identity_outbox e"
  "tables ExampleModule d = tables ExampleModule e \<longleftrightarrow> d_notes d = d_notes e \<and> d_example_outbox d = d_example_outbox e"
  "tables AuthzModule d = tables AuthzModule e \<longleftrightarrow> d_policies d = d_policies e"
  "tables AuditModule d = tables AuditModule e \<longleftrightarrow> d_audit d = d_audit e"
  by (cases d; cases e; auto simp: tables.simps)+

declare tables.simps [simp del]

text \<open>
  A schema: selecting its rows twice is selecting them once, nothing of another schema is left
  beside them, and its rows and the others' are all there is.
\<close>

locale schema_part =
  fixes own others :: "db \<Rightarrow> db"
  assumes own_own: "own (own d) = own d"
    and alone: "others (own d) = others (own e)"
    and whole: "own d = own e \<Longrightarrow> others d = others e \<Longrightarrow> d = e"
begin

lemma seen_seen: "seen own (seen own w) = seen own w"
  by (simp add: seen_def own_own)

lemma stays_alone:
  assumes "kept others v = kept others (seen own w)"
  shows "seen own v = v"
proof -
  have "others (w_db v) = others (own (w_db v))" and "w_replicas v = map own (w_replicas w)"
    using assms alone by (auto simp: kept_eq seen_def)
  then have "own (w_db v) = w_db v" "map own (w_replicas v) = w_replicas v"
    using whole [of "own (w_db v)" "w_db v"] by (simp_all add: own_own)
  then show ?thesis by (simp add: seen_def)
qed

text \<open>On a database with only its own rows a confined act does what it does on the full one.\<close>

lemma solo:
  assumes "confined (map_prod (seen own) (\<lambda>x. x)) (\<lambda>s. kept others (fst s)) m"
  shows "m (seen own w, c) = (fst (m (w, c)), map_prod (seen own) (\<lambda>x. x) (snd (m (w, c))))"
proof -
  obtain r v a where run: "m (seen own w, c) = (r, v, a)" by (metis prod.collapse)
  obtain q u b where full: "m (w, c) = (q, u, b)" by (metis prod.collapse)
  have "r = q \<and> map_prod (seen own) (\<lambda>x. x) (v, a) = map_prod (seen own) (\<lambda>x. x) (u, b)"
    by (rule confined_answer [OF assms _ run full]) (simp add: seen_seen)
  moreover have "seen own v = v"
    using confined_frame [OF assms, of "(seen own w, c)"] run by (intro stays_alone) simp
  ultimately show ?thesis using run full by simp
qed

end

interpretation schema: schema_part "tables M" "foreign M" for M
proof
  fix d e
  show "tables M (tables M d) = tables M d" "foreign M (tables M d) = foreign M (tables M e)"
    by (cases M; cases d; cases e; simp add: tables.simps)+
  show "d = e" if "tables M d = tables M e" "foreign M d = foreign M e"
    using that by (cases M; cases d; cases e; simp add: tables.simps)
qed

section \<open>Every statement stays inside its schema\<close>

lemmas inside_schema = inside_def tables_eq

lemma identity_inside [conf]:
  "inside (tables IdentityModule) (foreign IdentityModule) (CreateUser r)"
  "inside (tables IdentityModule) (foreign IdentityModule) (UpdateUser uid hash name role status updated version)"
  "inside (tables IdentityModule) (foreign IdentityModule) (SetEmailVerified uid at)"
  "inside (tables IdentityModule) (foreign IdentityModule) (CreateRefreshToken tid uid hash expires at)"
  "inside (tables IdentityModule) (foreign IdentityModule) (RevokeRefreshToken tid at)"
  "inside (tables IdentityModule) (foreign IdentityModule) (RevokeAllRefreshTokensForUser uid at)"
  "inside (tables IdentityModule) (foreign IdentityModule) (CreateOTP c)"
  "inside (tables IdentityModule) (foreign IdentityModule) (ConsumeOTP oid at)"
  "inside (tables IdentityModule) (foreign IdentityModule) (CreateAPIKey k)"
  "inside (tables IdentityModule) (foreign IdentityModule) (RevokeAPIKey kid uid at)"
  "inside (tables IdentityModule) (foreign IdentityModule) (InsertIdentityOutboxEvent oid subject pl at)"
  "inside (tables IdentityModule) (foreign IdentityModule) (MarkIdentityOutboxEventPublished oid at)"
  by (auto simp: inside_schema identity_sql MarkIdentityOutboxEventPublished_def Let_def known_user_def)

lemma example_inside [conf]:
  "inside (tables ExampleModule) (foreign ExampleModule) (CreateNote n)"
  "inside (tables ExampleModule) (foreign ExampleModule) (UpdateNote nid own title body updated version)"
  "inside (tables ExampleModule) (foreign ExampleModule) (InsertOutboxEvent oid subject pl at)"
  "inside (tables ExampleModule) (foreign ExampleModule) (MarkOutboxEventPublished oid at)"
  by (auto simp: inside_schema example_sql MarkOutboxEventPublished_def Let_def)

lemma authz_inside [conf]:
  "inside (tables AuthzModule) (foreign AuthzModule) (UpsertPolicy r)"
  "inside (tables AuthzModule) (foreign AuthzModule) (DeletePolicy name)"
  by (auto simp: inside_schema authz_sql)

lemma audit_inside [conf]:
  "inside (tables AuditModule) (foreign AuditModule) (InsertAuditEntry j e)"
  "inside (tables AuditModule) (foreign AuditModule) (ListAuditEntries lim offset subject)"
  by (auto simp: inside_schema InsertAuditEntry_def ListAuditEntries_def)

lemma reads_inside [conf]:
  "reads_own (tables IdentityModule) (GetUserByEmail email)"
  "reads_own (tables IdentityModule) (GetUserByID uid)"
  "reads_own (tables IdentityModule) (GetRefreshTokenByHash hash)"
  "reads_own (tables IdentityModule) (GetActiveOTP uid purpose now)"
  "reads_own (tables IdentityModule) (ListAPIKeysForUser uid)"
  "reads_own (tables IdentityModule) (GetAPIKeyByHash hash)"
  "reads_own (tables IdentityModule) (ClaimUnpublishedIdentityOutboxEvents k)"
  "reads_own (tables ExampleModule) (GetNote nid own)"
  "reads_own (tables ExampleModule) (ListNotes own lim offset)"
  "reads_own (tables ExampleModule) (ClaimUnpublishedOutboxEvents k)"
  "reads_own (tables AuthzModule) ListEnabledPolicies"
  "reads_own (tables AuthzModule) ListAllPolicies"
  by (simp_all add: reads_own_def tables_eq identity_sql example_sql authz_sql ClaimUnpublishedIdentityOutboxEvents_def
      ClaimUnpublishedOutboxEvents_def)


section \<open>Every operation of a module stays inside its schema\<close>

abbreviation confined_to :: "module \<Rightarrow> (world, gerr, 'a) act \<Rightarrow> bool" where
  "confined_to M \<equiv> confined (seen (tables M)) (kept (foreign M))"

lemma identity_parts [conf]:
  "confined_to IdentityModule (UserRepository_Create E u)"
  "confined_to IdentityModule (UserRepository_GetByEmail E email)"
  "confined_to IdentityModule (UserRepository_GetByID E uid)"
  "confined_to IdentityModule (UserRepository_Update E u)"
  "confined_to IdentityModule (UserRepository_MarkEmailVerified E uid now)"
  "confined_to IdentityModule (RefreshTokenRepository_Create E t)"
  "confined_to IdentityModule (RefreshTokenRepository_GetByHash E hash)"
  "confined_to IdentityModule (RefreshTokenRepository_Revoke E tid now)"
  "confined_to IdentityModule (RefreshTokenRepository_RevokeAllForUser E uid now)"
  "confined_to IdentityModule (OTPRepository_Create E c)"
  "confined_to IdentityModule (OTPRepository_GetActive E uid purpose now)"
  "confined_to IdentityModule (OTPRepository_Consume E oid now)"
  "confined_to IdentityModule (APIKeyRepository_Create E key)"
  "confined_to IdentityModule (APIKeyRepository_ListForUser E uid)"
  "confined_to IdentityModule (APIKeyRepository_GetByHash E hash)"
  "confined_to IdentityModule (APIKeyRepository_Revoke E kid uid now)"
  "confined_to IdentityModule (IdentityOutbox_Publish E events)"
  unfolding identity_repo by (intro conf)+

lemma redis_parts [conf]:
  "confined_to M (Hasher_Hash E pw)"
  "confined_to M (Hasher_Verify E stored pw)"
  "confined_to M (OpaqueTokens_Generate E)"
  "confined_to M (OTPCodes_NewCode E)"
  "confined_to M (AccessTokenSigner_Issue E uid role)"
  "confined_to M (Blacklist_Revoke E jti ttl)"
  "confined_to M (APIKeyCache_Lookup E hash)"
  "confined_to M (APIKeyCache_Store E hash kid uid role)"
  "confined_to M (APIKeyCache_Drop E kid)"
  "confined_to M (Throttle_Allowed E key)"
  "confined_to M (Throttle_RecordFailure E key)"
  "confined_to M (Throttle_Reset E key)"
  unfolding identity_redis identity_tokens Let_def by (intro conf)+

lemma identity_confined: "confined_to IdentityModule (identity_handle E ctx req)"
  by (cases req; simp only: identity_handle.simps; unfold identity_handlers identity_app Let_def; intro conf)

lemma notes_parts [conf]:
  "confined_to ExampleModule (NoteRepository_Create E n)"
  "confined_to ExampleModule (NoteRepository_Get E own nid)"
  "confined_to ExampleModule (NoteRepository_Update E n)"
  "confined_to ExampleModule (NoteRepository_List E own lim offset)"
  "confined_to ExampleModule (ExampleOutbox_Publish E events)"
  unfolding example_repo by (intro conf)+

lemma notes_confined: "confined_to ExampleModule (notes_handle E acc ctx req)"
  by (cases req; simp only: notes_handle.simps; unfold notes_handlers example_app Let_def; intro conf)

lemma relay_confined:
  "confined_to IdentityModule (identity_relayBatch E)" "confined_to ExampleModule (example_relayBatch E)"
  unfolding identity_relayBatch_def example_relayBatch_def relay_batch_def relay_one_def by (intro conf)+

lemma audit_confined:
  "confined_to AuditModule (AuditHandler_ListAuditLog E ctx lim offset subject)"
  "confined_to AuditModule (Consumer_record J E m)"
  unfolding AuditHandler_ListAuditLog_def Consumer_record_def by (intro conf)+


section \<open>The core as one process\<close>

text \<open>
  What the core does for its modules: the calls it serves, and the tasks of the worker. A note's
  update asks the checker, through the port that bootstrap wires, which may flag a reload.
\<close>

datatype work =
  IdentityCall "principal option" identity_request
| NotesCall "principal option" notes_request
| AuthzCall "principal option" authz_request
| AuditCall "principal option" int int string
| IdentityRelay
| ExampleRelay
| PolicyReload
| Delivery "string \<times> payload"

datatype outcome =
  IdentityAnswer identity_response
| NotesAnswer notes_response
| AuthzAnswer authz_response
| AuditAnswer "audit_entry list"
| Finished
| Judged verdict

definition access_asked :: "env \<Rightarrow> principal option \<Rightarrow> notes_request \<Rightarrow> unit checker_act" where
  "access_asked E ctx req =
     (case req of UpdateNoteRequest nid title body v \<Rightarrow> if ctx = None then ret () else maybeRefresh E | _ \<Rightarrow> ret ())"

fun core_work :: "cel \<Rightarrow> json_lib \<Rightarrow> env \<Rightarrow> work \<Rightarrow> outcome checker_act" where
  "core_work L J E (IdentityCall ctx req) =
     andThen (on_world (identity_handle E ctx req)) (\<lambda>x. ret (IdentityAnswer x))"
| "core_work L J E (NotesCall ctx req) =
     andThen (access_asked E ctx req) (\<lambda>_.
     andThen (reads snd) (\<lambda>ck.
     andThen (on_world (notes_handle E (abacAccess_Allowed L (ck_policies ck)) ctx req)) (\<lambda>x. ret (NotesAnswer x))))"
| "core_work L J E (AuthzCall ctx req) = andThen (authz_handle L E ctx req) (\<lambda>x. ret (AuthzAnswer x))"
| "core_work L J E (AuditCall ctx lim offset subject) =
     andThen (on_world (AuditHandler_ListAuditLog E ctx lim offset subject)) (\<lambda>x. ret (AuditAnswer x))"
| "core_work L J E IdentityRelay = andThen (on_world (identity_relayBatch E)) (\<lambda>_. ret Finished)"
| "core_work L J E ExampleRelay = andThen (on_world (example_relayBatch E)) (\<lambda>_. ret Finished)"
| "core_work L J E PolicyReload = andThen (background_refresh L E) (\<lambda>_. ret Finished)"
| "core_work L J E (Delivery m) = andThen (on_world (Consumer_record J E m)) (\<lambda>v. ret (Judged v))"

fun owner :: "work \<Rightarrow> module" where
  "owner (IdentityCall ctx req) = IdentityModule"
| "owner (NotesCall ctx req) = ExampleModule"
| "owner (AuthzCall ctx req) = AuthzModule"
| "owner (AuditCall ctx lim offset subject) = AuditModule"
| "owner IdentityRelay = IdentityModule"
| "owner ExampleRelay = ExampleModule"
| "owner PolicyReload = AuthzModule"
| "owner (Delivery m) = AuditModule"

fun run_core :: "cel \<Rightarrow> json_lib \<Rightarrow> env \<Rightarrow> work list \<Rightarrow> world \<times> checker \<Rightarrow> (gerr + outcome) list \<times> world \<times> checker" where
  "run_core L J E [] s = ([], s)"
| "run_core L J E (k # ks) s =
     (case core_work L J E k s of (r, s') \<Rightarrow> (case run_core L J E ks s' of (rs, s'') \<Rightarrow> (r # rs, s'')))"

abbreviation confined_pair :: "module \<Rightarrow> 'a checker_act \<Rightarrow> bool" where
  "confined_pair M \<equiv> confined (map_prod (seen (tables M)) (\<lambda>x. x)) (\<lambda>s. kept (foreign M) (fst s))"

lemma confined_on_world [conf]:
  assumes "confined_to M m"
  shows "confined_pair M (on_world m)"
proof (rule confinedI)
  fix s t :: "world \<times> checker"
  assume st: "map_prod (seen (tables M)) (\<lambda>x. x) s = map_prod (seen (tables M)) (\<lambda>x. x) t"
  obtain w c v e where s: "s = (w, c)" "t = (v, e)" by (metis prod.collapse)
  obtain r w' q v' where run: "m w = (r, w')" "m v = (q, v')" by (metis prod.collapse)
  have "seen (tables M) w = seen (tables M) v" "c = e" using st s by simp_all
  with confined_answer [OF assms _ run] s run
  show "fst (on_world m s) = fst (on_world m t) \<and>
      map_prod (seen (tables M)) (\<lambda>x. x) (snd (on_world m s)) = map_prod (seen (tables M)) (\<lambda>x. x) (snd (on_world m t))"
    by (simp add: on_world_def)
next
  fix s
  show "kept (foreign M) (fst (snd (on_world m s))) = kept (foreign M) (fst s)"
    using confined_frame [OF assms, of "fst s"] by (cases s; cases "m (fst s)") (simp add: on_world_def)
qed

lemma confined_internalE [conf]: "confined_pair M m \<Longrightarrow> confined_pair M (internalE m)"
  by (rule confined_via [where m = m and g = "\<lambda>r. case r of Inl e \<Rightarrow> fail (if e = Panicked then Panicked else internal e) | Inr x \<Rightarrow> ret x"])
    (auto simp: internalE_def intro!: conf split: prod.splits sum.splits)

lemma confined_checker [conf]: "confined_pair M (modify (\<lambda>(w, ck). (w, f ck)))" "confined_pair M (reads (\<lambda>(w, ck). g ck))"
    "confined_pair M (reads snd)"
  by (auto simp: confined_def split: prod.splits)

lemma maybeRefresh_modify:
  "maybeRefresh E = andThen (on_world (clock_Now E)) (\<lambda>t. modify (\<lambda>(w, ck). (w,
     if t - ck_loadedAt ck * 1000 < cacheTTL then ck else if ck_refreshing ck then ck else ck\<lparr>ck_refreshing := True\<rparr>)))"
  unfolding maybeRefresh_def by (rule arg_cong [where f = "andThen _"]) (auto simp: fun_eq_iff)

lemma checker_parts [conf]:
  "confined_pair M (maybeRefresh E)"
  "confined_pair AuthzModule (Checker_Refresh L E)"
  "confined_pair AuthzModule (background_refresh L E)"
  "confined_pair AuthzModule (Checker_Decide L E subject rt a res)"
  unfolding maybeRefresh_modify Checker_Refresh_def Refresh_load_def Refresh_store_def background_refresh_def Checker_Decide_def
  by (intro conf)+

lemma authz_confined: "confined_pair AuthzModule (authz_handle L E ctx req)"
  by (cases req; simp only: authz_handle.simps; unfold authz_handlers; intro conf)

lemma access_confined: "confined_pair M (access_asked E ctx req)"
  unfolding access_asked_def by (cases req; simp only: notes_request.case; intro conf)

lemma work_confined: "confined_pair (owner k) (core_work L J E k)"
  by (cases k; simp only: core_work.simps owner.simps)
    (intro conf identity_confined notes_confined authz_confined audit_confined relay_confined access_confined)+


section \<open>The modules as services of their own\<close>

text \<open>
  The core taken apart as \<^verbatim>\<open>docs/04-modular-monolith.md\<close> describes: every module has a primary and
  replicas of its own, which begin as snapshots of its schema; the clock, Redis, the bus and the
  checker's memory stay shared.
\<close>

record deployed =
  dp_rest :: "world \<times> checker"
  dp_db :: "module \<Rightarrow> db"
  dp_replicas :: "module \<Rightarrow> db list"

definition no_rows :: db where
  "no_rows = \<lparr>d_users = [], d_refresh = [], d_otps = [], d_api_keys = [], d_identity_outbox = [], d_notes = [],
     d_example_outbox = [], d_policies = [], d_audit = []\<rparr>"

definition without_db :: "world \<Rightarrow> world" where
  "without_db w = w\<lparr>w_db := no_rows, w_replicas := []\<rparr>"

definition snapshot :: "world \<times> checker \<Rightarrow> deployed" where
  "snapshot s = \<lparr>dp_rest = (without_db (fst s), snd s), dp_db = (\<lambda>M. tables M (w_db (fst s))),
     dp_replicas = (\<lambda>M. map (tables M) (w_replicas (fst s)))\<rparr>"

definition service_state :: "deployed \<Rightarrow> module \<Rightarrow> world \<times> checker" where
  "service_state D M = ((fst (dp_rest D))\<lparr>w_db := dp_db D M, w_replicas := dp_replicas D M\<rparr>, snd (dp_rest D))"

definition service_work :: "cel \<Rightarrow> json_lib \<Rightarrow> env \<Rightarrow> work \<Rightarrow> deployed \<Rightarrow> (gerr + outcome) \<times> deployed" where
  "service_work L J E k D =
     (case core_work L J E k (service_state D (owner k)) of
        (r, w, ck) \<Rightarrow> (r, \<lparr>dp_rest = (without_db w, ck), dp_db = (dp_db D)(owner k := w_db w),
                           dp_replicas = (dp_replicas D)(owner k := w_replicas w)\<rparr>))"

fun run_services :: "cel \<Rightarrow> json_lib \<Rightarrow> env \<Rightarrow> work list \<Rightarrow> deployed \<Rightarrow> (gerr + outcome) list \<times> deployed" where
  "run_services L J E [] D = ([], D)"
| "run_services L J E (k # ks) D =
     (case service_work L J E k D of (r, D') \<Rightarrow> (case run_services L J E ks D' of (rs, D'') \<Rightarrow> (r # rs, D'')))"

lemma foreign_tables: "M \<noteq> N \<Longrightarrow> foreign M d = foreign M e \<Longrightarrow> tables N d = tables N e"
  by (cases M; cases N; cases d; cases e; simp add: tables.simps)

lemma service_snapshot: "service_state (snapshot (w, c)) M = (seen (tables M) w, c)"
  by (simp add: service_state_def snapshot_def without_db_def seen_def)

lemma without_seen: "without_db (seen own w) = without_db w"
  by (simp add: without_db_def seen_def)

lemma work_simulates:
  "service_work L J E k (snapshot s) = (fst (core_work L J E k s), snapshot (snd (core_work L J E k s)))"
proof -
  obtain w c where s: "s = (w, c)" by fastforce
  obtain r v a where run: "core_work L J E k (w, c) = (r, v, a)" by (metis prod.collapse)
  have solo: "core_work L J E k (seen (tables (owner k)) w, c) = (r, seen (tables (owner k)) v, a)"
    using schema.solo [OF work_confined [of k L J E], of w c] run by simp
  have kept: "foreign (owner k) (w_db v) = foreign (owner k) (w_db w)" "w_replicas v = w_replicas w"
    using confined_frame [OF work_confined [of k L J E], of "(w, c)"] run by (simp_all add: kept_eq)
  have "(\<lambda>M. tables M (w_db w))(owner k := tables (owner k) (w_db v)) = (\<lambda>M. tables M (w_db v))"
    using foreign_tables [OF _ kept(1)] by (auto simp: fun_eq_iff)
  moreover have "(\<lambda>M. map (tables M) (w_replicas w))(owner k := map (tables (owner k)) (w_replicas v)) = (\<lambda>M. map (tables M) (w_replicas v))"
    by (auto simp: fun_eq_iff kept(2))
  ultimately show ?thesis
    using run solo by (simp add: s service_work_def service_snapshot without_seen) (simp add: snapshot_def seen_def)
qed

text \<open>
  C6. A module can leave the monolith and no client notices. For every history of calls of any callers
  to any module, relays, event deliveries and policy reloads, under any faults: the core on
  one database and the core with a database per module give the same answers, errors included,
  and leave the same rows, the same Redis and the same bus. So no operation of a module, on any path,
  reads or writes a table of another module's schema, on the primary or on a replica.
\<close>

theorem extraction_is_invisible:
  "run_services L J E ks (snapshot s) = (fst (run_core L J E ks s), snapshot (snd (run_core L J E ks s)))"
  by (induction ks arbitrary: s) (simp_all add: work_simulates split: prod.splits)

end
