(* ===== verification/Services.thy ===== *)
theory Services
  imports ModuleSchemas RpcServer Bootstrap
begin

text \<open>
  The gRPC surface of the core: the four service descriptors that \<^verbatim>\<open>protoc-gen-go-grpc\<close> wrote
  (\<^verbatim>\<open>internal/gen/proto/*/v1/*_grpc.pb.go\<close>), the server object behind them, and the dispatch of a
  full method name. Decoding a message is a parameter, one function per request message.
\<close>

section \<open>Requests and messages\<close>

datatype core_request =
  IdentityReq identity_request
| NotesReq notes_request
| AuthzReq authz_request
| AuditReq int int string

type_synonym wire = string

text \<open>What \<open>dec(in)\<close> makes of the bytes of a call.\<close>

record messages =
  pb_Register :: "wire \<Rightarrow> rpc_error + (string \<times> string \<times> string)"
  pb_Login :: "wire \<Rightarrow> rpc_error + (string \<times> string)"
  pb_Refresh :: "wire \<Rightarrow> rpc_error + string"
  pb_Logout :: "wire \<Rightarrow> rpc_error + (string \<times> string)"
  pb_GetProfile :: "wire \<Rightarrow> rpc_error + unit"
  pb_ChangePassword :: "wire \<Rightarrow> rpc_error + (string \<times> string)"
  pb_SetUserRole :: "wire \<Rightarrow> rpc_error + (string \<times> string)"
  pb_RequestPasswordReset :: "wire \<Rightarrow> rpc_error + string"
  pb_ResetPassword :: "wire \<Rightarrow> rpc_error + (string \<times> string \<times> string)"
  pb_RequestEmailVerification :: "wire \<Rightarrow> rpc_error + unit"
  pb_VerifyEmail :: "wire \<Rightarrow> rpc_error + string"
  pb_CreateAPIKey :: "wire \<Rightarrow> rpc_error + string"
  pb_ListAPIKeys :: "wire \<Rightarrow> rpc_error + unit"
  pb_RevokeAPIKey :: "wire \<Rightarrow> rpc_error + string"
  pb_ValidateAPIKey :: "wire \<Rightarrow> rpc_error + string"
  pb_CreateNote :: "wire \<Rightarrow> rpc_error + (string \<times> string)"
  pb_GetNote :: "wire \<Rightarrow> rpc_error + string"
  pb_UpdateNote :: "wire \<Rightarrow> rpc_error + (string \<times> string \<times> string \<times> int)"
  pb_ListNotes :: "wire \<Rightarrow> rpc_error + (int \<times> int)"
  pb_Check :: "wire \<Rightarrow> rpc_error + (string \<times> string \<times> (string \<times> string) list)"
  pb_ListPolicies :: "wire \<Rightarrow> rpc_error + unit"
  pb_UpsertPolicy :: "wire \<Rightarrow> rpc_error + proto_policy"
  pb_DeletePolicy :: "wire \<Rightarrow> rpc_error + string"
  pb_ListAuditLog :: "wire \<Rightarrow> rpc_error + (int \<times> int \<times> string)"

type_synonym core_unary = "(core_request, outcome) unary"
type_synonym core_interceptor = "(core_request, outcome) interceptor"

section \<open>The generated handlers\<close>

text \<open>
  The body every \<open>_Service_Method_Handler\<close> has: decode, then call the server, through the
  interceptor with the method's full name when there is one. A message that does not decode
  never reaches the interceptor.
\<close>

definition unary_method ::
  "string \<Rightarrow> (wire \<Rightarrow> rpc_error + 'i) \<Rightarrow> ('i \<Rightarrow> core_request) \<Rightarrow> core_unary \<Rightarrow> core_interceptor option \<Rightarrow> call_ctx \<Rightarrow> wire \<Rightarrow> outcome rpc_act"
  where
  "unary_method fullMethod dec req srv interceptor ctx body =
     (case dec body of
        Inl err \<Rightarrow> fail err
      | Inr i \<Rightarrow>
          (case interceptor of
             None \<Rightarrow> srv ctx (req i)
           | Some around \<Rightarrow> around srv (ctx\<lparr>cx_method := fullMethod\<rparr>) (req i)))"

type_synonym method_handler = "core_interceptor option \<Rightarrow> call_ctx \<Rightarrow> wire \<Rightarrow> outcome rpc_act"

definition IdentityService_Register_Handler :: "messages \<Rightarrow> core_unary \<Rightarrow> method_handler" where
  "IdentityService_Register_Handler P = unary_method ''/identity.v1.IdentityService/Register'' (pb_Register P)
     (\<lambda>(email, pw, name). IdentityReq (RegisterRequest email pw name))"

definition IdentityService_Login_Handler :: "messages \<Rightarrow> core_unary \<Rightarrow> method_handler" where
  "IdentityService_Login_Handler P = unary_method ''/identity.v1.IdentityService/Login'' (pb_Login P)
     (\<lambda>(email, pw). IdentityReq (LoginRequest email pw))"

definition IdentityService_Refresh_Handler :: "messages \<Rightarrow> core_unary \<Rightarrow> method_handler" where
  "IdentityService_Refresh_Handler P = unary_method ''/identity.v1.IdentityService/Refresh'' (pb_Refresh P)
     (\<lambda>token. IdentityReq (RefreshRequest token))"

definition IdentityService_Logout_Handler :: "messages \<Rightarrow> core_unary \<Rightarrow> method_handler" where
  "IdentityService_Logout_Handler P = unary_method ''/identity.v1.IdentityService/Logout'' (pb_Logout P)
     (\<lambda>(token, jti). IdentityReq (LogoutRequest token jti))"

definition IdentityService_GetProfile_Handler :: "messages \<Rightarrow> core_unary \<Rightarrow> method_handler" where
  "IdentityService_GetProfile_Handler P = unary_method ''/identity.v1.IdentityService/GetProfile'' (pb_GetProfile P)
     (\<lambda>_. IdentityReq GetProfileRequest)"

definition IdentityService_ChangePassword_Handler :: "messages \<Rightarrow> core_unary \<Rightarrow> method_handler" where
  "IdentityService_ChangePassword_Handler P = unary_method ''/identity.v1.IdentityService/ChangePassword'' (pb_ChangePassword P)
     (\<lambda>(current, new). IdentityReq (ChangePasswordRequest current new))"

definition IdentityService_SetUserRole_Handler :: "messages \<Rightarrow> core_unary \<Rightarrow> method_handler" where
  "IdentityService_SetUserRole_Handler P = unary_method ''/identity.v1.IdentityService/SetUserRole'' (pb_SetUserRole P)
     (\<lambda>(uid, role). IdentityReq (SetUserRoleRequest uid role))"

definition IdentityService_RequestPasswordReset_Handler :: "messages \<Rightarrow> core_unary \<Rightarrow> method_handler" where
  "IdentityService_RequestPasswordReset_Handler P = unary_method ''/identity.v1.IdentityService/RequestPasswordReset'' (pb_RequestPasswordReset P)
     (\<lambda>email. IdentityReq (RequestPasswordResetRequest email))"

definition IdentityService_ResetPassword_Handler :: "messages \<Rightarrow> core_unary \<Rightarrow> method_handler" where
  "IdentityService_ResetPassword_Handler P = unary_method ''/identity.v1.IdentityService/ResetPassword'' (pb_ResetPassword P)
     (\<lambda>(email, code, pw). IdentityReq (ResetPasswordRequest email code pw))"

definition IdentityService_RequestEmailVerification_Handler :: "messages \<Rightarrow> core_unary \<Rightarrow> method_handler" where
  "IdentityService_RequestEmailVerification_Handler P = unary_method ''/identity.v1.IdentityService/RequestEmailVerification'' (pb_RequestEmailVerification P)
     (\<lambda>_. IdentityReq RequestEmailVerificationRequest)"

definition IdentityService_VerifyEmail_Handler :: "messages \<Rightarrow> core_unary \<Rightarrow> method_handler" where
  "IdentityService_VerifyEmail_Handler P = unary_method ''/identity.v1.IdentityService/VerifyEmail'' (pb_VerifyEmail P)
     (\<lambda>code. IdentityReq (VerifyEmailRequest code))"

definition IdentityService_CreateAPIKey_Handler :: "messages \<Rightarrow> core_unary \<Rightarrow> method_handler" where
  "IdentityService_CreateAPIKey_Handler P = unary_method ''/identity.v1.IdentityService/CreateAPIKey'' (pb_CreateAPIKey P)
     (\<lambda>name. IdentityReq (CreateAPIKeyRequest name))"

definition IdentityService_ListAPIKeys_Handler :: "messages \<Rightarrow> core_unary \<Rightarrow> method_handler" where
  "IdentityService_ListAPIKeys_Handler P = unary_method ''/identity.v1.IdentityService/ListAPIKeys'' (pb_ListAPIKeys P)
     (\<lambda>_. IdentityReq ListAPIKeysRequest)"

definition IdentityService_RevokeAPIKey_Handler :: "messages \<Rightarrow> core_unary \<Rightarrow> method_handler" where
  "IdentityService_RevokeAPIKey_Handler P = unary_method ''/identity.v1.IdentityService/RevokeAPIKey'' (pb_RevokeAPIKey P)
     (\<lambda>kid. IdentityReq (RevokeAPIKeyRequest kid))"

definition IdentityService_ValidateAPIKey_Handler :: "messages \<Rightarrow> core_unary \<Rightarrow> method_handler" where
  "IdentityService_ValidateAPIKey_Handler P = unary_method ''/identity.v1.IdentityService/ValidateAPIKey'' (pb_ValidateAPIKey P)
     (\<lambda>key. IdentityReq (ValidateAPIKeyRequest key))"

definition ExampleService_CreateNote_Handler :: "messages \<Rightarrow> core_unary \<Rightarrow> method_handler" where
  "ExampleService_CreateNote_Handler P = unary_method ''/example.v1.ExampleService/CreateNote'' (pb_CreateNote P)
     (\<lambda>(title, body). NotesReq (CreateNoteRequest title body))"

definition ExampleService_GetNote_Handler :: "messages \<Rightarrow> core_unary \<Rightarrow> method_handler" where
  "ExampleService_GetNote_Handler P = unary_method ''/example.v1.ExampleService/GetNote'' (pb_GetNote P)
     (\<lambda>nid. NotesReq (GetNoteRequest nid))"

definition ExampleService_UpdateNote_Handler :: "messages \<Rightarrow> core_unary \<Rightarrow> method_handler" where
  "ExampleService_UpdateNote_Handler P = unary_method ''/example.v1.ExampleService/UpdateNote'' (pb_UpdateNote P)
     (\<lambda>(nid, title, body, version). NotesReq (UpdateNoteRequest nid title body version))"

definition ExampleService_ListNotes_Handler :: "messages \<Rightarrow> core_unary \<Rightarrow> method_handler" where
  "ExampleService_ListNotes_Handler P = unary_method ''/example.v1.ExampleService/ListNotes'' (pb_ListNotes P)
     (\<lambda>(k, offset). NotesReq (ListNotesRequest k offset))"

definition AuthzService_Check_Handler :: "messages \<Rightarrow> core_unary \<Rightarrow> method_handler" where
  "AuthzService_Check_Handler P = unary_method ''/authz.v1.AuthzService/Check'' (pb_Check P)
     (\<lambda>(rt, a, res). AuthzReq (CheckRequest rt a res))"

definition AuthzService_ListPolicies_Handler :: "messages \<Rightarrow> core_unary \<Rightarrow> method_handler" where
  "AuthzService_ListPolicies_Handler P = unary_method ''/authz.v1.AuthzService/ListPolicies'' (pb_ListPolicies P)
     (\<lambda>_. AuthzReq ListPoliciesRequest)"

definition AuthzService_UpsertPolicy_Handler :: "messages \<Rightarrow> core_unary \<Rightarrow> method_handler" where
  "AuthzService_UpsertPolicy_Handler P = unary_method ''/authz.v1.AuthzService/UpsertPolicy'' (pb_UpsertPolicy P)
     (\<lambda>p. AuthzReq (UpsertPolicyRequest p))"

definition AuthzService_DeletePolicy_Handler :: "messages \<Rightarrow> core_unary \<Rightarrow> method_handler" where
  "AuthzService_DeletePolicy_Handler P = unary_method ''/authz.v1.AuthzService/DeletePolicy'' (pb_DeletePolicy P)
     (\<lambda>name. AuthzReq (DeletePolicyRequest name))"

definition AuditService_ListAuditLog_Handler :: "messages \<Rightarrow> core_unary \<Rightarrow> method_handler" where
  "AuditService_ListAuditLog_Handler P = unary_method ''/audit.v1.AuditService/ListAuditLog'' (pb_ListAuditLog P)
     (\<lambda>(k, offset, subject). AuditReq k offset subject)"

section \<open>The service descriptors\<close>

type_synonym service_desc = "string \<times> (string \<times> method_handler) list"

definition IdentityService_ServiceDesc :: "messages \<Rightarrow> core_unary \<Rightarrow> service_desc" where
  "IdentityService_ServiceDesc P srv = (''identity.v1.IdentityService'',
     [(''Register'', IdentityService_Register_Handler P srv),
      (''Login'', IdentityService_Login_Handler P srv),
      (''Refresh'', IdentityService_Refresh_Handler P srv),
      (''Logout'', IdentityService_Logout_Handler P srv),
      (''GetProfile'', IdentityService_GetProfile_Handler P srv),
      (''ChangePassword'', IdentityService_ChangePassword_Handler P srv),
      (''SetUserRole'', IdentityService_SetUserRole_Handler P srv),
      (''RequestPasswordReset'', IdentityService_RequestPasswordReset_Handler P srv),
      (''ResetPassword'', IdentityService_ResetPassword_Handler P srv),
      (''RequestEmailVerification'', IdentityService_RequestEmailVerification_Handler P srv),
      (''VerifyEmail'', IdentityService_VerifyEmail_Handler P srv),
      (''CreateAPIKey'', IdentityService_CreateAPIKey_Handler P srv),
      (''ListAPIKeys'', IdentityService_ListAPIKeys_Handler P srv),
      (''RevokeAPIKey'', IdentityService_RevokeAPIKey_Handler P srv),
      (''ValidateAPIKey'', IdentityService_ValidateAPIKey_Handler P srv)])"

definition ExampleService_ServiceDesc :: "messages \<Rightarrow> core_unary \<Rightarrow> service_desc" where
  "ExampleService_ServiceDesc P srv = (''example.v1.ExampleService'',
     [(''CreateNote'', ExampleService_CreateNote_Handler P srv),
      (''GetNote'', ExampleService_GetNote_Handler P srv),
      (''UpdateNote'', ExampleService_UpdateNote_Handler P srv),
      (''ListNotes'', ExampleService_ListNotes_Handler P srv)])"

definition AuthzService_ServiceDesc :: "messages \<Rightarrow> core_unary \<Rightarrow> service_desc" where
  "AuthzService_ServiceDesc P srv = (''authz.v1.AuthzService'',
     [(''Check'', AuthzService_Check_Handler P srv),
      (''ListPolicies'', AuthzService_ListPolicies_Handler P srv),
      (''UpsertPolicy'', AuthzService_UpsertPolicy_Handler P srv),
      (''DeletePolicy'', AuthzService_DeletePolicy_Handler P srv)])"

definition AuditService_ServiceDesc :: "messages \<Rightarrow> core_unary \<Rightarrow> service_desc" where
  "AuditService_ServiceDesc P srv = (''audit.v1.AuditService'',
     [(''ListAuditLog'', AuditService_ListAuditLog_Handler P srv)])"

lemmas handler_defs = IdentityService_Register_Handler_def IdentityService_Login_Handler_def IdentityService_Refresh_Handler_def IdentityService_Logout_Handler_def IdentityService_GetProfile_Handler_def IdentityService_ChangePassword_Handler_def IdentityService_SetUserRole_Handler_def IdentityService_RequestPasswordReset_Handler_def IdentityService_ResetPassword_Handler_def IdentityService_RequestEmailVerification_Handler_def IdentityService_VerifyEmail_Handler_def IdentityService_CreateAPIKey_Handler_def IdentityService_ListAPIKeys_Handler_def IdentityService_RevokeAPIKey_Handler_def IdentityService_ValidateAPIKey_Handler_def
  ExampleService_CreateNote_Handler_def ExampleService_GetNote_Handler_def ExampleService_UpdateNote_Handler_def ExampleService_ListNotes_Handler_def
  AuthzService_Check_Handler_def AuthzService_ListPolicies_Handler_def AuthzService_UpsertPolicy_Handler_def AuthzService_DeletePolicy_Handler_def
  AuditService_ListAuditLog_Handler_def
lemmas descs = IdentityService_ServiceDesc_def ExampleService_ServiceDesc_def AuthzService_ServiceDesc_def AuditService_ServiceDesc_def

section \<open>The contracts of the messages\<close>

text \<open>
  The rules the \<^verbatim>\<open>.proto\<close> files put on the fields, as \<^verbatim>\<open>protovalidate\<close> reads them: lengths count code
  points; what an email address or a UUID looks like is the library's. A policy that is missing
  altogether is one that does not decode here.
\<close>

record rules =
  ru_email :: "string \<Rightarrow> bool"
  ru_uuid :: "string \<Rightarrow> bool"

definition len_within :: "nat \<Rightarrow> nat \<Rightarrow> string \<Rightarrow> bool" where
  "len_within lo hi s \<longleftrightarrow> lo \<le> rune_count s \<and> rune_count s \<le> hi"

fun identity_contract :: "rules \<Rightarrow> identity_request \<Rightarrow> bool" where
  "identity_contract V (RegisterRequest email pw name) \<longleftrightarrow> ru_email V email \<and> len_within 10 200 pw \<and> len_within 1 200 name"
| "identity_contract V (LoginRequest email pw) \<longleftrightarrow> ru_email V email \<and> len_within 1 200 pw"
| "identity_contract V (RefreshRequest token) \<longleftrightarrow> 1 \<le> rune_count token"
| "identity_contract V (LogoutRequest token jti) \<longleftrightarrow> 1 \<le> rune_count token"
| "identity_contract V GetProfileRequest \<longleftrightarrow> True"
| "identity_contract V (ChangePasswordRequest current new) \<longleftrightarrow> 1 \<le> rune_count current \<and> len_within 10 200 new"
| "identity_contract V (SetUserRoleRequest uid role) \<longleftrightarrow> ru_uuid V uid \<and> len_within 1 50 role"
| "identity_contract V (RequestPasswordResetRequest email) \<longleftrightarrow> ru_email V email"
| "identity_contract V (ResetPasswordRequest email code pw) \<longleftrightarrow> ru_email V email \<and> rune_count code = 6 \<and> len_within 10 200 pw"
| "identity_contract V RequestEmailVerificationRequest \<longleftrightarrow> True"
| "identity_contract V (VerifyEmailRequest code) \<longleftrightarrow> rune_count code = 6"
| "identity_contract V (CreateAPIKeyRequest name) \<longleftrightarrow> len_within 1 100 name"
| "identity_contract V ListAPIKeysRequest \<longleftrightarrow> True"
| "identity_contract V (RevokeAPIKeyRequest kid) \<longleftrightarrow> ru_uuid V kid"
| "identity_contract V (ValidateAPIKeyRequest key) \<longleftrightarrow> 1 \<le> rune_count key"

fun notes_contract :: "rules \<Rightarrow> notes_request \<Rightarrow> bool" where
  "notes_contract V (CreateNoteRequest title body) \<longleftrightarrow> len_within 1 200 title \<and> rune_count body \<le> 10000"
| "notes_contract V (GetNoteRequest nid) \<longleftrightarrow> ru_uuid V nid"
| "notes_contract V (UpdateNoteRequest nid title body version) \<longleftrightarrow>
     ru_uuid V nid \<and> len_within 1 200 title \<and> rune_count body \<le> 10000 \<and> 1 \<le> version"
| "notes_contract V (ListNotesRequest k offset) \<longleftrightarrow> 1 \<le> k \<and> k \<le> 100 \<and> 0 \<le> offset"

fun authz_contract :: "authz_request \<Rightarrow> bool" where
  "authz_contract (CheckRequest rt a res) \<longleftrightarrow> len_within 1 100 rt \<and> len_within 1 100 a"
| "authz_contract ListPoliciesRequest \<longleftrightarrow> True"
| "authz_contract (UpsertPolicyRequest p) \<longleftrightarrow> True"
| "authz_contract (DeletePolicyRequest name) \<longleftrightarrow> 1 \<le> rune_count name"

definition audit_contract :: "int \<Rightarrow> int \<Rightarrow> string \<Rightarrow> bool" where
  "audit_contract k offset subject \<longleftrightarrow> 1 \<le> k \<and> k \<le> 200 \<and> 0 \<le> offset \<and> rune_count subject \<le> 200"

fun contract :: "rules \<Rightarrow> core_request \<Rightarrow> bool" where
  "contract V (IdentityReq r) = identity_contract V r"
| "contract V (NotesReq r) = notes_contract V r"
| "contract V (AuthzReq r) = authz_contract r"
| "contract V (AuditReq k offset subject) = audit_contract k offset subject"

section \<open>The server\<close>

text \<open>The services in the order \<open>RegisterAll\<close> registers them.\<close>

definition core_services :: "messages \<Rightarrow> core_unary \<Rightarrow> service_desc list" where
  "core_services P srv = [ExampleService_ServiceDesc P srv, IdentityService_ServiceDesc P srv, AuthzService_ServiceDesc P srv,
     AuditService_ServiceDesc P srv]"

lemma registered_services: "ps_services (snd (RegisterAll p)) = ps_services p @ map fst (core_services P srv)"
  by (simp add: RegisterAll_def core_services_def descs)

text \<open>
  grpc-go looks a method up by the name of its service and its own name, and answers
  \<open>Unimplemented\<close> when there is none.
\<close>

definition grpc_dispatch :: "service_desc list \<Rightarrow> core_interceptor option \<Rightarrow> string \<Rightarrow> call_ctx \<Rightarrow> wire \<Rightarrow> outcome rpc_act" where
  "grpc_dispatch services interceptor fullMethod ctx body =
     (case map_of (concat (map (\<lambda>(svc, ms). map (\<lambda>(m, h). (''/'' @ svc @ ''/'' @ m, h)) ms) services)) fullMethod of
        None \<Rightarrow> fail (PlainStatus Unimplemented ''unknown service or method'')
      | Some h \<Rightarrow> h interceptor ctx body)"

fun call_of :: "principal option \<Rightarrow> core_request \<Rightarrow> work" where
  "call_of p (IdentityReq r) = IdentityCall p r"
| "call_of p (NotesReq r) = NotesCall p r"
| "call_of p (AuthzReq r) = AuthzCall p r"
| "call_of p (AuditReq k offset subject) = AuditCall p k offset subject"

text \<open>
  The server behind the descriptors, when the checker's memory is \<open>ck\<close> as the call begins. What the
  call leaves in that memory is the subject of the history \<open>run_core\<close>, not of a single call.
\<close>

definition one_call :: "cel \<Rightarrow> json_lib \<Rightarrow> env \<Rightarrow> checker \<Rightarrow> work \<Rightarrow> (world, gerr, outcome) act" where
  "one_call L J E ck k w = (case core_work L J E k (w, ck) of (r, w', ck') \<Rightarrow> (r, w'))"

definition core_server :: "cel \<Rightarrow> json_lib \<Rightarrow> env \<Rightarrow> checker \<Rightarrow> core_unary" where
  "core_server L J E ck = module_handler (\<lambda>ctx q. one_call L J E ck (call_of (cx_principal ctx) q))"

record core_process =
  cp_cel :: cel
  cp_json :: json_lib
  cp_env :: env
  cp_messages :: messages
  cp_validate :: "core_request \<Rightarrow> gerr option"
  cp_rpc :: rpc_config

text \<open>A call as it arrives: the chain of \<open>New\<close> around the method its name selects.\<close>

definition core_serve :: "core_process \<Rightarrow> checker \<Rightarrow> string \<Rightarrow> call_ctx \<Rightarrow> wire \<Rightarrow> outcome rpc_act" where
  "core_serve C ck =
     grpc_dispatch (core_services (cp_messages C) (core_server (cp_cel C) (cp_json C) (cp_env C) ck))
       (Some (unary_chain (cp_env C) (cp_validate C) (cp_rpc C) [TrustedHeaderInterceptor]))"

section \<open>What a method name selects\<close>

text \<open>The full name of the method that takes a request.\<close>

fun method_of :: "core_request \<Rightarrow> string" where
  "method_of (IdentityReq (RegisterRequest email pw name)) = ''/identity.v1.IdentityService/Register''"
| "method_of (IdentityReq (LoginRequest email pw)) = ''/identity.v1.IdentityService/Login''"
| "method_of (IdentityReq (RefreshRequest token)) = ''/identity.v1.IdentityService/Refresh''"
| "method_of (IdentityReq (LogoutRequest token jti)) = ''/identity.v1.IdentityService/Logout''"
| "method_of (IdentityReq GetProfileRequest) = ''/identity.v1.IdentityService/GetProfile''"
| "method_of (IdentityReq (ChangePasswordRequest current new)) = ''/identity.v1.IdentityService/ChangePassword''"
| "method_of (IdentityReq (SetUserRoleRequest uid role)) = ''/identity.v1.IdentityService/SetUserRole''"
| "method_of (IdentityReq (RequestPasswordResetRequest email)) = ''/identity.v1.IdentityService/RequestPasswordReset''"
| "method_of (IdentityReq (ResetPasswordRequest email code pw)) = ''/identity.v1.IdentityService/ResetPassword''"
| "method_of (IdentityReq RequestEmailVerificationRequest) = ''/identity.v1.IdentityService/RequestEmailVerification''"
| "method_of (IdentityReq (VerifyEmailRequest code)) = ''/identity.v1.IdentityService/VerifyEmail''"
| "method_of (IdentityReq (CreateAPIKeyRequest name)) = ''/identity.v1.IdentityService/CreateAPIKey''"
| "method_of (IdentityReq ListAPIKeysRequest) = ''/identity.v1.IdentityService/ListAPIKeys''"
| "method_of (IdentityReq (RevokeAPIKeyRequest kid)) = ''/identity.v1.IdentityService/RevokeAPIKey''"
| "method_of (IdentityReq (ValidateAPIKeyRequest key)) = ''/identity.v1.IdentityService/ValidateAPIKey''"
| "method_of (NotesReq (CreateNoteRequest title body)) = ''/example.v1.ExampleService/CreateNote''"
| "method_of (NotesReq (GetNoteRequest nid)) = ''/example.v1.ExampleService/GetNote''"
| "method_of (NotesReq (UpdateNoteRequest nid title body version)) = ''/example.v1.ExampleService/UpdateNote''"
| "method_of (NotesReq (ListNotesRequest k offset)) = ''/example.v1.ExampleService/ListNotes''"
| "method_of (AuthzReq (CheckRequest rt a res)) = ''/authz.v1.AuthzService/Check''"
| "method_of (AuthzReq ListPoliciesRequest) = ''/authz.v1.AuthzService/ListPolicies''"
| "method_of (AuthzReq (UpsertPolicyRequest p)) = ''/authz.v1.AuthzService/UpsertPolicy''"
| "method_of (AuthzReq (DeletePolicyRequest name)) = ''/authz.v1.AuthzService/DeletePolicy''"
| "method_of (AuditReq k offset subject) = ''/audit.v1.AuditService/ListAuditLog''"

text \<open>\<open>decodes P body q\<close>: the body of a call of the method of \<open>q\<close> is the request \<open>q\<close>.\<close>

fun decodes :: "messages \<Rightarrow> wire \<Rightarrow> core_request \<Rightarrow> bool" where
  "decodes P b (IdentityReq (RegisterRequest email pw name)) \<longleftrightarrow> pb_Register P b = Inr (email, pw, name)"
| "decodes P b (IdentityReq (LoginRequest email pw)) \<longleftrightarrow> pb_Login P b = Inr (email, pw)"
| "decodes P b (IdentityReq (RefreshRequest token)) \<longleftrightarrow> pb_Refresh P b = Inr token"
| "decodes P b (IdentityReq (LogoutRequest token jti)) \<longleftrightarrow> pb_Logout P b = Inr (token, jti)"
| "decodes P b (IdentityReq GetProfileRequest) \<longleftrightarrow> pb_GetProfile P b = Inr ()"
| "decodes P b (IdentityReq (ChangePasswordRequest current new)) \<longleftrightarrow> pb_ChangePassword P b = Inr (current, new)"
| "decodes P b (IdentityReq (SetUserRoleRequest uid role)) \<longleftrightarrow> pb_SetUserRole P b = Inr (uid, role)"
| "decodes P b (IdentityReq (RequestPasswordResetRequest email)) \<longleftrightarrow> pb_RequestPasswordReset P b = Inr email"
| "decodes P b (IdentityReq (ResetPasswordRequest email code pw)) \<longleftrightarrow> pb_ResetPassword P b = Inr (email, code, pw)"
| "decodes P b (IdentityReq RequestEmailVerificationRequest) \<longleftrightarrow> pb_RequestEmailVerification P b = Inr ()"
| "decodes P b (IdentityReq (VerifyEmailRequest code)) \<longleftrightarrow> pb_VerifyEmail P b = Inr code"
| "decodes P b (IdentityReq (CreateAPIKeyRequest name)) \<longleftrightarrow> pb_CreateAPIKey P b = Inr name"
| "decodes P b (IdentityReq ListAPIKeysRequest) \<longleftrightarrow> pb_ListAPIKeys P b = Inr ()"
| "decodes P b (IdentityReq (RevokeAPIKeyRequest kid)) \<longleftrightarrow> pb_RevokeAPIKey P b = Inr kid"
| "decodes P b (IdentityReq (ValidateAPIKeyRequest key)) \<longleftrightarrow> pb_ValidateAPIKey P b = Inr key"
| "decodes P b (NotesReq (CreateNoteRequest title body)) \<longleftrightarrow> pb_CreateNote P b = Inr (title, body)"
| "decodes P b (NotesReq (GetNoteRequest nid)) \<longleftrightarrow> pb_GetNote P b = Inr nid"
| "decodes P b (NotesReq (UpdateNoteRequest nid title body version)) \<longleftrightarrow> pb_UpdateNote P b = Inr (nid, title, body, version)"
| "decodes P b (NotesReq (ListNotesRequest k offset)) \<longleftrightarrow> pb_ListNotes P b = Inr (k, offset)"
| "decodes P b (AuthzReq (CheckRequest rt a res)) \<longleftrightarrow> pb_Check P b = Inr (rt, a, res)"
| "decodes P b (AuthzReq ListPoliciesRequest) \<longleftrightarrow> pb_ListPolicies P b = Inr ()"
| "decodes P b (AuthzReq (UpsertPolicyRequest p)) \<longleftrightarrow> pb_UpsertPolicy P b = Inr p"
| "decodes P b (AuthzReq (DeletePolicyRequest name)) \<longleftrightarrow> pb_DeletePolicy P b = Inr name"
| "decodes P b (AuditReq k offset subject) \<longleftrightarrow> pb_ListAuditLog P b = Inr (k, offset, subject)"

lemma method_runs:
  assumes "\<And>i. method_of (req i) = fm" and "\<And>i. dec body = Inr i \<Longrightarrow> decodes P body (req i)"
  shows "(\<exists>err. unary_method fm dec req srv (Some around) ctx body s = (Inl err, s)) \<or>
    (\<exists>q. method_of q = fm \<and> decodes P body q \<and>
       unary_method fm dec req srv (Some around) ctx body s = around srv (ctx\<lparr>cx_method := fm\<rparr>) q s)"
  using assms by (cases "dec body") (auto simp: unary_method_def)

definition runs_as :: "messages \<Rightarrow> string \<Rightarrow> core_unary \<Rightarrow> method_handler \<Rightarrow> bool" where
  "runs_as P fm srv h \<longleftrightarrow> (\<forall>around ctx body s. (\<exists>err. h (Some around) ctx body s = (Inl err, s)) \<or>
     (\<exists>q. method_of q = fm \<and> decodes P body q \<and> h (Some around) ctx body s = around srv (ctx\<lparr>cx_method := fm\<rparr>) q s))"

lemma method_runs_as:
  "(\<And>i. method_of (req i) = fm) \<Longrightarrow> (\<And>body i. dec body = Inr i \<Longrightarrow> decodes P body (req i)) \<Longrightarrow>
   runs_as P fm srv (unary_method fm dec req srv)"
  unfolding runs_as_def by (intro allI method_runs)

lemma handlers_run_as:
  "\<forall>(svc, ms) \<in> set (core_services P srv). \<forall>(m, h) \<in> set ms. runs_as P (''/'' @ svc @ ''/'' @ m) srv h"
  by (simp add: core_services_def descs handler_defs) (intro conjI method_runs_as; auto)

text \<open>A call either fails before any interceptor has run, or runs the one method that has its name.\<close>

lemma serve_cases:
  obtains (refused) err where "core_serve C ck fm ctx body s = (Inl err, s)"
  | (served) q where "method_of q = fm" "decodes (cp_messages C) body q"
      "core_serve C ck fm ctx body s =
         unary_chain (cp_env C) (cp_validate C) (cp_rpc C) [TrustedHeaderInterceptor] (core_server (cp_cel C) (cp_json C) (cp_env C) ck)
           (ctx\<lparr>cx_method := fm\<rparr>) q s"
proof -
  let ?srv = "core_server (cp_cel C) (cp_json C) (cp_env C) ck"
  let ?table = "concat (map (\<lambda>(svc, ms). map (\<lambda>(m, h). (''/'' @ svc @ ''/'' @ m, h)) ms) (core_services (cp_messages C) ?srv))"
  show thesis
  proof (cases "map_of ?table fm")
    case None
    then show thesis by (intro refused) (simp add: core_serve_def grpc_dispatch_def)
  next
    case (Some h)
    then have "(fm, h) \<in> set ?table" by (rule map_of_SomeD)
    then have "runs_as (cp_messages C) fm ?srv h" using handlers_run_as [of "cp_messages C" ?srv] by fastforce
    then show thesis
      using Some refused served unfolding runs_as_def core_serve_def grpc_dispatch_def by (metis option.case(2))
  qed
qed


end
