(* ===== verification/EndToEnd.thy ===== *)
theory EndToEnd
  imports EdgeDemo Services
begin

text \<open>
  The two services together: a request through the whole chain of the gateway
  (\<^verbatim>\<open>edge.BuildHandler\<close>), and the call it makes through the core: the dispatch of the method's
  name, the interceptors (\<^verbatim>\<open>grpcserver.New\<close>), the module's handler. No definition of the code is
  added here.
\<close>

section \<open>Facts of the world that a call keeps\<close>

definition call_keeps :: "(db \<Rightarrow> bool) \<Rightarrow> (call_ctx \<Rightarrow> bool) \<Rightarrow> 'q \<Rightarrow> ('q, 'a) unary \<Rightarrow> bool" where
  "call_keeps P C req u \<longleftrightarrow> (\<forall>c w lg. C c \<longrightarrow> P (w_db w) \<longrightarrow> P (w_db (fst (snd (u c req (w, lg))))))"

lemma call_keepsI: "(\<And>c w lg. C c \<Longrightarrow> P (w_db w) \<Longrightarrow> P (w_db (fst (snd (u c req (w, lg)))))) \<Longrightarrow> call_keeps P C req u"
  by (simp add: call_keeps_def)

lemma keeps_module:
  assumes "\<And>c. C c \<Longrightarrow> preserves (on_db P) (h c req)"
  shows "call_keeps P C req (module_handler h)"
proof (rule call_keepsI)
  fix c and w :: world and lg
  assume "C c" and "P (w_db w)"
  obtain r v where r: "h c req w = (r, v)" by (metis prod.collapse)
  with preserves_run [OF assms [OF \<open>C c\<close>], of w] \<open>P (w_db w)\<close> have "P (w_db v)" by (simp add: on_db_def)
  with r show "P (w_db (fst (snd (module_handler h c req (w, lg)))))" by (simp add: module_handler_def rpc_world_def)
qed

lemma keeps_trusted:
  "call_keeps P (RpcServer.identified md) req u \<Longrightarrow> call_keeps P (correlated md) req (TrustedHeaderInterceptor u)"
  by (auto simp: call_keeps_def RpcServer.identified_def correlated_def incoming_def TrustedHeaderInterceptor_def split: option.splits)

lemma keeps_validation: "call_keeps P C req u \<Longrightarrow> call_keeps P C req (validationInterceptor v u)"
  by (auto simp: call_keeps_def validationInterceptor_def split: option.splits)

lemma keeps_timeout:
  "call_keeps P (correlated md) req u \<Longrightarrow> call_keeps P (correlated md) req (timeoutInterceptor E t u)"
  by (auto simp: call_keeps_def correlated_def incoming_def timeoutInterceptor_def andThen_def)

lemma keeps_call:
  assumes "call_keeps P C req u" and k: "\<And>r v l. P (w_db v) \<Longrightarrow> P (w_db (fst (snd (k r (v, l)))))" and "C c" and "P (w_db w)"
  shows "P (w_db (fst (snd (rpc_call (u c req) k (w, lg)))))"
proof -
  obtain q v l where q: "u c req (w, lg) = (q, (v, l))" by (metis prod.collapse)
  with assms(1) [unfolded call_keeps_def, rule_format, of c w lg] assms(3,4) have "P (w_db v)" by simp
  with k [of v q l] q show ?thesis by (auto simp: rpc_call_def split: sum.splits rpc_error.splits gerr.splits)
qed

lemma keeps_mapping: "call_keeps P C req u \<Longrightarrow> call_keeps P C req (errorMappingInterceptor f u)"
  by (rule call_keepsI, unfold errorMappingInterceptor_def, rule keeps_call [where C = C])
    (auto simp: andThen_def split: sum.splits option.splits)

lemma keeps_logging: "call_keeps P C req u \<Longrightarrow> call_keeps P C req (loggingInterceptor E u)"
proof (rule call_keepsI)
  fix c and w :: world and lg
  assume u: "call_keeps P C req u" and c: "C c" and w: "P (w_db w)"
  have "P (w_db (fst (snd (loggingInterceptor E u c req (w, lg))))) =
      P (w_db (fst (snd (rpc_call (u c req) (\<lambda>r. andThen (rpc_now E) (\<lambda>now.
        andThen (case r of Inl err \<Rightarrow> if rpc_As err = None then rpc_log (UnexpectedLogged err) else ret ()
          | Inr _ \<Rightarrow> if now - e_now E (w_step w) > slowRequestThreshold then rpc_log SlowLogged else ret ()) (\<lambda>_. answer r)))
        (w\<lparr>w_step := Suc (w_step w)\<rparr>, lg)))))"
    by (simp add: loggingInterceptor_def andThen_def)
  also have "\<dots>"
    by (rule keeps_call [where C = C, OF u _ c]) (use w in \<open>auto simp: andThen_def split: sum.splits\<close>)
  finally show "P (w_db (fst (snd (loggingInterceptor E u c req (w, lg)))))" .
qed

lemma keeps_requestID:
  assumes u: "call_keeps P (correlated md) req u"
  shows "call_keeps P (incoming md) req (requestIDInterceptor E u)"
proof (rule call_keepsI)
  fix c and w :: world and lg
  assume c: "incoming md c" and w: "P (w_db w)"
  obtain g v where g: "UUIDGenerator_NewID E w = (g, v)" by (metis prod.collapse)
  have "preserves (on_db P) (UUIDGenerator_NewID E)" unfolding UUIDGenerator_NewID_def by (intro pres)
  from preserves_run [OF this, of w] g w have "P (w_db v)" by (simp add: on_db_def)
  with u c w g show "P (w_db (fst (snd (requestIDInterceptor E u c req (w, lg)))))"
    by (auto simp: call_keeps_def correlated_def incoming_def requestIDInterceptor_def andThen_def rpc_world_def attempt_def)
qed

lemma keeps_recovery: "call_keeps P C req u \<Longrightarrow> call_keeps P C req (recoveryInterceptor u)"
proof (rule call_keepsI)
  fix c and w :: world and lg
  assume u: "call_keeps P C req u" and c: "C c" and w: "P (w_db w)"
  obtain q v l where q: "u c req (w, lg) = (q, (v, l))" by (metis prod.collapse)
  with u c w have "P (w_db v)" unfolding call_keeps_def by (metis fst_conv snd_conv)
  moreover have "fst (snd (recoveryInterceptor u c req (w, lg))) = v"
    using q by (auto simp: recoveryInterceptor_def andThen_def split: sum.splits rpc_error.splits gerr.splits)
  ultimately show "P (w_db (fst (snd (recoveryInterceptor u c req (w, lg)))))" by simp
qed

lemma chain_keeps:
  assumes "call_keeps P (RpcServer.identified md) req u"
  shows "call_keeps P (incoming md) req (unary_chain E validate cfg [TrustedHeaderInterceptor] u)"
  unfolding unary_chain_def chain_unary_def
  by (simp, intro keeps_recovery keeps_requestID keeps_logging keeps_mapping keeps_timeout keeps_validation keeps_trusted assms)

section \<open>The method a request's path names\<close>

text \<open>The call of a request carries the request's path as its method, to the backend the path routes to.\<close>

definition carries_path :: "request \<Rightarrow> edge \<Rightarrow> edge \<Rightarrow> bool" where
  "carries_path r = at_most_one_call (\<lambda>call. fst (snd call) = rq_path r \<and> Proxy_resolve (rq_path r) = Some (fst call))"

lemma layered_path: "layered carries_path"
  by (auto simp: layered_def carries_path_def at_most_one_call_def EdgeFacts.quiet_def same_request_def)

lemma proxy_path:
  assumes "bridge_faithful X"
  shows "serves carries_path (Proxy_Handler X)"
  unfolding serves_def
proof (intro allI)
  fix rw r s
  have q: "ed_calls (snd (bridge_answer X rw b s')) = ed_calls s'" for b s'
    using quietD [OF quietly_answer, of s' X rw b] by (simp add: EdgeFacts.quiet_def)
  show "carries_path r s (snd (Proxy_Handler X rw r s))"
  proof (cases "ee_bridge X r")
    case (Some mm)
    then obtain md where mm: "mm = (rq_path r, md)" using assms by (cases mm) (auto simp: bridge_faithful_def)
    show ?thesis
      by (cases "Proxy_direct (rq_path r) md")
        (use Some mm in \<open>auto simp: Proxy_Handler_def carries_path_def at_most_one_call_def q Proxy_direct_def split: option.splits\<close>)
  qed (simp add: Proxy_Handler_def carries_path_def at_most_one_call_def q)
qed

lemma path_before: "carries_path r s1 s' \<Longrightarrow> EdgeFacts.quiet s s1 \<Longrightarrow> rq_path r' = rq_path r \<Longrightarrow> carries_path r' s s'"
  by (auto simp: carries_path_def at_most_one_call_def EdgeFacts.quiet_def)

lemma path_quiet: "EdgeFacts.quiet s s' \<Longrightarrow> carries_path r s s'"
  by (simp add: carries_path_def at_most_one_call_def EdgeFacts.quiet_def)

lemma identity_headers_path [simp]: "rq_path (stripIdentityHeaders r) = rq_path r" "rq_path (injectIdentityHeaders p r) = rq_path r"
  by (simp_all add: stripIdentityHeaders_def injectIdentityHeaders_def Let_def)

lemma auth_path:
  assumes "serves carries_path inner"
  shows "serves carries_path (Authenticator_Middleware E a inner)"
  unfolding serves_def
proof (intro allI)
  fix rw r0 s
  let ?r = "stripIdentityHeaders r0"
  have pass: "carries_path r0 s (snd (inner rw r' s1))" if "EdgeFacts.quiet s s1" "rq_path r' = rq_path r0" for r' s1
    using assms that by (auto simp: serves_def intro: path_before [of r' s1, rotated])
  show "carries_path r0 s (snd (Authenticator_Middleware E a inner rw r0 s))"
  proof (cases "an_verifier a = None \<or> edge_bearerToken ?r = []")
    case True
    then have "Authenticator_Middleware E a inner rw r0 s = inner rw ?r s"
      by (auto simp: Authenticator_Middleware_def Let_def split: option.splits prod.splits)
    with pass show ?thesis by simp
  next
    case False
    then obtain parse issuer where v: "an_verifier a = Some (parse, issuer)" "edge_bearerToken ?r \<noteq> []" by auto
    let ?t = "e_now E (w_step (ed_world s))" and ?s1 = "s\<lparr>ed_world := (ed_world s)\<lparr>w_step := Suc (w_step (ed_world s))\<rparr>\<rparr>"
    have q1: "EdgeFacts.quiet s ?s1" by (simp add: EdgeFacts.quiet_def)
    show ?thesis
    proof (cases "Verifier_Verify parse issuer ?t (edge_bearerToken ?r)")
      case (Inl e)
      then show ?thesis using v pass [OF q1] by (simp add: Authenticator_Middleware_def Let_def)
    next
      case (Inr c)
      let ?m = "if an_blacklist a then IsRevoked E (c_id c) else ret False"
      let ?r' = "(injectIdentityHeaders (claims_principal c) ?r)\<lparr>rq_principal := Some (claims_principal c)\<rparr>"
      obtain res s2 where m: "?m ?s1 = (res, s2)" by (cases "?m ?s1")
      have "quietly ?m" by (intro qui)
      then have "EdgeFacts.quiet ?s1 s2" using quietD [of ?m ?s1] m by simp
      with q1 have q2: "EdgeFacts.quiet s s2" by (rule quiet_trans)
      have "EdgeFacts.quiet s2 (snd (http_Error rw msg code s2))" for msg code
        using quietly_http_Error unfolding quietly_def by blast
      then have "EdgeFacts.quiet s (snd (http_Error rw msg code s2))" for msg code
        using q2 quiet_trans by blast
      moreover have "snd (Authenticator_Middleware E a inner rw r0 s) =
          snd (case res of Inl x \<Rightarrow> (Inl x, s2) | Inr revoked \<Rightarrow> if revoked then http_Error rw ''token revoked'' 401 s2 else inner rw ?r' s2)"
        using v Inr m by (simp add: Authenticator_Middleware_def Let_def andThen_split split: sum.splits)
      ultimately show ?thesis
        using pass [OF q2, of ?r'] path_quiet [OF q2] path_quiet by (auto split: sum.splits)
    qed
  qed
qed

lemma chain_path:
  assumes "bridge_faithful X"
  shows "serves carries_path (BuildHandler X cfg a)"
  unfolding BuildHandler_def Let_def Chain_Cons Chain_Nil
  by (intro layers_pass layered_path auth_path per_endpoint.passes proxy_path assms)

section \<open>What a call does to the notes\<close>

fun writes_note :: "core_request \<Rightarrow> bool" where
  "writes_note (NotesReq (CreateNoteRequest title body)) \<longleftrightarrow> True"
| "writes_note (NotesReq (UpdateNoteRequest nid title body version)) \<longleftrightarrow> True"
| "writes_note q \<longleftrightarrow> False"

definition notes_of_others :: "string \<Rightarrow> world \<Rightarrow> note_row list" where
  "notes_of_others own w = filter (\<lambda>n. nr_owner_id n \<noteq> own) (d_notes (w_db w))"

text \<open>The calls of other modules cannot reach the table; the two reads of the notes do not write.\<close>

lemma same_notes: "M \<noteq> ExampleModule \<Longrightarrow> foreign M d = foreign M e \<Longrightarrow> d_notes d = d_notes e"
  using foreign_tables [of M ExampleModule d e] by (simp add: tables_eq)

lemma other_modules_keep:
  assumes "owner k \<noteq> M" and "\<And>d e. tables M d = tables M e \<Longrightarrow> P d = P e"
  shows "preserves (on_db P) (one_call L J E ck k)"
proof (rule preservesI)
  fix w assume "on_db P w"
  moreover obtain r v c where run: "core_work L J E k (w, ck) = (r, v, c)" by (metis prod.collapse)
  moreover have "P (w_db v) = P (w_db w)"
    using confined_frame [OF work_confined [of k L J E], of "(w, ck)"] run
    by (intro assms(2) foreign_tables [OF assms(1)]) (simp add: kept_eq)
  ultimately show "on_db P (snd (one_call L J E ck k w))" by (simp add: one_call_def on_db_def)
qed

lemma reads_keep:
  "preserves (on_db (\<lambda>d. d_notes d = ns)) (notes_handle E acc ctx (GetNoteRequest nid))"
  "preserves (on_db (\<lambda>d. d_notes d = ns)) (notes_handle E acc ctx (ListNotesRequest k offset))"
  unfolding notes_handle.simps notes_handlers example_app NoteRepository_Get_def NoteRepository_List_def by (intro pres)+

text \<open>A call of the notes module is its handler, after the port has been asked.\<close>

lemma notes_call:
  assumes "\<And>acc. preserves (on_db P) (notes_handle E acc ctx r)"
    and "\<And>d e. d_notes d = d_notes e \<Longrightarrow> P d = P e"
  shows "preserves (on_db P) (one_call L J E ck (NotesCall ctx r))"
proof (rule preservesI)
  fix w assume w: "on_db P w"
  obtain q v c where ask: "access_asked E ctx r (w, ck) = (q, v, c)" by (metis prod.collapse)
  have "d_notes (w_db v) = d_notes (w_db w)"
    using confined_frame [OF access_confined [of AuthzModule E ctx r], of "(w, ck)"] ask
    by (intro same_notes [of AuthzModule]) (simp_all add: kept_eq)
  from assms(2) [OF this] w have v: "on_db P v" by (simp add: on_db_def)
  obtain x u where h: "notes_handle E (abacAccess_Allowed L (ck_policies c)) ctx r v = (x, u)" by (metis prod.collapse)
  then have u: "on_db P u" using preserves_run [OF assms(1) v] by blast
  have "snd (one_call L J E ck (NotesCall ctx r) w) = (case q of Inl e \<Rightarrow> v | Inr y \<Rightarrow> u)"
    using ask h by (cases q; cases x) (simp_all add: one_call_def andThen_split on_world_def)
  with u v show "on_db P (snd (one_call L J E ck (NotesCall ctx r) w))" by (cases q) simp_all
qed

lemma server_keeps:
  assumes "(writes_note q \<and> P = others_are own rs \<and> (\<forall>p. withPrincipalFromMetadata md = Some p \<longrightarrow> p_UserID p = own)) \<or>
      (\<not> writes_note q \<and> P = (\<lambda>d. d_notes d = ns))"
  shows "call_keeps P (RpcServer.identified md) q (core_server L J E ck)"
  unfolding core_server_def
proof (rule keeps_module)
  fix c assume c: "RpcServer.identified md c"
  show "preserves (on_db P) (one_call L J E ck (call_of (cx_principal c) q))"
  proof (cases q)
    case (NotesReq r)
    have "preserves (on_db P) (notes_handle E acc (cx_principal c) r)" for acc
    proof (cases "writes_note q")
      case True
      with assms c have "P = others_are own rs" "\<And>p. cx_principal c = Some p \<Longrightarrow> p_UserID p = own"
        by (auto simp: RpcServer.identified_def)
      then show ?thesis by (simp add: others.handler_keeps)
    next
      case False
      with assms NotesReq show ?thesis by (cases r) (auto simp: reads_keep simp del: notes_handle.simps)
    qed
    moreover have "P d = P e" if "d_notes d = d_notes e" for d e
      using assms by (elim disjE conjE) (simp_all add: others_are_def that)
    ultimately have "preserves (on_db P) (one_call L J E ck (NotesCall (cx_principal c) r))" by (rule notes_call)
    with NotesReq show ?thesis by simp
  qed (use assms in \<open>auto intro!: other_modules_keep [where M = ExampleModule] simp: others_are_def tables_eq\<close>)
qed

lemma serve_keeps:
  assumes "call_keeps P (RpcServer.identified (cx_md ctx)) q (core_server (cp_cel C) (cp_json C) (cp_env C) ck)"
    and "cx_principal ctx = None" and "P (w_db w)"
    and "unary_chain (cp_env C) (cp_validate C) (cp_rpc C) [TrustedHeaderInterceptor]
           (core_server (cp_cel C) (cp_json C) (cp_env C) ck) (ctx\<lparr>cx_method := fm\<rparr>) q (w, lg) = (res, (w', lg'))"
  shows "P (w_db w')"
proof -
  have "call_keeps P (incoming (cx_md ctx)) q (unary_chain (cp_env C) (cp_validate C) (cp_rpc C) [TrustedHeaderInterceptor]
      (core_server (cp_cel C) (cp_json C) (cp_env C) ck))"
    by (rule chain_keeps [OF assms(1)])
  moreover have "incoming (cx_md ctx) (ctx\<lparr>cx_method := fm\<rparr>)" using assms(2) by (simp add: incoming_def)
  ultimately have "P (w_db (fst (snd (res, (w', lg')))))" using assms(3) unfolding call_keeps_def assms(4) [symmetric] by blast
  then show ?thesis by simp
qed

text \<open>A request that breaks the contract of its message is never handed to the server.\<close>

lemma chain_contract:
  assumes "cx_principal ctx = None" and "validate q \<noteq> None"
  shows "unary_chain E validate cfg [TrustedHeaderInterceptor] u ctx q s =
         unary_chain E validate cfg [TrustedHeaderInterceptor] (\<lambda>c q. fail (RawError Panicked)) ctx q s"
  by (rule chain_agree [where md = "cx_md ctx"])
    (use assms in \<open>auto simp: agree_def validationInterceptor_def incoming_def\<close>)

lemma broken_keeps: "call_keeps P C q (\<lambda>c q. fail e)"
  by (simp add: call_keeps_def)

definition follows_contract :: "core_process \<Rightarrow> rules \<Rightarrow> bool" where
  "follows_contract C V \<longleftrightarrow> (\<forall>q. cp_validate C q = None \<longleftrightarrow> contract V q)"

text \<open>
  A call changes nothing of the database, or it was handled: its body decoded to a valid request
  of the method, and what the server keeps for the caller of the metadata the call keeps.
\<close>

lemma core_call_cases:
  assumes "follows_contract C V" and "cx_principal ctx = None"
    and run: "core_serve C ck fm ctx body (w, lg) = (res, (w', lg'))"
  obtains (untouched) "w_db w' = w_db w"
  | (handled) q where "method_of q = fm" "decodes (cp_messages C) body q" "contract V q"
      "\<And>P. call_keeps P (RpcServer.identified (cx_md ctx)) q (core_server (cp_cel C) (cp_json C) (cp_env C) ck) \<Longrightarrow>
         P (w_db w) \<Longrightarrow> P (w_db w')"
proof (cases rule: serve_cases [of C ck fm ctx body "(w, lg)"])
  case (refused err)
  with run show thesis by (intro untouched) simp
next
  case (served q)
  note chain = served(3) [unfolded run, symmetric]
  show thesis
  proof (cases "contract V q")
    case True
    with served(1,2) show thesis by (rule handled) (rule serve_keeps [OF _ assms(2) _ chain])
  next
    case False
    then have "cp_validate C q \<noteq> None" using assms(1) by (simp add: follows_contract_def)
    then have "unary_chain (cp_env C) (cp_validate C) (cp_rpc C) [TrustedHeaderInterceptor] (\<lambda>c q. fail (RawError Panicked))
        (ctx\<lparr>cx_method := fm\<rparr>) q (w, lg) = (res, (w', lg'))"
      using chain assms(2) by (subst chain_contract [symmetric]) simp_all
    moreover have "call_keeps (\<lambda>d. d = w_db w) (incoming (cx_md ctx)) q
        (unary_chain (cp_env C) (cp_validate C) (cp_rpc C) [TrustedHeaderInterceptor] (\<lambda>c q. fail (RawError Panicked) :: outcome rpc_act))"
      by (intro chain_keeps broken_keeps)
    moreover have "incoming (cx_md ctx) (ctx\<lparr>cx_method := fm\<rparr>)" using assms(2) by (simp add: incoming_def)
    ultimately have "w_db w' = w_db w" unfolding call_keeps_def by (metis fst_conv snd_conv)
    then show thesis by (rule untouched)
  qed
qed

lemma core_call_effect:
  assumes "follows_contract C V" and "cx_principal ctx = None"
    and "core_serve C ck fm ctx body (w, lg) = (res, (w', lg'))"
  shows "d_notes (w_db w') = d_notes (w_db w) \<or>
    (\<exists>q. writes_note q \<and> method_of q = fm \<and> decodes (cp_messages C) body q \<and> contract V q \<and>
       (\<forall>own. (\<forall>p. withPrincipalFromMetadata (cx_md ctx) = Some p \<longrightarrow> p_UserID p = own) \<longrightarrow>
          notes_of_others own w' = notes_of_others own w))"
proof (cases rule: core_call_cases [OF assms])
  case (2 q)
  show ?thesis
  proof (cases "writes_note q")
    case True
    have "notes_of_others own w' = notes_of_others own w"
      if "\<forall>p. withPrincipalFromMetadata (cx_md ctx) = Some p \<longrightarrow> p_UserID p = own" for own
    proof -
      have "others_are own (notes_of_others own w) (w_db w')"
        by (rule 2(4), rule server_keeps) (use True that in \<open>auto simp: others_are_def notes_of_others_def\<close>)
      then show ?thesis by (simp add: others_are_def notes_of_others_def)
    qed
    with True 2(1-3) show ?thesis by blast
  next
    case False
    then have "d_notes (w_db w') = d_notes (w_db w)"
      by (intro 2(4) [where P = "\<lambda>d. d_notes d = d_notes (w_db w)"] server_keeps) auto
    then show ?thesis ..
  qed
qed simp

section \<open>A note and its owner\<close>

lemma all_others:
  assumes "\<And>own. notes_of_others own w' = notes_of_others own w"
  shows "d_notes (w_db w') = d_notes (w_db w)"
proof -
  obtain own :: string where "own \<notin> nr_owner_id ` set (d_notes (w_db w) @ d_notes (w_db w'))"
    using ex_new_if_finite [OF infinite_UNIV_listI, of "nr_owner_id ` set (d_notes (w_db w) @ d_notes (w_db w'))"] by auto
  then have "notes_of_others own w = d_notes (w_db w)" "notes_of_others own w' = d_notes (w_db w')"
    by (auto simp: notes_of_others_def filter_id_conv)
  with assms show ?thesis by metis
qed

text \<open>The context in which grpc-go hands over a call that carries \<open>md\<close>.\<close>

definition arriving :: "string \<Rightarrow> metadata \<Rightarrow> int option \<Rightarrow> call_ctx" where
  "arriving fullMethod md deadline =
     \<lparr>cx_md = Some md, cx_method = fullMethod, cx_request_id = None, cx_deadline = deadline, cx_principal = None\<rparr>"

text \<open>
  The rows of the notes that a request may change: none, or those of the subject of its token,
  when the body of the call is a valid request to one of the two methods that write notes.
\<close>

definition notes_authorized ::
  "edge_env \<Rightarrow> authenticator \<Rightarrow> messages \<Rightarrow> rules \<Rightarrow> wire \<Rightarrow> request \<Rightarrow> edge \<Rightarrow> world \<Rightarrow> world \<Rightarrow> bool"
  where
  "notes_authorized X a M V body r s w w' \<longleftrightarrow>
     d_notes (w_db w') = d_notes (w_db w) \<or>
     (\<exists>q c. writes_note q \<and> method_of q = rq_path r \<and> decodes M body q \<and> contract V q \<and>
        EdgeFacts.verified (ee_env X) a r c \<and> (an_blacklist a \<longrightarrow> \<not> blocked (ee_env X) s (c_id c)) \<and>
        notes_of_others (c_subject c) w' = notes_of_others (c_subject c) w)"

text \<open>
  The call of a request, if any, goes to the backend and the method of the path, and a caller in its
  metadata is the principal of the claims of the request's verified token.
\<close>

lemma request_call:
  assumes "bridge_faithful X"
    and "\<And>backend md. (\<And>p. withPrincipalFromMetadata (Some md) = Some p \<Longrightarrow>
        \<exists>c. p = claims_principal c \<and> EdgeFacts.verified (ee_env X) a r c \<and> (an_blacklist a \<longrightarrow> \<not> blocked (ee_env X) s (c_id c))) \<Longrightarrow>
      Q backend (rq_path r) md"
  shows "at_most_one_call (\<lambda>(backend, fullMethod, md).
      fullMethod = rq_path r \<and> Proxy_resolve (rq_path r) = Some backend \<and> Q backend fullMethod md)
    s (snd (BuildHandler X cfg a rw r s))"
proof -
  let ?s' = "snd (BuildHandler X cfg a rw r s)"
  have "authentic (ee_env X) a r s ?s'" "carries_path r s ?s'"
    using chain_authentic [OF assms(1)] chain_path [OF assms(1)] by (simp_all add: serves_def)
  then have "at_most_one_call (\<lambda>call. EdgeFacts.identified (ee_env X) a r s call \<and> fst (snd call) = rq_path r \<and>
      Proxy_resolve (rq_path r) = Some (fst call)) s ?s'"
    by (auto simp: authentic_def carries_path_def at_most_one_call_def)
  then show ?thesis
    by (rule at_most_one_mono)
      ((auto intro!: assms(2) simp: EdgeFacts.identified_def principal_of_def split: option.splits); blast)
qed


section \<open>A request through both services\<close>

definition demo_rules :: rules where
  "demo_rules = \<lparr>ru_email = (\<lambda>_. True), ru_uuid = (\<lambda>s. length s = 36)\<rparr>"

definition demo_messages :: messages where
  "demo_messages = \<lparr>pb_Register = \<lambda>b. Inl (PlainStatus Internal b), pb_Login = \<lambda>b. Inl (PlainStatus Internal b),
     pb_Refresh = \<lambda>b. Inr b, pb_Logout = \<lambda>b. Inr (b, []), pb_GetProfile = \<lambda>b. Inr (), pb_ChangePassword = \<lambda>b. Inr (b, b),
     pb_SetUserRole = \<lambda>b. Inr (b, b), pb_RequestPasswordReset = \<lambda>b. Inr b, pb_ResetPassword = \<lambda>b. Inr (b, b, b),
     pb_RequestEmailVerification = \<lambda>b. Inr (), pb_VerifyEmail = \<lambda>b. Inr b, pb_CreateAPIKey = \<lambda>b. Inr b, pb_ListAPIKeys = \<lambda>b. Inr (),
     pb_RevokeAPIKey = \<lambda>b. Inr b, pb_ValidateAPIKey = \<lambda>b. Inr b, pb_CreateNote = \<lambda>b. Inr (b, b), pb_GetNote = \<lambda>b. Inr b,
     pb_UpdateNote = \<lambda>b. Inr (b, b, b, 1), pb_ListNotes = \<lambda>b. Inr (10, 0), pb_Check = \<lambda>b. Inr (b, b, []), pb_ListPolicies = \<lambda>b. Inr (),
     pb_UpsertPolicy = \<lambda>b. Inl (PlainStatus Internal b), pb_DeletePolicy = \<lambda>b. Inr b, pb_ListAuditLog = \<lambda>b. Inr (10, 0, b)\<rparr>"

definition demo_core :: core_process where
  "demo_core = \<lparr>cp_cel = \<lparr>cel_compile = \<lambda>_. None, cel_eval = \<lambda>_ _. None\<rparr>, cp_json = \<lparr>js_envelope = \<lambda>_. None, js_jsonb = \<lambda>_. True\<rparr>,
     cp_env = demo_env, cp_messages = demo_messages,
     cp_validate = (\<lambda>q. if contract demo_rules q then None else Some (External ''invalid'')), cp_rpc = demo_rpc\<rparr>"

definition no_policies :: checker where
  "no_policies = \<lparr>ck_policies = [], ck_loadedAt = 0, ck_refreshing = False\<rparr>"


end
