(* ===== verification/AdminRoles.thy ===== *)
theory AdminRoles
  imports EndToEnd IdentityAccess
begin

text \<open>
  Changes of roles through both services: a request at the gateway changes the role of an account
  only with a verified token of an administrator, and then only of the account it names, to the
  role it names. No definition of the code is added here.
\<close>

section \<open>Roles after a change by an administrator\<close>

definition old_role :: "db \<Rightarrow> user_row \<Rightarrow> bool" where
  "old_role d0 r \<longleftrightarrow> ur_role r = ''user'' \<or> (\<exists>r0 \<in> set (d_users d0). ur_id r0 = ur_id r \<and> ur_role r0 = ur_role r)"

text \<open>\<open>A\<close> says which account may have got which role.\<close>

definition roles_or :: "(uuid \<Rightarrow> string \<Rightarrow> bool) \<Rightarrow> db \<Rightarrow> db \<Rightarrow> bool" where
  "roles_or A d0 d \<longleftrightarrow> identity_ok d \<and> (\<forall>r \<in> set (d_users d). old_role d0 r \<or> A (ur_id r) (ur_role r))"

lemma roles_or_statements:
  "db_keeps (roles_or A d0) (InsertIdentityOutboxEvent oid subject pl t)"
  "A uid role \<Longrightarrow> db_keeps (roles_or A d0) (UpdateUser uid hash name role status updated version)"
  unfolding roles_or_def
  by (intro db_keeps_conj identity_ok_statements;
      auto simp: db_keeps_def identity_sql old_role_def Let_def ball_update_rows split: if_splits)+

lemma update_keeps_or:
  assumes "\<And>b. uuidFromString E (u_id u) = Inr b \<Longrightarrow> A b (u_role u)"
  shows "preserves (on_db (roles_or A d0)) (UserRepository_Update E u)"
  unfolding UserRepository_Update_def
  by (cases "uuidFromString E (u_id u)") (auto simp: preserves_Inl assms intro!: pres roles_or_statements)

lemma publish_keeps_or: "preserves (on_db (roles_or A d0)) (IdentityOutbox_Publish E events)"
  unfolding identity_repo by (rule preserves_uuid | intro pres roles_or_statements)+

text \<open>The account that was read is the one that was asked for.\<close>

lemma read_keeps_or:
  assumes "scan_reads_text E"
    and "\<And>u. (\<And>b. uuidFromString E (u_id u) = Inr b \<Longrightarrow> uuidFromString E uid = Inr b) \<Longrightarrow> preserves (on_db (roles_or A d0)) (k u)"
  shows "preserves (on_db (roles_or A d0)) (andThen (UserRepository_GetByID E uid) k)"
proof (rule preservesI)
  fix w assume P: "on_db (roles_or A d0) w"
  obtain r v where run: "UserRepository_GetByID E uid w = (r, v)" by (metis prod.collapse)
  have "preserves (on_db (roles_or A d0)) (UserRepository_GetByID E uid)"
    unfolding UserRepository_GetByID_def by (intro pres)
  from preserves_run [OF this P run] have v: "on_db (roles_or A d0) v" .
  show "on_db (roles_or A d0) (snd (andThen (UserRepository_GetByID E uid) k w))"
  proof (cases r)
    case (Inr u)
    then obtain b row where b: "uuidFromString E uid = Inr b" "GetUserByID b (w_db w) = Some row" "userFromRow E row = Inr u"
      using run by (auto elim!: GetByID_Inr)
    then have row: "ur_id row = b" "row \<in> set (d_users (w_db w))"
      by (auto simp: GetUserByID_def find_Some_iff dest: nth_mem)
    with P have "length b = 16" by (auto simp: on_db_def roles_or_def identity_ok_def)
    then have "preserves (on_db (roles_or A d0)) (k u)"
      using userFromRow_Inr [OF b(3)] b(1) row(1) by (intro assms(2)) (auto dest: scan_own_id [OF assms(1)])
    with v run Inr show ?thesis by (auto dest: preservesD)
  qed (use v run in simp)
qed

lemma changed_keeps_or:
  assumes "\<And>b. uuidFromString E (u_id u) = Inr b \<Longrightarrow> A b role"
    and "\<And>u' x. preserves (on_db (roles_or A d0)) (k u' x)"
  shows "preserves (on_db (roles_or A d0))
    (andThen (liftE (User_ChangeRole role now u)) (\<lambda>u'. andThen (UserRepository_Update E u') (k u')))"
  using assms
  by (cases "User_ChangeRole role now u")
    (auto simp: preserves_Inl User_ChangeRole_def split: if_splits intro!: preserves_andThen update_keeps_or)

lemma preserves_user_id:
  assumes "preserves I (k uid)"
  shows "preserves I (catchE (liftE (NewUserID uid)) (\<lambda>_. fail e) k)"
proof (rule preservesI)
  fix w assume "I w"
  with preservesD [OF assms this] show "I (snd (catchE (liftE (NewUserID uid)) (\<lambda>_. fail e) k w))"
    by (simp add: catchE_def NewUserID_def liftE_def)
qed

lemma execute_keeps_or:
  assumes "scan_reads_text E" and "\<And>b. uuidFromString E uid = Inr b \<Longrightarrow> A b role"
  shows "preserves (on_db (roles_or A d0)) (SetUserRole_Execute E uid role)"
proof -
  have "preserves (on_db (roles_or A d0)) (andThen (UserRepository_GetByID E uid) (\<lambda>user.
      andThen (clock_Now E) (\<lambda>now.
      andThen (liftE (User_ChangeRole role now user)) (\<lambda>user'.
      andThen (UserRepository_Update E user') (\<lambda>_.
      case User_PullEvents user' of (events, user'') \<Rightarrow> andThen (IdentityOutbox_Publish E events) (\<lambda>_. ret user''))))))"
    by (rule read_keeps_or [OF assms(1)], rule preserves_andThen [OF preserves_clock], rule changed_keeps_or)
      (blast intro: assms(2), intro pres publish_keeps_or)
  then show ?thesis
    unfolding SetUserRole_Execute_def by (intro preserves_user_id preserves_tx)
qed

lemma handler_keeps_or:
  assumes "scan_reads_text E" and "\<And>b. uuidFromString E uid = Inr b \<Longrightarrow> A b role"
  shows "preserves (on_db (roles_or A d0)) (identity_handle E ctx (SetUserRoleRequest uid role))"
  unfolding identity_handle.simps Handler_SetUserRole_def by (intro pres execute_keeps_or assms)

section \<open>Roles after a call\<close>

lemma role_tables:
  "tables IdentityModule d = tables IdentityModule e \<Longrightarrow> roles_from d0 d = roles_from d0 e"
  "tables IdentityModule d = tables IdentityModule e \<Longrightarrow> roles_or A d0 d = roles_or A d0 e"
  by (simp_all add: tables_eq roles_from_def roles_or_def identity_ok_def)

lemma identity_call:
  assumes "preserves (on_db P) (identity_handle E ctx r)"
  shows "preserves (on_db P) (one_call L J E ck (IdentityCall ctx r))"
proof (rule preservesI)
  fix w assume "on_db P w"
  moreover obtain x v where h: "identity_handle E ctx r w = (x, v)" by (metis prod.collapse)
  ultimately have "on_db P v" using preserves_run [OF assms] by blast
  with h show "on_db P (snd (one_call L J E ck (IdentityCall ctx r) w))"
    by (cases x) (simp_all add: one_call_def on_world_def)
qed

lemma server_keeps_roles:
  assumes "scan_reads_text E"
    and "\<And>uid role. q = IdentityReq (SetUserRoleRequest uid role) \<Longrightarrow> \<not> is_admin (withPrincipalFromMetadata md)"
  shows "call_keeps (roles_from d0) (RpcServer.identified md) q (core_server L J E ck)"
  unfolding core_server_def
proof (rule keeps_module)
  fix c assume c: "RpcServer.identified md c"
  show "preserves (on_db (roles_from d0)) (one_call L J E ck (call_of (cx_principal c) q))"
  proof (cases q)
    case (IdentityReq r)
    have "sets_role r \<longrightarrow> \<not> is_admin (cx_principal c)"
      using c assms(2) IdentityReq by (cases r rule: sets_role.cases) (auto simp: RpcServer.identified_def)
    with roles_handler [OF assms(1)] identity_call IdentityReq show ?thesis by simp
  qed (auto intro!: other_modules_keep [where M = IdentityModule] role_tables)
qed

lemma server_keeps_or:
  assumes "scan_reads_text E" and "\<And>b. uuidFromString E uid = Inr b \<Longrightarrow> A b role"
  shows "call_keeps (roles_or A d0) C (IdentityReq (SetUserRoleRequest uid role)) (core_server L J E ck)"
  unfolding core_server_def
  by (rule keeps_module) (simp add: identity_call handler_keeps_or assms del: identity_handle.simps)

section \<open>A role and its administrator\<close>

definition setUserRole_path :: string where
  "setUserRole_path = ''/identity.v1.IdentityService/SetUserRole''"

lemma path_sets_role: "method_of q = setUserRole_path \<longleftrightarrow> (\<exists>uid role. q = IdentityReq (SetUserRoleRequest uid role))"
  by (cases q rule: method_of.cases) (simp_all add: setUserRole_path_def)

text \<open>
  The roles after a request: old ones, or with a new one for the account the body names, when an
  administrator's token asked for it.
\<close>

definition admin_token :: "edge_env \<Rightarrow> authenticator \<Rightarrow> request \<Rightarrow> edge \<Rightarrow> claims \<Rightarrow> bool" where
  "admin_token X a r s c \<longleftrightarrow> EdgeFacts.verified (ee_env X) a r c \<and> (an_blacklist a \<longrightarrow> \<not> blocked (ee_env X) s (c_id c)) \<and>
     (c_role c = ''admin'' \<or> c_token_type c = ''admin'')"

definition role_authorized ::
  "edge_env \<Rightarrow> authenticator \<Rightarrow> core_process \<Rightarrow> rules \<Rightarrow> wire \<Rightarrow> request \<Rightarrow> edge \<Rightarrow> db \<Rightarrow> user_row \<Rightarrow> bool"
  where
  "role_authorized X a C V body r s d0 row \<longleftrightarrow>
     old_role d0 row \<or>
     rq_path r = setUserRole_path \<and> (\<exists>c. admin_token X a r s c) \<and>
     (\<exists>uid. pb_SetUserRole (cp_messages C) body = Inr (uid, ur_role row) \<and> identity_contract V (SetUserRoleRequest uid (ur_role row)) \<and>
        uuidFromString (cp_env C) uid = Inr (ur_id row))"

lemma core_call_roles:
  assumes "follows_contract C V" and "cx_principal ctx = None"
    and "core_serve C ck (rq_path r) ctx body (w, lg) = (res, (w', lg'))"
    and "identity_ok (w_db w)" and "scan_reads_text (cp_env C)"
    and "is_admin (withPrincipalFromMetadata (cx_md ctx)) \<Longrightarrow> \<exists>c. admin_token X a r s c"
  shows "\<forall>row \<in> set (d_users (w_db w')). role_authorized X a C V body r s (w_db w) row"
proof -
  have start: "roles_from (w_db w) (w_db w)" "roles_or A (w_db w) (w_db w)" for A
    using assms(4) by (auto simp: roles_from_def roles_or_def old_role_def)
  have old: ?thesis if "roles_from (w_db w) (w_db w')"
    using that by (auto simp: roles_from_def role_authorized_def old_role_def)
  show ?thesis
  proof (cases rule: core_call_cases [OF assms(1-3)])
    case 1
    with start(1) old show ?thesis by simp
  next
    case (2 q)
    show ?thesis
    proof (cases "rq_path r = setUserRole_path \<and> is_admin (withPrincipalFromMetadata (cx_md ctx))")
      case True
      with 2(1) obtain uid role where q: "q = IdentityReq (SetUserRoleRequest uid role)" using path_sets_role by metis
      let ?A = "\<lambda>b role'. uuidFromString (cp_env C) uid = Inr b \<and> role' = role"
      have "call_keeps (roles_or ?A (w_db w)) (RpcServer.identified (cx_md ctx)) q (core_server (cp_cel C) (cp_json C) (cp_env C) ck)"
        unfolding q by (rule server_keeps_or [OF assms(5)]) simp
      from 2(4) [OF this start(2)] show ?thesis
        using True 2(2,3) assms(6) by (auto simp: roles_or_def role_authorized_def q)
    next
      case False
      then have "\<not> is_admin (withPrincipalFromMetadata (cx_md ctx))" if "q = IdentityReq (SetUserRoleRequest uid role)" for uid role
        using that 2(1) path_sets_role by metis
      from 2(4) [OF server_keeps_roles [OF assms(5) this] start(1)] show ?thesis by (rule old)
    qed
  qed
qed



end
