(* ===== verification/Spec2Isabelle.thy ===== *)
theory Spec2Isabelle
  imports
    Breaker
    Secure
    Errors
    IdentityAccess
    Ledger
    Jobs
    ConfigFacts
    AuthzFacts
    EdgeDemo
    Forward
    RpcStreams
    Tasks
    BootstrapFacts
    Cache
    Seed
    AdminRoles
    ModuleSchemas
begin

text \<open>
  A model of the two services of lynk: \<^verbatim>\<open>services/core\<close>, a gRPC service of four modules
  (identity, example notes, authorization, audit) on PostgreSQL, Redis and NATS JetStream, and
  \<^verbatim>\<open>services/gateway\<close>, the public edge in front of it, which turns gRPC-Web requests of browsers
  into gRPC calls. Paths below are relative to \<^verbatim>\<open>internal/\<close> of either service.

  A request enters at the gateway's chain of middlewares (\<^verbatim>\<open>edge\<close>), which limits, checks and
  authenticates it and forwards it with the verified principal as metadata. The core's chain of
  interceptors (\<^verbatim>\<open>platform/grpcserver\<close>) rebuilds the principal and calls a module's handler, which
  runs a use case on repositories over the database. A use case that changes something writes
  an event into the outbox of its module in the same transaction; the worker process relays outbox
  rows to the bus, and the audit module's consumer turns them into a ledger. Revocations of
  tokens travel from the core to the gateways through Redis.

  \<^bold>\<open>Representation.\<close> A Go function that may fail is an \<open>act\<close> (\<open>LynkPrelude\<close>): it maps a state to an
  error or a value, and the state after it. The core's state is the record \<open>world\<close> (\<open>World\<close>): tables,
  replicas, the open transaction, Redis, bus, messages sent. What the code does not decide is the
  record \<open>env\<close>: clock, random source, a fault for any call to database, Redis or bus, a commit
  that fails before or after it took effect, hashes, parsers, signatures. Every outside call takes one
  step \<open>w_step\<close>, which indexes these oracles, so a theorem over all environments is about faults at
  any point. Errors are the datatype \<open>gerr\<close> (\<open>Errors\<close>); a panic is the error \<open>Panicked\<close>, which
  passes through error handling. Go's integers are words or \<open>int\<close>, as the code's ranges require
  (the Bloom hashes and the memory limit are 64-bit words, \<open>int32\<close> settings are 32-bit
  words); strings are byte strings with Go's UTF-8 rules (\<open>GoStrings\<close>); times are microseconds.
  Code that is not in the repository (pgx, go-redis, NATS, grpc-go, golang-jwt, CEL, argon2,
  Ristretto) is a parameter, and what is relied on of it a named hypothesis.

  \<^bold>\<open>Theories.\<close>
    \<^item> Foundations: \<open>LynkPrelude\<close> (acts, Hoare triples, list facts), \<open>GoStrings\<close>, \<open>Secure\<close>
      (\<^verbatim>\<open>platform/secure\<close>: tokens, UUIDv7, password hashes), \<open>Errors\<close> (\<^verbatim>\<open>platform/apperror\<close>, the mapping of
      \<^verbatim>\<open>grpcserver/errormap.go\<close>), \<open>World\<close>, \<open>Postgres\<close> (pools and \<open>WithinTransaction\<close> of
      \<^verbatim>\<open>platform/postgres\<close>), \<open>Redis\<close>, \<open>AuthCtx\<close> (\<^verbatim>\<open>platform/auth\<close>), \<open>Demo\<close> (the concrete
      environment of the witnesses).
    \<^item> Identity: \<open>IdentityDomain\<close> (\<^verbatim>\<open>domain\<close>), \<open>IdentitySQL\<close> (\<^verbatim>\<open>gen/db/identity.sql.go\<close>),
      \<open>IdentityRepo\<close> (\<^verbatim>\<open>infrastructure\<close>), \<open>IdentityApp\<close> (\<^verbatim>\<open>application\<close>), \<open>IdentityHandler\<close>
      (\<^verbatim>\<open>adapter/grpc\<close>); \<open>IdentityFacts\<close>, \<open>IdentityLogin\<close>, \<open>IdentitySessions\<close>, \<open>IdentityKeys\<close> and
      \<open>IdentityAccess\<close> prove what they promise.
    \<^item> Notes: \<open>Notes\<close> (\<^verbatim>\<open>modules/example\<close>, every layer) and \<open>NotesFacts\<close>.
    \<^item> Events: \<open>Outbox\<close> (both relays), \<open>Ledger\<close> (\<^verbatim>\<open>modules/audit\<close>, durable deliveries and the pipeline
      from a commit to the ledger).
    \<^item> Authorization: \<open>Authz\<close>, \<open>AuthzFacts\<close> (\<^verbatim>\<open>modules/authz\<close>).
    \<^item> Platform: \<open>Breaker\<close>, \<open>Jobs\<close> (\<^verbatim>\<open>platform/lock\<close>, \<^verbatim>\<open>platform/jobs\<close>), \<open>Cache\<close>
      (\<^verbatim>\<open>platform/cache\<close>), \<open>Config\<close> and \<open>ConfigFacts\<close> (\<^verbatim>\<open>platform/config\<close> of both services,
      \<^verbatim>\<open>platform/runtimeenv\<close>), \<open>RpcServer\<close> and \<open>RpcStreams\<close>
      (\<^verbatim>\<open>platform/grpcserver\<close>), \<open>Tasks\<close> (\<^verbatim>\<open>platform/safe\<close>).
    \<^item> Edge: \<open>Http\<close> (what is used of \<^verbatim>\<open>net/http\<close>), \<open>EdgeAuth\<close> (\<^verbatim>\<open>auth.go\<close>, \<^verbatim>\<open>bloom.go\<close>, \<^verbatim>\<open>platform/jwt\<close>),
      \<open>EdgeLimits\<close> (\<^verbatim>\<open>ratelimit.go\<close>), \<open>EdgeChain\<close> (the other middlewares, routing, \<open>BuildHandler\<close>),
      \<open>Forward\<close> (\<^verbatim>\<open>forward.go\<close>); \<open>EdgeFacts\<close>, \<open>EdgeGuards\<close> and \<open>EdgeDemo\<close> prove.
    \<^item> Processes: \<open>Connections\<close> (\<^verbatim>\<open>platform/shutdown\<close>, \<open>Connect\<close> of postgres, redis and nats,
      \<^verbatim>\<open>platform/telemetry\<close>, \<^verbatim>\<open>platform/health\<close>), \<open>Bootstrap\<close> (both composition roots and their \<open>main\<close>),
      \<open>BootstrapFacts\<close>, \<open>Seed\<close> (\<^verbatim>\<open>cmd/seed\<close>).
    \<^item> gRPC surface: \<open>Services\<close> (the handlers and descriptors of \<^verbatim>\<open>internal/gen/proto/*_grpc.pb.go\<close>, the validation
      rules of the \<^verbatim>\<open>.proto\<close> files, the dispatch to the modules).
    \<^item> Composition: \<open>ModuleSchemas\<close> runs histories of calls and tasks of all modules on one database and on a
      database per module (\<^verbatim>\<open>docs/04-modular-monolith.md\<close>); \<open>EndToEnd\<close> and \<open>AdminRoles\<close> run the
      call that a request makes at the gateway through the core.

  \<^bold>\<open>Interfaces.\<close> A locale states a contract and is interpreted on the model: \<open>unit_of_work\<close> on
  \<open>WithinTransaction\<close>; \<open>expiring_store\<close> and \<open>expiring_lock\<close> on Redis, and on the cache's first tier;
  \<open>identity_tables\<close>, \<open>identity_fact\<close> and \<open>redis_fact\<close> (facts that no statement undoes) on the
  schema's invariant, on dead sessions, consumed codes, revoked keys and roles; \<open>versioned\<close> on the
  rows of notes and users; \<open>notes_fact\<close>; \<open>outbox\<close> on both outboxes; \<open>schema_part\<close> on the four modules' tables; \<open>layer\<close> on every middleware of the
  edge, so that a fact established by one middleware reaches the bridge through the others.

  \<^bold>\<open>What is shown.\<close>
    \<^item> Across the services: a request changes only notes of the user whose token it carried, by a valid
      message to a method that writes notes; roles change only for the token of an administrator, as its
      message says; a module can move to a database of its own and no answer changes.
    \<^item> At the edge: backends see only identities of verified, unrevoked tokens; a logout reaches the edge;
      tokens of the core verify at the gateway; forged requests, floods and bursts are
      stopped; the stream proxy forwards faithfully and terminates under every schedule.
    \<^item> Identity: rotated refresh tokens are rejected for ever, logins are sound, uniform in their
      failures and locked out, codes work once, revoked keys stay revoked, roles are raised by
      administrators only, registration is atomic, the schema's invariant holds in every history.
    \<^item> Notes: no update is lost, owners are isolated, updates need a policy that allows them.
    \<^item> Authorization: the decision loop refines the set-based verdict deny-overrides over
      any interleaving with reloads.
    \<^item> Events: the relays lose nothing under any fault, drain in order, and every committed event
      reaches the ledger; the stream the worker declares takes every published subject.
    \<^item> Platform: jobs do not overlap inside their leases, the breaker admits a bounded number of
      probes, the cache answers only what was loaded recently, configuration errors are all
      named, a failed call is logged once.
    \<^item> Processes: whatever fails, what a boot opened is closed again; servers stop before what
      they use; production runs on configured keys.

  \<^bold>\<open>Bounds.\<close> No definition takes fuel. Loops are structural recursion over what they range over (rows,
  replicas, policies, hooks), or have a termination proof. Concurrency is a step relation with arbitrary
  interleaving (\<open>fleet_step\<close>, \<open>cluster_step\<close>, \<open>pipeline_step\<close>, \<open>fw_step\<close>, histories of requests);
  termination under fairness is a measure (\<open>Forward\<close>).

  \<^bold>\<open>Not modelled.\<close> Sockets and timers themselves: listening, keepalive, real deadlines (a deadline is an
  oracle of the environment that ends a call). Logging and tracing, except log lines that are a
  contract of the interceptors. Generated message types and client stubs, and sqlc's glue: messages are records
  and datatypes, decoding is a parameter, statements are modelled one by one. Module constructors that only
  hand over dependencies. The gateway's copies of the core's platform packages are the same text and
  are modelled once. Frontend, migrations, deployment and scripts are outside the services' logic.
\<close>

end
